(* ===== verification/Prelude.thy ===== *)
theory Prelude
  imports Main "HOL-Library.Word" "HOL-Library.List_Lexorder"
begin

text \<open>
  Shared vocabulary of the development: the names of the model's basic types (bytes, machine
  integers, results), the combinators of Rust's \<open>Result\<close> that the code chains calls with, the
  decimal printer behind \<open>format!\<close>, the UTF-8 check of \<open>str::from_utf8\<close>, the big-endian
  codec of \<open>u64::to_be_bytes\<close>, and the collections of facts that the component theories
  extend.
\<close>

unbundle bit_operations_syntax

section \<open>Types\<close>

type_synonym byte = "8 word"
type_synonym bytes = "byte list"
type_synonym u64 = "64 word"
type_synonym usize = "64 word"

text \<open>
  A \<open>Result<T, E>\<close> is a value of a sum type: \<open>Inl\<close> the error, \<open>Inr\<close> the success.
  A panic is the value \<open>None\<close> of an option around the result.
\<close>

type_synonym ('e, 'a) result = "'e + 'a"

section \<open>Collections of facts\<close>

named_theorems result_defs \<open>definitions of the combinators on results\<close>
named_theorems guard_simps \<open>what a guarded operation does when its guard fails\<close>
named_theorems store_defs \<open>the operations of the stores, unfolded down to the database calls\<close>

section \<open>Results\<close>

text \<open>The \<open>?\<close> operator and \<open>Result::and_then\<close>: go on with the success, return the error.\<close>

definition and_then :: "('e, 'a) result \<Rightarrow> ('a \<Rightarrow> ('e, 'b) result) \<Rightarrow> ('e, 'b) result" where
  [result_defs]: "and_then r f = (case r of Inl e \<Rightarrow> Inl e | Inr a \<Rightarrow> f a)"

definition map_ok :: "('a \<Rightarrow> 'b) \<Rightarrow> ('e, 'a) result \<Rightarrow> ('e, 'b) result" where
  [result_defs]: "map_ok f r = (case r of Inl e \<Rightarrow> Inl e | Inr a \<Rightarrow> Inr (f a))"

definition map_err :: "('e \<Rightarrow> 'f) \<Rightarrow> ('e, 'a) result \<Rightarrow> ('f, 'a) result" where
  [result_defs]: "map_err f r = (case r of Inl e \<Rightarrow> Inl (f e) | Inr a \<Rightarrow> Inr a)"

definition ok_or :: "'e \<Rightarrow> 'a option \<Rightarrow> ('e, 'a) result" where
  [result_defs]: "ok_or e x = (case x of None \<Rightarrow> Inl e | Some a \<Rightarrow> Inr a)"

text \<open>\<open>opt.map_or(Ok(None), |x| f(x).map(Some))\<close>, the tail of every typed read.\<close>

definition opt_try :: "('a \<Rightarrow> ('e, 'b) result) \<Rightarrow> 'a option \<Rightarrow> ('e, 'b option) result" where
  [result_defs]: "opt_try f x = (case x of None \<Rightarrow> Inr None | Some a \<Rightarrow> map_ok Some (f a))"

text \<open>
  \<open>iter.collect::<Result<Vec<_>, _>>()\<close> over values that are already there: the first error wins.
\<close>

fun collect_ok :: "('e, 'a) result list \<Rightarrow> ('e, 'a list) result" where
  "collect_ok [] = Inr []"
| "collect_ok (r # rs) = and_then r (\<lambda>a. and_then (collect_ok rs) (\<lambda>as. Inr (a # as)))"

lemma and_then_simps [simp]:
  "and_then (Inl e) f = Inl e"
  "and_then (Inr a) f = f a"
  by (simp_all add: and_then_def)

lemma map_ok_simps [simp]:
  "map_ok f (Inl e) = Inl e"
  "map_ok f (Inr a) = Inr (f a)"
  by (simp_all add: map_ok_def)

lemma map_err_simps [simp]:
  "map_err f (Inl e) = Inl (f e)"
  "map_err f (Inr a) = Inr a"
  by (simp_all add: map_err_def)

lemma ok_or_simps [simp]:
  "ok_or e None = Inl e"
  "ok_or e (Some a) = Inr a"
  by (simp_all add: ok_or_def)

lemma opt_try_simps [simp]:
  "opt_try f None = Inr None"
  "opt_try f (Some a) = map_ok Some (f a)"
  by (simp_all add: opt_try_def)

lemma and_then_eq_Inr:
  "and_then r f = Inr b \<longleftrightarrow> (\<exists>a. r = Inr a \<and> f a = Inr b)"
  by (cases r) auto

lemma map_ok_eq_Inr [simp]: "map_ok f r = Inr b \<longleftrightarrow> (\<exists>a. r = Inr a \<and> b = f a)"
  by (cases r) auto

lemma map_err_eq_Inr [simp]: "map_err f r = Inr b \<longleftrightarrow> r = Inr b"
  by (cases r) auto

lemma map_err_eq_Inl [simp]: "map_err f r = Inl e \<longleftrightarrow> (\<exists>d. r = Inl d \<and> e = f d)"
  by (cases r) auto

lemma ok_or_eq_Inr [simp]: "ok_or e x = Inr a \<longleftrightarrow> x = Some a"
  by (cases x) auto

lemma collect_ok_map_Inr [simp]: "collect_ok (map (\<lambda>x. Inr (f x)) xs) = Inr (map f xs)"
  by (induction xs) simp_all

lemma collect_ok_length: "collect_ok rs = Inr as \<Longrightarrow> length as = length rs"
  by (induction rs arbitrary: as) (auto simp: and_then_eq_Inr)

lemma collect_ok_Inr_iff: "collect_ok rs = Inr as \<longleftrightarrow> rs = map Inr as"
  by (induction rs arbitrary: as) (auto simp: and_then_eq_Inr)

section \<open>Decimal printing\<close>

definition digit_char :: "nat \<Rightarrow> char" where
  "digit_char d = char_of (48 + d)"

fun show_nat :: "nat \<Rightarrow> string" where
  "show_nat n = (if n < 10 then [digit_char n] else show_nat (n div 10) @ [digit_char (n mod 10)])"

declare show_nat.simps [simp del]

section \<open>Strings as bytes, and the UTF-8 check\<close>

text \<open>
  A Rust string is its UTF-8 bytes; an Isabelle \<open>char\<close> is a byte. \<open>str_bytes\<close> and
  \<open>bytes_str\<close> convert between the two views.
\<close>

definition str_bytes :: "string \<Rightarrow> bytes" where
  "str_bytes s = map of_char s"

definition bytes_str :: "bytes \<Rightarrow> string" where
  "bytes_str bs = map (\<lambda>b. char_of (unat b)) bs"

lemma length_str_bytes [simp]: "length (str_bytes s) = length s"
  by (simp add: str_bytes_def)

lemma length_bytes_str [simp]: "length (bytes_str bs) = length bs"
  by (simp add: bytes_str_def)

text \<open>
  Well-formed UTF-8 (Unicode, table 3-7), which is what \<open>str::from_utf8\<close> accepts: no overlong
  forms, no surrogates, nothing above U+10FFFF.
\<close>

definition cont_byte :: "byte \<Rightarrow> bool" where
  "cont_byte b \<longleftrightarrow> 0x80 \<le> b \<and> b \<le> 0xBF"

fun utf8_valid :: "bytes \<Rightarrow> bool" where
  "utf8_valid [] = True"
| "utf8_valid (a # bs) =
     (if a \<le> 0x7F then utf8_valid bs
      else if 0xC2 \<le> a \<and> a \<le> 0xDF then
        (case bs of b # rest \<Rightarrow> cont_byte b \<and> utf8_valid rest | _ \<Rightarrow> False)
      else if 0xE0 \<le> a \<and> a \<le> 0xEF then
        (case bs of b # c # rest \<Rightarrow>
             cont_byte b \<and> cont_byte c \<and> (a = 0xE0 \<longrightarrow> 0xA0 \<le> b) \<and> (a = 0xED \<longrightarrow> b \<le> 0x9F)
             \<and> utf8_valid rest
         | _ \<Rightarrow> False)
      else if 0xF0 \<le> a \<and> a \<le> 0xF4 then
        (case bs of b # c # d # rest \<Rightarrow>
             cont_byte b \<and> cont_byte c \<and> cont_byte d \<and> (a = 0xF0 \<longrightarrow> 0x90 \<le> b)
             \<and> (a = 0xF4 \<longrightarrow> b \<le> 0x8F) \<and> utf8_valid rest
         | _ \<Rightarrow> False)
      else False)"

declare utf8_valid.simps(2) [simp del]

definition from_utf8 :: "bytes \<Rightarrow> string option" where
  "from_utf8 bs = (if utf8_valid bs then Some (bytes_str bs) else None)"

lemma utf8_valid_ascii: "\<forall>b \<in> set bs. b \<le> 0x7F \<Longrightarrow> utf8_valid bs"
  by (induction bs) (simp_all add: utf8_valid.simps(2))

lemma unat_of_char: "unat (of_char c :: byte) = of_char c"
proof -
  have "(of_char c :: byte) = of_nat (of_char c)"
    by (rule of_nat_of_char [symmetric])
  then show ?thesis
    by (simp only: unat_of_nat) (simp add: nat_of_char_less_256)
qed

lemma bytes_str_str_bytes [simp]: "bytes_str (str_bytes s) = s"
  by (induction s) (simp_all add: bytes_str_def str_bytes_def unat_of_char)

lemma str_bytes_inject [simp]: "str_bytes a = str_bytes b \<longleftrightarrow> a = b"
  using bytes_str_str_bytes by metis

section \<open>Big-endian u64\<close>

definition to_be_bytes :: "u64 \<Rightarrow> bytes" where
  "to_be_bytes w = map (\<lambda>i. ucast (drop_bit (8 * i) w)) [7, 6, 5, 4, 3, 2, 1, 0]"

definition be_shift :: "u64 \<Rightarrow> byte \<Rightarrow> u64" where
  "be_shift acc b = push_bit 8 acc OR ucast b"

definition from_be_bytes :: "bytes \<Rightarrow> u64" where
  "from_be_bytes bs = foldl be_shift 0 bs"

lemma length_to_be_bytes [simp]: "length (to_be_bytes w) = 8"
  by (simp add: to_be_bytes_def)

lemma be_shift_drop: "be_shift (drop_bit (n + 8) w) (ucast (drop_bit n w)) = drop_bit n w"
  unfolding be_shift_def by (rule bit_word_eqI) (auto simp: bit_simps)

lemma be_shift_low: "ucast (be_shift acc b) = b"
  unfolding be_shift_def by (rule bit_word_eqI) (auto simp: bit_simps)

lemma be_shift_high:
  "n \<le> 48 \<Longrightarrow> (ucast (drop_bit (n + 8) (be_shift acc b)) :: byte) = ucast (drop_bit n acc)"
  unfolding be_shift_def
  by (rule bit_word_eqI) (auto simp: bit_simps dest: bit_imp_le_length)

lemma from_to_be_bytes [simp]: "from_be_bytes (to_be_bytes w) = w"
proof -
  have "drop_bit 64 w = 0"
    by (rule bit_word_eqI) (auto simp: bit_simps dest: bit_imp_le_length)
  then show ?thesis
    using be_shift_drop[of 0 w] be_shift_drop[of 8 w] be_shift_drop[of 16 w] be_shift_drop[of 24 w]
      be_shift_drop[of 32 w] be_shift_drop[of 40 w] be_shift_drop[of 48 w] be_shift_drop[of 56 w]
    by (simp add: from_be_bytes_def to_be_bytes_def)
qed

lemma to_from_be_bytes:
  assumes "length bs = 8"
  shows "to_be_bytes (from_be_bytes bs) = bs"
proof -
  obtain a b c d e f g h where bs: "bs = [a, b, c, d, e, f, g, h]"
    using assms by (auto simp: length_Suc_conv eval_nat_numeral)
  note high = be_shift_high[of 0, simplified] be_shift_high[of 8, simplified]
    be_shift_high[of 16, simplified] be_shift_high[of 24, simplified]
    be_shift_high[of 32, simplified] be_shift_high[of 40, simplified]
    be_shift_high[of 48, simplified]
  show ?thesis
    unfolding bs to_be_bytes_def from_be_bytes_def
    by (simp add: high be_shift_low)
qed

end
