(* ===== verification/Base62.thy ===== *)
theory Base62
  imports Prelude
begin

text \<open>
  \<open>src/utils/base62.rs\<close>: fixed-width Base62 text for \<open>u64\<close> timestamps, used as keys that sort
  like the numbers they encode. The \<open>base62\<close> crate itself is not part of the repository: its
  three functions are the record \<open>base62_crate\<close>, and \<open>base62_contract\<close> is what its documentation
  says of them (minimal positional notation over the alphabet 0-9, A-Z, a-z).
\<close>

section \<open>The base62 crate, as a parameter\<close>

datatype decode_error = ArithmeticOverflow | EmptyInput | InvalidBase62Byte byte nat
datatype encode_error = BufferTooSmall

type_synonym u128 = "128 word"

text \<open>
  \<open>encode_bytes(n, buf)\<close> writes into the buffer it is given and returns how much it wrote: here,
  the bytes written, from the buffer's length.
\<close>

record base62_crate =
  b62_encode :: "u128 \<Rightarrow> string"
  b62_encode_bytes :: "u128 \<Rightarrow> nat \<Rightarrow> (encode_error, bytes) result"
  b62_decode :: "string \<Rightarrow> (decode_error, u128) result"

section \<open>src/utils/base62.rs\<close>

definition WIDTH_U64 :: nat where
  "WIDTH_U64 = 11"

text \<open>\<open>format!("{:0>width$}", s)\<close>: left-pad with the character 0 up to a minimal width.\<close>

definition pad_left :: "nat \<Rightarrow> string \<Rightarrow> string" where
  "pad_left width s = replicate (width - length s) CHR ''0'' @ s"

definition encode_pad :: "base62_crate \<Rightarrow> u64 \<Rightarrow> nat \<Rightarrow> string" where
  "encode_pad B n width = (let s = b62_encode B (ucast n) in pad_left width s)"

definition encode_time :: "base62_crate \<Rightarrow> u64 \<Rightarrow> string" where
  "encode_time B ts = encode_pad B ts WIDTH_U64"

text \<open>
  \<open>encode_fast_pad\<close>: \<open>out\<close> is the caller's buffer. \<open>None\<close> is a panic: the length assertion, the
  \<open>unwrap\<close> of \<open>encode_bytes\<close> into the 22-byte scratch buffer, the index \<open>width - len\<close> below zero,
  or the final UTF-8 \<open>unwrap\<close>.
\<close>

definition encode_fast_pad :: "base62_crate \<Rightarrow> u64 \<Rightarrow> nat \<Rightarrow> bytes \<Rightarrow> string option" where
  "encode_fast_pad B n width out =
     (if length out \<noteq> width then None
      else let out1 = replicate (length out) 0x30 in
        (case b62_encode_bytes B (ucast n) 22 of
           Inl _ \<Rightarrow> None
         | Inr tmp \<Rightarrow>
             let len = length tmp in
             if len > 0 then
               (if width < len then None
                else let start = width - len in from_utf8 (take start out1 @ tmp))
             else from_utf8 out1))"

definition decode :: "base62_crate \<Rightarrow> string \<Rightarrow> (decode_error, u64) result" where
  "decode B s =
     (case b62_decode B s of
        Inr value \<Rightarrow>
          if ucast (- 1 :: u64) < value then Inl ArithmeticOverflow else Inr (ucast value)
      | Inl e \<Rightarrow> Inl e)"

section \<open>Positional notation\<close>

definition b62_char :: "nat \<Rightarrow> char" where
  "b62_char d = char_of (if d < 10 then 48 + d else if d < 36 then 55 + d else 61 + d)"

fun b62_digits :: "nat \<Rightarrow> nat list" where
  "b62_digits n = (if n < 62 then [n] else b62_digits (n div 62) @ [n mod 62])"

declare b62_digits.simps [simp del]

fun b62_val :: "nat list \<Rightarrow> nat" where
  "b62_val [] = 0"
| "b62_val (d # ds) = d * 62 ^ length ds + b62_val ds"

definition b62_text :: "nat \<Rightarrow> string" where
  "b62_text n = map b62_char (b62_digits n)"

definition base62_contract :: "base62_crate \<Rightarrow> bool" where
  "base62_contract B \<longleftrightarrow>
     (\<forall>n. b62_encode B n = b62_text (unat n))
   \<and> (\<forall>n k. b62_encode_bytes B n k =
          (if length (b62_text (unat n)) \<le> k then Inr (str_bytes (b62_text (unat n)))
           else Inl BufferTooSmall))
   \<and> (\<forall>ds. ds \<noteq> [] \<longrightarrow> (\<forall>d \<in> set ds. d < 62) \<longrightarrow> b62_val ds < 2 ^ 128 \<longrightarrow>
          b62_decode B (map b62_char ds) = Inr (word_of_nat (b62_val ds)))"

lemma b62_val_append: "b62_val (xs @ ys) = b62_val xs * 62 ^ length ys + b62_val ys"
  by (induction xs) (simp_all add: power_add algebra_simps)

lemma b62_val_replicate_0 [simp]: "b62_val (replicate k 0) = 0"
  by (induction k) simp_all

lemma b62_digits_not_Nil [simp]: "b62_digits n \<noteq> []"
  by (subst b62_digits.simps) simp

lemma b62_digits_less: "d \<in> set (b62_digits n) \<Longrightarrow> d < 62"
proof (induction n rule: b62_digits.induct)
  case (1 n)
  then show ?case by (subst (asm) (2) b62_digits.simps) (auto split: if_splits)
qed

lemma b62_val_digits [simp]: "b62_val (b62_digits n) = n"
proof (induction n rule: b62_digits.induct)
  case (1 n)
  then show ?case
    by (cases "n < 62") (simp_all add: b62_digits.simps [of n] b62_val_append)
qed

lemma length_b62_digits: "0 < k \<Longrightarrow> n < 62 ^ k \<Longrightarrow> length (b62_digits n) \<le> k"
proof (induction k arbitrary: n)
  case 0
  then show ?case by simp
next
  case (Suc k)
  show ?case
  proof (cases "n < 62")
    case True
    then show ?thesis by (simp add: b62_digits.simps [of n])
  next
    case False
    with Suc.prems have "k \<noteq> 0" by (intro notI) simp
    moreover from Suc.prems have "n div 62 < 62 ^ k" by (simp add: less_mult_imp_div_less mult.commute)
    ultimately have "length (b62_digits (n div 62)) \<le> k" using Suc.IH by simp
    with False show ?thesis by (simp add: b62_digits.simps [of n])
  qed
qed

lemma b62_val_bound: "(\<forall>d \<in> set ds. d < 62) \<Longrightarrow> b62_val ds < 62 ^ length ds"
proof (induction ds)
  case Nil
  then show ?case by simp
next
  case (Cons d ds)
  then have "b62_val ds < 62 ^ length ds" and "d \<le> 61" by auto
  moreover from \<open>d \<le> 61\<close> have "d * 62 ^ length ds \<le> 61 * 62 ^ length ds" by (rule mult_le_mono1)
  ultimately have "d * 62 ^ length ds + b62_val ds < 62 * 62 ^ length ds" by linarith
  then show ?case by simp
qed

text \<open>Between lists of one length, the lexicographic order of the digits is the order of the values.\<close>

lemma b62_val_less_iff:
  "length xs = length ys \<Longrightarrow> (\<forall>d \<in> set xs. d < 62) \<Longrightarrow> (\<forall>d \<in> set ys. d < 62) \<Longrightarrow>
     b62_val xs < b62_val ys \<longleftrightarrow> xs < ys"
proof (induction xs ys rule: list_induct2)
  case Nil
  then show ?case by simp
next
  case (Cons x xs y ys)
  let ?P = "62 ^ length ys :: nat"
  have bx: "b62_val xs < ?P" and b_y: "b62_val ys < ?P"
    using Cons.prems Cons.hyps b62_val_bound [of xs] b62_val_bound [of ys] by auto
  have lt: "d * ?P + b62_val us < e * ?P + b62_val vs" if "d < e" "b62_val us < ?P" for d e us vs
  proof -
    from that(1) have "Suc d * ?P \<le> e * ?P" by (intro mult_le_mono1) simp
    with that(2) show ?thesis by simp
  qed
  have IH: "b62_val xs < b62_val ys \<longleftrightarrow> xs < ys" using Cons by simp
  show ?case
    using lt [OF _ bx, of x y ys] lt [OF _ b_y, of y x xs] IH Cons.hyps
    by (cases x y rule: linorder_cases) auto
qed

lemma b62_char_code: "d < 62 \<Longrightarrow>
  (of_char (b62_char d) :: nat) = (if d < 10 then 48 + d else if d < 36 then 55 + d else 61 + d)"
  by (simp add: b62_char_def)

lemma b62_byte_less: "d < 62 \<Longrightarrow> e < 62 \<Longrightarrow>
  (of_char (b62_char d) :: byte) < of_char (b62_char e) \<longleftrightarrow> d < e"
  by (simp add: word_less_nat_alt unat_of_char b62_char_code)

lemma b62_byte_eq: "d < 62 \<Longrightarrow> e < 62 \<Longrightarrow>
  (of_char (b62_char d) :: byte) = of_char (b62_char e) \<longleftrightarrow> d = e"
  by (simp add: word_unat_eq_iff unat_of_char b62_char_code)

lemma b62_text_less_iff:
  "length xs = length ys \<Longrightarrow> (\<forall>d \<in> set xs. d < 62) \<Longrightarrow> (\<forall>d \<in> set ys. d < 62) \<Longrightarrow>
     str_bytes (map b62_char xs) < str_bytes (map b62_char ys) \<longleftrightarrow> xs < ys"
  by (induction xs ys rule: list_induct2) (auto simp: str_bytes_def b62_byte_less b62_byte_eq)

lemma b62_text_ascii: "(\<forall>d \<in> set ds. d < 62) \<Longrightarrow> utf8_valid (str_bytes (map b62_char ds))"
  by (rule utf8_valid_ascii)
     (auto simp: str_bytes_def word_le_nat_alt unat_of_char b62_char_code)

section \<open>The encoders under the crate's contract\<close>

definition padded_digits :: "nat \<Rightarrow> nat \<Rightarrow> nat list" where
  "padded_digits width n = replicate (width - length (b62_digits n)) 0 @ b62_digits n"

lemma padded_digits_less: "\<forall>d \<in> set (padded_digits width n). d < 62"
  by (auto simp: padded_digits_def dest: b62_digits_less)

lemma b62_val_padded [simp]: "b62_val (padded_digits width n) = n"
  by (simp add: padded_digits_def b62_val_append)

lemma padded_digits_not_Nil [simp]: "padded_digits width n \<noteq> []"
  by (simp add: padded_digits_def)

lemma b62_char_0: "b62_char 0 = CHR ''0''"
  by code_simp

lemma unat_u64_u128 [simp]: "unat (ucast (n :: u64) :: u128) = unat n"
  by transfer simp

lemma encode_pad_text:
  "base62_contract B \<Longrightarrow> encode_pad B n width = map b62_char (padded_digits width (unat n))"
  by (simp add: base62_contract_def encode_pad_def pad_left_def padded_digits_def b62_text_def
      b62_char_0)

lemma length_padded_u64: "length (padded_digits WIDTH_U64 (unat (n :: u64))) = WIDTH_U64"
proof -
  have "unat n < 2 ^ LENGTH(64)" by (rule unsigned_less)
  then have "unat n < 62 ^ 11" by simp
  then have "length (b62_digits (unat n)) \<le> 11" by (intro length_b62_digits) simp_all
  then show ?thesis by (simp add: padded_digits_def WIDTH_U64_def)
qed


section \<open>A concrete crate\<close>

text \<open>
  The documented behaviour is implementable: digits out, digits in. It instantiates the parameter
  in the witnesses.
\<close>

fun b62_value_of :: "nat \<Rightarrow> nat option" where
  "b62_value_of c =
     (if 48 \<le> c \<and> c < 58 then Some (c - 48)
      else if 65 \<le> c \<and> c < 91 then Some (c - 55)
      else if 97 \<le> c \<and> c < 123 then Some (c - 61) else None)"

fun b62_parse :: "nat \<Rightarrow> nat \<Rightarrow> string \<Rightarrow> (decode_error, nat) result" where
  "b62_parse i acc [] = Inr acc"
| "b62_parse i acc (c # cs) =
     (case b62_value_of (of_char c) of
        None \<Rightarrow> Inl (InvalidBase62Byte (of_char c) i)
      | Some d \<Rightarrow> b62_parse (Suc i) (acc * 62 + d) cs)"

definition ref_base62 :: base62_crate where
  "ref_base62 = \<lparr>
     b62_encode = (\<lambda>n. b62_text (unat n)),
     b62_encode_bytes = (\<lambda>n k.
       let s = b62_text (unat n) in
       if length s \<le> k then Inr (str_bytes s) else Inl BufferTooSmall),
     b62_decode = (\<lambda>s.
       if s = [] then Inl EmptyInput
       else and_then (b62_parse 0 0 s)
         (\<lambda>v. if v < 2 ^ 128 then Inr (word_of_nat v) else Inl ArithmeticOverflow))\<rparr>"

lemma b62_value_of_char: "d < 62 \<Longrightarrow> b62_value_of (of_char (b62_char d)) = Some d"
  by (simp add: b62_char_code)

declare b62_value_of.simps [simp del]

lemma b62_parse_digits:
  "(\<forall>d \<in> set ds. d < 62) \<Longrightarrow>
     b62_parse i acc (map b62_char ds) = Inr (acc * 62 ^ length ds + b62_val ds)"
  by (induction ds arbitrary: i acc) (simp_all add: b62_value_of_char algebra_simps)

lemma ref_base62_contract: "base62_contract ref_base62"
  by (simp add: base62_contract_def ref_base62_def b62_parse_digits Let_def)


section \<open>Order-preserving key encodings\<close>

text \<open>
  The interface a caller that scans keys in time order relies on: comparing the encoded keys as
  bytes is comparing the numbers. \<open>valid\<close> carries what the encoder itself relies on.
\<close>

locale ordered_encoding =
  fixes valid :: "'b \<Rightarrow> bool"
    and enc :: "'b \<Rightarrow> 'n::linorder \<Rightarrow> bytes"
  assumes enc_less_iff: "valid b \<Longrightarrow> enc b x < enc b y \<longleftrightarrow> x < y"
begin

lemma enc_inject: "valid b \<Longrightarrow> enc b x = enc b y \<longleftrightarrow> x = y"
  using enc_less_iff [of b x y] enc_less_iff [of b y x] by (cases x y rule: linorder_cases) auto

lemma enc_le_iff: "valid b \<Longrightarrow> enc b x \<le> enc b y \<longleftrightarrow> x \<le> y"
  by (auto simp: le_less enc_less_iff enc_inject)

lemma sorted_enc: "valid b \<Longrightarrow> sorted (map (enc b) xs) \<longleftrightarrow> sorted xs"
  by (simp add: sorted_map enc_le_iff)

lemma range_enc: "valid b \<Longrightarrow>
    filter (\<lambda>k. enc b lo \<le> k \<and> k < enc b hi) (map (enc b) xs)
      = map (enc b) (filter (\<lambda>x. lo \<le> x \<and> x < hi) xs)"
  by (simp add: filter_map comp_def enc_le_iff enc_less_iff)

end

lemma encode_time_less:
  assumes "base62_contract B"
  shows "str_bytes (encode_time B a) < str_bytes (encode_time B b) \<longleftrightarrow> a < b"
proof -
  let ?x = "padded_digits WIDTH_U64 (unat a)" and ?y = "padded_digits WIDTH_U64 (unat b)"
  have len: "length ?x = length ?y" by (simp add: length_padded_u64)
  have "str_bytes (encode_time B a) < str_bytes (encode_time B b) \<longleftrightarrow> ?x < ?y"
    using assms len padded_digits_less by (simp add: encode_time_def encode_pad_text b62_text_less_iff)
  also have "\<dots> \<longleftrightarrow> unat a < unat b"
    using b62_val_less_iff [OF len padded_digits_less padded_digits_less] by simp
  finally show ?thesis by (simp add: word_less_nat_alt)
qed

interpretation time_key: ordered_encoding base62_contract "\<lambda>B ts. str_bytes (encode_time B ts)"
  by unfold_locales (rule encode_time_less)

lemma decode_text:
  assumes "base62_contract B" and "ds \<noteq> []" and "\<forall>d \<in> set ds. d < 62" and "b62_val ds < 2 ^ 128"
  shows "decode B (map b62_char ds)
    = (if b62_val ds < 2 ^ 64 then Inr (word_of_nat (b62_val ds)) else Inl ArithmeticOverflow)"
proof -
  have "b62_decode B (map b62_char ds) = Inr (word_of_nat (b62_val ds))"
    using assms by (simp add: base62_contract_def)
  moreover have "unat (- 1 :: u64) = 2 ^ 64 - 1" 
    by (simp add: unsigned_minus_1_eq_mask mask_eq_exp_minus_1)
  then have "ucast (- 1 :: u64) < (word_of_nat (b62_val ds) :: u128) \<longleftrightarrow> \<not> b62_val ds < 2 ^ 64"
    using assms(4) by (auto simp: word_less_nat_alt unat_of_nat take_bit_nat_eq_self)
  moreover have "(ucast (word_of_nat (b62_val ds) :: u128) :: u64) = word_of_nat (b62_val ds)"
    by transfer (simp add: take_bit_take_bit)
  ultimately show ?thesis by (simp add: decode_def)
qed

lemma length_b62_text_u64: "length (b62_text (unat (n :: u64))) \<le> 11"
  using length_padded_u64 [of n] by (simp add: b62_text_def padded_digits_def WIDTH_U64_def)

section \<open>Properties\<close>

text \<open>
  whatever the timestamp, \<open>encode_time\<close> returns a string of exactly 11 characters, so the
  constant \<open>WIDTH_U64\<close> is enough for every \<open>u64\<close>.
\<close>

theorem encode_time_width:
  "base62_contract B \<Longrightarrow> length (encode_time B ts) = WIDTH_U64"
  by (simp add: encode_time_def encode_pad_text length_padded_u64)

theorem encode_time_width_witness: "length (encode_time ref_base62 (- 1)) = WIDTH_U64"
  by (rule encode_time_width [OF ref_base62_contract])

text \<open>
  C30: the encoded timestamps sort as bytes exactly as the timestamps sort as numbers, so a range of
  keys between two encoded timestamps holds exactly the keys of the timestamps between them.
\<close>

theorem encode_time_order:
  "base62_contract B \<Longrightarrow>
     (str_bytes (encode_time B a) < str_bytes (encode_time B b) \<longleftrightarrow> a < b)
   \<and> filter (\<lambda>k. str_bytes (encode_time B lo) \<le> k \<and> k < str_bytes (encode_time B hi))
        (map (\<lambda>t. str_bytes (encode_time B t)) ts)
      = map (\<lambda>t. str_bytes (encode_time B t)) (filter (\<lambda>t. lo \<le> t \<and> t < hi) ts)"
  by (simp add: time_key.enc_less_iff time_key.range_enc)

theorem encode_time_order_witness:
  "str_bytes (encode_time ref_base62 1700) < str_bytes (encode_time ref_base62 17000)"
  using encode_time_order [OF ref_base62_contract, of 1700 17000] by simp

text \<open>
  C31: decoding is the inverse of encoding at every width (padding included), and a well-formed
  Base62 text whose value does not fit into a \<open>u64\<close> is the error \<open>ArithmeticOverflow\<close>.
\<close>

theorem decode_encode_pad:
  assumes "base62_contract B"
  shows "decode B (encode_pad B n width) = Inr n
    \<and> (\<forall>ds. ds \<noteq> [] \<and> (\<forall>d \<in> set ds. d < 62) \<and> 2 ^ 64 \<le> b62_val ds \<and> b62_val ds < 2 ^ 128
        \<longrightarrow> decode B (map b62_char ds) = Inl ArithmeticOverflow)"
proof -
  have "unat n < 2 ^ LENGTH(64)" by (rule unsigned_less)
  then have "unat n < 2 ^ 64" "unat n < 2 ^ 128" by simp_all
  then have "decode B (encode_pad B n width) = Inr n"
    using assms padded_digits_less by (simp add: encode_pad_text decode_text)
  then show ?thesis using assms by (simp add: decode_text)
qed

theorem decode_encode_pad_witness:
  "decode ref_base62 (encode_pad ref_base62 1700 11) = Inr 1700
   \<and> decode ref_base62 (map b62_char (2 # replicate 11 0)) = Inl ArithmeticOverflow"
proof -
  note d = decode_encode_pad [OF ref_base62_contract, of 1700 11]
  show ?thesis
    by (intro conjI d [THEN conjunct1] d [THEN conjunct2, rule_format]) simp_all
qed

text \<open>
  the buffer encoder \<open>encode_fast_pad\<close> agrees with the allocating \<open>encode_pad\<close> whenever the
  buffer has the requested width and the number fits into it, and panics in every other case.
\<close>

theorem encode_fast_pad_eq:
  assumes "base62_contract B"
  shows "encode_fast_pad B n width out =
    (if length out = width \<and> length (b62_encode B (ucast n)) \<le> width
     then Some (encode_pad B n width) else None)"
proof -
  let ?t = "b62_text (unat n)"
  have len: "length ?t \<le> 22" "0 < length ?t"
    using length_b62_text_u64 [of n] by (simp_all add: b62_text_def)
  have e: "b62_encode B (ucast n) = ?t" "b62_encode_bytes B (ucast n) 22 = Inr (str_bytes ?t)"
    using assms len by (simp_all add: base62_contract_def)
  have zero: "replicate k (0x30 :: byte) = str_bytes (replicate k CHR ''0'')" for k
    by (simp add: str_bytes_def)
  have utf: "from_utf8 (str_bytes (pad_left width ?t)) = Some (pad_left width ?t)"
    using b62_text_ascii [OF padded_digits_less [of width "unat n"]]
    by (simp add: from_utf8_def padded_digits_def pad_left_def b62_text_def b62_char_0)
  have app: "replicate k (0x30 :: byte) @ str_bytes ?t = str_bytes (replicate k CHR ''0'' @ ?t)" for k
    by (simp add: str_bytes_def)
  show ?thesis
    using len utf by (auto simp: encode_fast_pad_def encode_pad_def e Let_def app pad_left_def)
qed

theorem encode_fast_pad_eq_witness:
  "encode_fast_pad ref_base62 1700 11 (replicate 11 0) = Some (encode_pad ref_base62 1700 11)
   \<and> encode_fast_pad ref_base62 123 11 (replicate 10 0) = None"
proof -
  have "length (b62_encode ref_base62 (ucast (1700 :: u64))) \<le> 11"
    using length_b62_text_u64 [of 1700] by (simp add: ref_base62_def)
  then show ?thesis
    by (simp add: encode_fast_pad_eq [OF ref_base62_contract])
qed

end
