(* ===== verification/Store_Error.thy ===== *)
theory Store_Error
  imports Prelude
begin

text \<open>
  \<open>src/error.rs\<close>: the error type of every operation, its \<open>Display\<close> text (the \<open>thiserror\<close>
  attributes), its hand-written \<open>Clone\<close>, and the two extension methods that turn \<open>NotFound\<close>
  into an empty result.

  \<open>rocksdb::Error\<close> is a wrapper around the message string that the C library returned, and an
  \<open>io::Error\<close> is only ever printed, so both are their text here.
\<close>

type_synonym rocks_error = string

datatype store_error =
    RocksDb rocks_error
  | Serialization string
  | Deserialization string
  | KeyEncoding string
  | KeyDecoding string
  | InvalidConfiguration string
  | TransactionRequired
  | Io string
  | NotFound "bytes option"
  | MergeError string
  | UnknownCf string
  | Other string

type_synonym 'a store_result = "(store_error, 'a) result"

subsection \<open>Display\<close>

text \<open>\<open>{:?}\<close> of an \<open>Option<Vec<u8>>\<close>.\<close>

fun debug_list :: "string list \<Rightarrow> string" where
  "debug_list [] = ''''"
| "debug_list [x] = x"
| "debug_list (x # y # xs) = x @ '', '' @ debug_list (y # xs)"

definition debug_bytes :: "bytes \<Rightarrow> string" where
  "debug_bytes bs = ''['' @ debug_list (map (\<lambda>b. show_nat (unat b)) bs) @ '']''"

definition debug_opt_bytes :: "bytes option \<Rightarrow> string" where
  "debug_opt_bytes x = (case x of None \<Rightarrow> ''None'' | Some bs \<Rightarrow> ''Some('' @ debug_bytes bs @ '')'')"

fun display :: "store_error \<Rightarrow> string" where
  "display (RocksDb e) = ''RocksDB operation failed: '' @ e"
| "display (Serialization s) = ''Serialization failed: '' @ s"
| "display (Deserialization s) = ''Deserialization failed: '' @ s"
| "display (KeyEncoding s) = ''Key encoding failed: '' @ s"
| "display (KeyDecoding s) = ''Key decoding failed: '' @ s"
| "display (InvalidConfiguration s) = ''Invalid configuration: '' @ s"
| "display TransactionRequired = ''Operation requires a transaction context''"
| "display (Io e) = ''Underlying IO error: '' @ e"
| "display (NotFound k) = ''Resource not found for key: '' @ debug_opt_bytes k"
| "display (MergeError s) = ''Merge operation failed: '' @ s"
| "display (UnknownCf s) = ''Column Family '' @ [CHR 0x27] @ s @ [CHR 0x27] @ '' not found or not opened''"
| "display (Other s) = ''Operation failed: '' @ s"

subsection \<open>Clone\<close>

text \<open>An \<open>io::Error\<close> cannot be cloned: the clone is an \<open>Other\<close> that carries its text.\<close>

fun clone :: "store_error \<Rightarrow> store_error" where
  "clone (Io e) = Other (''(Cloned) IO error: '' @ e)"
| "clone (RocksDb e) = RocksDb e"
| "clone (Serialization s) = Serialization s"
| "clone (Deserialization s) = Deserialization s"
| "clone (KeyEncoding s) = KeyEncoding s"
| "clone (KeyDecoding s) = KeyDecoding s"
| "clone (InvalidConfiguration s) = InvalidConfiguration s"
| "clone TransactionRequired = TransactionRequired"
| "clone (NotFound k) = NotFound k"
| "clone (MergeError s) = MergeError s"
| "clone (UnknownCf s) = UnknownCf s"
| "clone (Other s) = Other s"

fun is_io :: "store_error \<Rightarrow> bool" where
  "is_io (Io _) = True"
| "is_io _ = False"

lemma clone_not_io [simp]: "\<not> is_io (clone e)"
  by (cases e) simp_all

lemma clone_id: "\<not> is_io e \<Longrightarrow> clone e = e"
  by (cases e) simp_all

lemma clone_clone [simp]: "clone (clone e) = clone e"
  by (simp add: clone_id)

lemma clone_RocksDb_iff [simp]: "clone e = RocksDb m \<longleftrightarrow> e = RocksDb m"
  by (cases e) simp_all

subsection \<open>map\_to\_option and map\_to\_vec\<close>

definition map_to_option :: "'a store_result \<Rightarrow> ('a \<Rightarrow> 'b option) \<Rightarrow> 'b option store_result" where
  "map_to_option self ok_fn =
     (case self of
        Inr result_value \<Rightarrow> Inr (ok_fn result_value)
      | Inl (NotFound _) \<Rightarrow> Inr None
      | Inl other_err \<Rightarrow> Inl other_err)"

definition map_to_vec :: "'a store_result \<Rightarrow> ('a \<Rightarrow> 'b list) \<Rightarrow> 'b list store_result" where
  "map_to_vec self ok_fn =
     (case self of
        Inr result_value \<Rightarrow> Inr (ok_fn result_value)
      | Inl (NotFound _) \<Rightarrow> Inr []
      | Inl other_err \<Rightarrow> Inl other_err)"

lemma map_to_option_simps [simp]:
  "map_to_option (Inr a) f = Inr (f a)"
  "map_to_option (Inl (NotFound k)) f = Inr None"
  "(\<forall>k. e \<noteq> NotFound k) \<Longrightarrow> map_to_option (Inl e) f = Inl e"
  by (auto simp: map_to_option_def split: store_error.splits)

lemma map_to_vec_simps [simp]:
  "map_to_vec (Inr a) f = Inr (f a)"
  "map_to_vec (Inl (NotFound k)) f = Inr []"
  "(\<forall>k. e \<noteq> NotFound k) \<Longrightarrow> map_to_vec (Inl e) f = Inl e"
  by (auto simp: map_to_vec_def split: store_error.splits)

lemma map_to_option_as_vec:
  "map_to_vec r (\<lambda>a. case f a of None \<Rightarrow> [] | Some b \<Rightarrow> [b])
     = map_ok (\<lambda>x. case x of None \<Rightarrow> [] | Some b \<Rightarrow> [b]) (map_to_option r f)"
  by (auto simp: map_to_option_def map_to_vec_def split: sum.splits store_error.splits)

end
