(* ===== verification/Codec.thy ===== *)
theory Codec
  imports Store_Error
begin

text \<open>
  \<open>src/bytes.rs\<close>, \<open>src/serialization.rs\<close> and the value types of \<open>src/types.rs\<close>: how keys and
  values become bytes, and the \<open>ValueWithExpiry\<close> container (a big-endian \<open>u64\<close> expiry time in
  front of the serialized value).

  MessagePack (\<open>rmp-serde\<close>) and \<open>bytevec\<close> are not part of the repository. A value type comes with
  a \<open>codec\<close>, the pair of its \<open>Serialize\<close> and \<open>Deserialize\<close> implementations as run by \<open>rmp-serde\<close>
  (an error is its text); a key type that is read back comes with its \<open>ByteDecodable\<close> decoder.
\<close>

section \<open>Keys\<close>

text \<open>The implementors of \<open>AsBytes\<close>.\<close>

datatype key = KString string | KStr string | KVec bytes | KSlice bytes | KRef key

fun as_bytes :: "key \<Rightarrow> bytes" where
  "as_bytes (KString s) = str_bytes s"
| "as_bytes (KStr s) = str_bytes s"
| "as_bytes (KVec bs) = bs"
| "as_bytes (KSlice bs) = bs"
| "as_bytes (KRef k) = as_bytes k"

definition serialize_key :: "key \<Rightarrow> bytes store_result" where
  "serialize_key k = Inr (as_bytes k)"

definition deserialize_key :: "(bytes \<Rightarrow> (string, 'k) result) \<Rightarrow> bytes \<Rightarrow> 'k store_result" where
  "deserialize_key decode bs = map_err KeyDecoding (decode bs)"

lemma serialize_key_simp [simp]: "serialize_key k = Inr (as_bytes k)"
  by (simp add: serialize_key_def)

section \<open>Values\<close>

record 'v codec =
  codec_ser :: "'v \<Rightarrow> (string, bytes) result"
  codec_de :: "bytes \<Rightarrow> (string, 'v) result"

definition serialize_value :: "'v codec \<Rightarrow> 'v \<Rightarrow> bytes store_result" where
  "serialize_value c v =
     (case codec_ser c v of Inr serialized_value \<Rightarrow> Inr serialized_value | Inl e \<Rightarrow> Inl (Serialization e))"

definition deserialize_value :: "'v codec \<Rightarrow> bytes \<Rightarrow> 'v store_result" where
  "deserialize_value c bs =
     (case codec_de c bs of Inr content \<Rightarrow> Inr content | Inl e \<Rightarrow> Inl (Deserialization e))"

text \<open>What a codec promises: what it serializes it reads back.\<close>

definition codec_ok :: "'v codec \<Rightarrow> bool" where
  "codec_ok c \<longleftrightarrow> (\<forall>v bs. codec_ser c v = Inr bs \<longrightarrow> codec_de c bs = Inr v)"

lemma codec_okD: "codec_ok c \<Longrightarrow> serialize_value c v = Inr bs \<Longrightarrow> deserialize_value c bs = Inr v"
  by (auto simp: codec_ok_def serialize_value_def deserialize_value_def split: sum.splits)

lemma serialize_value_eq_Inr: "serialize_value c v = Inr bs \<longleftrightarrow> codec_ser c v = Inr bs"
  by (auto simp: serialize_value_def split: sum.splits)

text \<open>The codec of raw bytes, used where a concrete codec is needed.\<close>

definition raw_codec :: "bytes codec" where
  "raw_codec = \<lparr>codec_ser = Inr, codec_de = Inr\<rparr>"

lemma codec_ok_raw [simp]: "codec_ok raw_codec"
  by (simp add: codec_ok_def raw_codec_def)

lemma raw_codec_simps [simp]:
  "serialize_value raw_codec v = Inr v" "deserialize_value raw_codec v = Inr v"
  by (simp_all add: serialize_value_def deserialize_value_def raw_codec_def)

definition deserialize_kv ::
    "(bytes \<Rightarrow> (string, 'k) result) \<Rightarrow> 'v codec \<Rightarrow> bytes \<Rightarrow> bytes \<Rightarrow> ('k \<times> 'v) store_result" where
  "deserialize_kv decode c key_bytes val_bytes =
     and_then (deserialize_key decode key_bytes) (\<lambda>k.
     and_then (deserialize_value c val_bytes) (\<lambda>v. Inr (k, v)))"

section \<open>ValueWithExpiry\<close>

text \<open>The type parameter of the struct is a phantom: it only fixes which codec \<open>get\<close> uses.\<close>

record value_with_expiry =
  expire_time :: u64
  raw_value :: bytes

definition TIMESTAMP_SIZE :: nat where
  "TIMESTAMP_SIZE = 8"

definition vwe_new :: "u64 \<Rightarrow> bytes \<Rightarrow> value_with_expiry" where
  "vwe_new t raw = \<lparr>expire_time = t, raw_value = raw\<rparr>"

definition expire_time_from_slice :: "bytes \<Rightarrow> u64" where
  "expire_time_from_slice raw =
     (if length raw < TIMESTAMP_SIZE then 0 else from_be_bytes (take 8 raw))"

definition raw_data_ref :: "bytes \<Rightarrow> (string, bytes) result" where
  "raw_data_ref bs = (if length bs < 8 then Inl ''Invalid byte array length'' else Inr (drop 8 bs))"

text \<open>The unchecked slice \<open>&bytes[8..]\<close> panics when the slice is shorter than 8.\<close>

definition raw_data_ref_unchecked :: "bytes \<Rightarrow> bytes option" where
  "raw_data_ref_unchecked bs = (if length bs < 8 then None else Some (drop 8 bs))"

definition vwe_from_value :: "'v codec \<Rightarrow> u64 \<Rightarrow> 'v \<Rightarrow> value_with_expiry store_result" where
  "vwe_from_value c t v =
     and_then (serialize_value c v) (\<lambda>raw. Inr \<lparr>expire_time = t, raw_value = raw\<rparr>)"

definition serialize_for_storage :: "value_with_expiry \<Rightarrow> bytes" where
  "serialize_for_storage v = to_be_bytes (expire_time v) @ raw_value v"

definition too_short_msg :: "nat \<Rightarrow> string" where
  "too_short_msg n = ''Byte slice too short for ValueWithExpiry: got '' @ show_nat n
     @ '' bytes, need at least '' @ show_nat TIMESTAMP_SIZE"

definition vwe_from_slice :: "bytes \<Rightarrow> value_with_expiry store_result" where
  "vwe_from_slice bs =
     (if length bs < TIMESTAMP_SIZE then Inl (Deserialization (too_short_msg (length bs)))
      else let t = expire_time_from_slice bs in
        and_then (map_err (\<lambda>e. Deserialization (''Failed to get raw value slice: '' @ e))
                    (raw_data_ref bs))
          (\<lambda>raw. Inr (vwe_new t raw)))"

definition vwe_get :: "'v codec \<Rightarrow> value_with_expiry \<Rightarrow> 'v store_result" where
  "vwe_get c v = deserialize_value c (raw_value v)"

definition serialize_unchecked :: "value_with_expiry \<Rightarrow> bytes" where
  "serialize_unchecked v = (let header_bytes = to_be_bytes (expire_time v) in header_bytes @ raw_value v)"

text \<open>\<open>From<Vec<u8>>\<close>: \<open>drain(0..=7)\<close> panics when the vector is shorter than 8.\<close>

definition vwe_from_vec :: "bytes \<Rightarrow> value_with_expiry option" where
  "vwe_from_vec value =
     (if length value < 8 then None
      else let header = take 8 value; rest = drop 8 value
           in Some (vwe_new (expire_time_from_slice header) rest))"

definition vwe_from_bytes :: "bytes \<Rightarrow> value_with_expiry option" where
  "vwe_from_bytes value = (let raw = value in vwe_from_vec raw)"

definition deserialize_kv_expiry ::
    "(bytes \<Rightarrow> (string, 'k) result) \<Rightarrow> bytes \<Rightarrow> bytes \<Rightarrow> ('k \<times> value_with_expiry) store_result" where
  "deserialize_kv_expiry decode key_bytes val_bytes =
     and_then (deserialize_key decode key_bytes) (\<lambda>k.
     and_then (vwe_from_slice val_bytes) (\<lambda>v. Inr (k, v)))"

subsection \<open>Lemmas\<close>

lemma length_serialize_for_storage [simp]:
  "length (serialize_for_storage v) = 8 + length (raw_value v)"
  by (simp add: serialize_for_storage_def)

lemma vwe_from_slice_short:
  "length bs < 8 \<Longrightarrow> vwe_from_slice bs = Inl (Deserialization (too_short_msg (length bs)))"
  by (simp add: vwe_from_slice_def TIMESTAMP_SIZE_def)

lemma vwe_from_slice_long:
  "8 \<le> length bs \<Longrightarrow>
     vwe_from_slice bs = Inr \<lparr>expire_time = from_be_bytes (take 8 bs), raw_value = drop 8 bs\<rparr>"
  by (simp add: vwe_from_slice_def TIMESTAMP_SIZE_def expire_time_from_slice_def raw_data_ref_def
      vwe_new_def)

lemma vwe_from_slice_storage [simp]: "vwe_from_slice (serialize_for_storage v) = Inr v"
  by (simp add: vwe_from_slice_long) (simp add: serialize_for_storage_def)

lemma storage_from_slice: "vwe_from_slice bs = Inr v \<Longrightarrow> serialize_for_storage v = bs"
  by (cases "length bs < 8")
     (auto simp: vwe_from_slice_short vwe_from_slice_long serialize_for_storage_def
       to_from_be_bytes)

lemma vwe_from_slice_Inr_iff: "vwe_from_slice bs = Inr v \<longleftrightarrow> bs = serialize_for_storage v"
  using storage_from_slice by auto

lemma serialize_for_storage_inj [simp]:
  "serialize_for_storage v = serialize_for_storage w \<longleftrightarrow> v = w"
  using vwe_from_slice_storage by (metis sum.inject(2))

lemma expire_time_of_storage [simp]: "expire_time_from_slice (serialize_for_storage v) = expire_time v"
  by (simp add: expire_time_from_slice_def TIMESTAMP_SIZE_def)
     (simp add: serialize_for_storage_def)

lemma vwe_from_vec_slice:
  "vwe_from_vec bs = (case vwe_from_slice bs of Inl _ \<Rightarrow> None | Inr v \<Rightarrow> Some v)"
  by (cases "length bs < 8")
     (simp_all add: vwe_from_slice_short vwe_from_slice_long vwe_from_vec_def vwe_new_def
       expire_time_from_slice_def TIMESTAMP_SIZE_def)

lemma vwe_from_value_eq_Inr:
  "vwe_from_value c t v = Inr w \<longleftrightarrow>
     (\<exists>raw. serialize_value c v = Inr raw \<and> w = \<lparr>expire_time = t, raw_value = raw\<rparr>)"
  by (auto simp: vwe_from_value_def and_then_eq_Inr)

lemma vwe_get_from_value: "codec_ok c \<Longrightarrow> vwe_from_value c t v = Inr w \<Longrightarrow> vwe_get c w = Inr v"
  by (auto simp: vwe_from_value_eq_Inr vwe_get_def dest: codec_okD)

section \<open>Iteration control and merge operands\<close>

datatype iteration_control_decision = Stop | Skip | Keep

datatype merge_value_operator = Add | Remove | Union | Intersect

text \<open>\<open>MergeValue<PatchVal>(op, patch)\<close>.\<close>

datatype 'p merge_value = MergeValue merge_value_operator 'p

fun mv_op :: "'p merge_value \<Rightarrow> merge_value_operator" where
  "mv_op (MergeValue oper _) = oper"

fun mv_patch :: "'p merge_value \<Rightarrow> 'p" where
  "mv_patch (MergeValue _ p) = p"

end
