(* ===== verification/Rocks_API.thy ===== *)
theory Rocks_API
  imports Codec
begin

text \<open>
  The interface of the \<open>rocksdb\<close> crate that the stores call. The crate is not part of the
  repository, so it is a parameter: \<open>rocks_api\<close> is the record of the calls, over a state type
  \<open>'s\<close> and a type \<open>'h\<close> of column family handles that stay abstract. Each pair of Rust methods
  \<open>op\<close> and \<open>op_cf\<close> is one field with a \<open>target\<close>: \<open>DefaultCf\<close> for \<open>op\<close>, \<open>Cf h\<close> for
  \<open>op_cf(&h, ..)\<close>. The same record is the interface of a \<open>DB\<close>, a \<open>TransactionDB\<close>, an
  \<open>OptimisticTransactionDB\<close> and of a \<open>Transaction\<close> on them.

  \<open>rocks_contract\<close> states what the documentation of RocksDB promises of the calls the properties
  rely on; \<open>mem_api\<close> is a concrete in-memory instance that satisfies it and is used in witnesses.
\<close>

section \<open>The interface\<close>

definition DEFAULT_COLUMN_FAMILY_NAME :: string where
  "DEFAULT_COLUMN_FAMILY_NAME = ''default''"

datatype 'h target = DefaultCf | Cf 'h

datatype direction = Forward | Reverse

datatype iterator_mode = IterStart | IterEnd | IterFrom bytes direction

type_synonym kv = "bytes \<times> bytes"
type_synonym kv_item = "(rocks_error, kv) result"

text \<open>A \<open>WriteBatch\<close> is the list of the operations recorded in it, oldest first.\<close>

datatype 'h batch_op =
    BPut "'h target" bytes bytes
  | BMerge "'h target" bytes bytes
  | BDelete "'h target" bytes
  | BDeleteRange "'h target" bytes bytes

type_synonym 's effect = "(rocks_error, unit) result \<times> 's"

record ('s, 'h) rocks_api =
  api_cf_handle :: "'s \<Rightarrow> string \<Rightarrow> 'h option"
  api_get :: "'s \<Rightarrow> 'h target \<Rightarrow> bytes \<Rightarrow> (rocks_error, bytes option) result"
  api_multi_get :: "'s \<Rightarrow> 'h target \<Rightarrow> bytes list \<Rightarrow> (rocks_error, bytes option) result list"
  api_put :: "'s \<Rightarrow> 'h target \<Rightarrow> bytes \<Rightarrow> bytes \<Rightarrow> 's effect"
  api_merge :: "'s \<Rightarrow> 'h target \<Rightarrow> bytes \<Rightarrow> bytes \<Rightarrow> 's effect"
  api_delete :: "'s \<Rightarrow> 'h target \<Rightarrow> bytes \<Rightarrow> 's effect"
  api_write :: "'s \<Rightarrow> 'h batch_op list \<Rightarrow> 's effect"
  api_iterator :: "'s \<Rightarrow> 'h target \<Rightarrow> iterator_mode \<Rightarrow> kv_item list"
  api_prefix_iterator :: "'s \<Rightarrow> 'h target \<Rightarrow> bytes \<Rightarrow> kv_item list"

section \<open>The contract\<close>

text \<open>
  The meaning of a state: the value of each key of each column family, as a read sees it.
  \<open>m_merge\<close> is the effect of one merge operand under the column family's merge operator.
\<close>

type_synonym kv_view = "string \<Rightarrow> bytes \<Rightarrow> bytes option"

record ('s, 'h) rocks_meaning =
  m_name :: "'h \<Rightarrow> string"
  m_view :: "'s \<Rightarrow> kv_view"
  m_merge :: "string \<Rightarrow> bytes \<Rightarrow> bytes option \<Rightarrow> bytes \<Rightarrow> bytes option"

definition upd :: "kv_view \<Rightarrow> string \<Rightarrow> bytes \<Rightarrow> bytes option \<Rightarrow> kv_view" where
  "upd w cf k x = w(cf := (w cf)(k := x))"

definition clear_range :: "kv_view \<Rightarrow> string \<Rightarrow> bytes \<Rightarrow> bytes \<Rightarrow> kv_view" where
  "clear_range w cf a b = w(cf := (\<lambda>k. if a \<le> k \<and> k < b then None else w cf k))"

lemma upd_same [simp]: "upd w cf k x cf k = x"
  by (simp add: upd_def)

lemma upd_other: "cf' \<noteq> cf \<or> k' \<noteq> k \<Longrightarrow> upd w cf k x cf' k' = w cf' k'"
  by (auto simp: upd_def)

fun target_name :: "('s, 'h) rocks_meaning \<Rightarrow> 'h target \<Rightarrow> string" where
  "target_name M DefaultCf = DEFAULT_COLUMN_FAMILY_NAME"
| "target_name M (Cf h) = m_name M h"

fun apply_op :: "('s, 'h) rocks_meaning \<Rightarrow> kv_view \<Rightarrow> 'h batch_op \<Rightarrow> kv_view" where
  "apply_op M w (BPut t k v) = upd w (target_name M t) k (Some v)"
| "apply_op M w (BMerge t k x) =
     upd w (target_name M t) k (m_merge M (target_name M t) k (w (target_name M t) k) x)"
| "apply_op M w (BDelete t k) = upd w (target_name M t) k None"
| "apply_op M w (BDeleteRange t a b) = clear_range w (target_name M t) a b"

definition apply_ops :: "('s, 'h) rocks_meaning \<Rightarrow> kv_view \<Rightarrow> 'h batch_op list \<Rightarrow> kv_view" where
  "apply_ops M w bops = foldl (apply_op M) w bops"

text \<open>
  A write that reports success has its effect on the view and nothing else; a write that reports an
  error has none (writes are atomic). No write opens or drops a column family.
\<close>

definition effect_ok ::
    "('s, 'h) rocks_api \<Rightarrow> ('s, 'h) rocks_meaning \<Rightarrow> 's \<Rightarrow> 's effect \<Rightarrow> kv_view \<Rightarrow> bool" where
  "effect_ok A M s r w \<longleftrightarrow>
     m_view M (snd r) = (case fst r of Inr _ \<Rightarrow> w | Inl _ \<Rightarrow> m_view M s)
   \<and> api_cf_handle A (snd r) = api_cf_handle A s"

definition read_contract :: "('s, 'h) rocks_api \<Rightarrow> ('s, 'h) rocks_meaning \<Rightarrow> bool" where
  "read_contract A M \<longleftrightarrow>
     (\<forall>s cf h. api_cf_handle A s cf = Some h \<longrightarrow> m_name M h = cf)
   \<and> (\<forall>s t k x. api_get A s t k = Inr x \<longrightarrow> x = m_view M s (target_name M t) k)
   \<and> (\<forall>s t ks. list_all2 (\<lambda>k r. \<forall>x. r = Inr x \<longrightarrow> x = m_view M s (target_name M t) k)
          ks (api_multi_get A s t ks))"

definition write_contract :: "('s, 'h) rocks_api \<Rightarrow> ('s, 'h) rocks_meaning \<Rightarrow> bool" where
  "write_contract A M \<longleftrightarrow>
     (\<forall>s t k v. effect_ok A M s (api_put A s t k v) (apply_op M (m_view M s) (BPut t k v)))
   \<and> (\<forall>s t k x. effect_ok A M s (api_merge A s t k x) (apply_op M (m_view M s) (BMerge t k x)))
   \<and> (\<forall>s t k. effect_ok A M s (api_delete A s t k) (apply_op M (m_view M s) (BDelete t k)))
   \<and> (\<forall>s bops. effect_ok A M s (api_write A s bops) (apply_ops M (m_view M s) bops))"

definition rocks_contract :: "('s, 'h) rocks_api \<Rightarrow> ('s, 'h) rocks_meaning \<Rightarrow> bool" where
  "rocks_contract A M \<longleftrightarrow> read_contract A M \<and> write_contract A M"

text \<open>
  Iteration (default bytewise comparator): the rows of a column family in key order, from the
  position that the mode names. A prefix iterator starts at the first key that is not below the
  prefix and shows at least the keys that have it.
\<close>

definition is_rows :: "(bytes \<Rightarrow> bytes option) \<Rightarrow> kv list \<Rightarrow> bool" where
  "is_rows w rs \<longleftrightarrow> sorted_wrt (<) (map fst rs) \<and> map_of rs = w"

fun rows_from :: "iterator_mode \<Rightarrow> kv list \<Rightarrow> kv list" where
  "rows_from IterStart rs = rs"
| "rows_from IterEnd rs = rev rs"
| "rows_from (IterFrom k Forward) rs = filter (\<lambda>r. k \<le> fst r) rs"
| "rows_from (IterFrom k Reverse) rs = rev (filter (\<lambda>r. fst r \<le> k) rs)"

fun has_prefix :: "bytes \<Rightarrow> bytes \<Rightarrow> bool" where
  "has_prefix [] ks = True"
| "has_prefix (p # ps) [] = False"
| "has_prefix (p # ps) (k # ks) = (p = k \<and> has_prefix ps ks)"

definition iter_contract :: "('s, 'h) rocks_api \<Rightarrow> ('s, 'h) rocks_meaning \<Rightarrow> bool" where
  "iter_contract A M \<longleftrightarrow>
     (\<forall>s t m rows. api_iterator A s t m = map Inr rows \<longrightarrow>
        (\<exists>rs. is_rows (m_view M s (target_name M t)) rs \<and> rows = rows_from m rs))
   \<and> (\<forall>s t p rows. api_prefix_iterator A s t p = map Inr rows \<longrightarrow>
        (\<exists>rs rest. is_rows (m_view M s (target_name M t)) rs
           \<and> rows_from (IterFrom p Forward) rs = rows @ rest
           \<and> (\<forall>r \<in> set rest. \<not> has_prefix p (fst r))))"

lemma contract_handle: "rocks_contract A M \<Longrightarrow> api_cf_handle A s cf = Some h \<Longrightarrow> m_name M h = cf"
  by (simp add: rocks_contract_def read_contract_def)

lemma contract_get:
  "rocks_contract A M \<Longrightarrow> api_get A s t k = Inr x \<Longrightarrow> x = m_view M s (target_name M t) k"
  by (simp add: rocks_contract_def read_contract_def)

lemma contract_multi_get:
  "rocks_contract A M \<Longrightarrow>
     list_all2 (\<lambda>k r. \<forall>x. r = Inr x \<longrightarrow> x = m_view M s (target_name M t) k) ks (api_multi_get A s t ks)"
  by (simp add: rocks_contract_def read_contract_def)

lemma contract_put:
  "rocks_contract A M \<Longrightarrow>
     effect_ok A M s (api_put A s t k v) (upd (m_view M s) (target_name M t) k (Some v))"
  by (simp add: rocks_contract_def write_contract_def)

lemma contract_merge:
  "rocks_contract A M \<Longrightarrow>
     effect_ok A M s (api_merge A s t k x)
       (upd (m_view M s) (target_name M t) k
         (m_merge M (target_name M t) k (m_view M s (target_name M t) k) x))"
  by (simp add: rocks_contract_def write_contract_def)

lemma contract_delete:
  "rocks_contract A M \<Longrightarrow>
     effect_ok A M s (api_delete A s t k) (upd (m_view M s) (target_name M t) k None)"
  by (simp add: rocks_contract_def write_contract_def)

lemma contract_write:
  "rocks_contract A M \<Longrightarrow> effect_ok A M s (api_write A s bops) (apply_ops M (m_view M s) bops)"
  by (simp add: rocks_contract_def write_contract_def)

lemmas contract_writes = contract_put contract_merge contract_delete contract_write

lemma effect_okD:
  "effect_ok A M s r w \<Longrightarrow> fst r = Inr u \<Longrightarrow> m_view M (snd r) = w"
  "effect_ok A M s r w \<Longrightarrow> fst r = Inl e \<Longrightarrow> m_view M (snd r) = m_view M s"
  "effect_ok A M s r w \<Longrightarrow> api_cf_handle A (snd r) = api_cf_handle A s"
  by (auto simp: effect_ok_def)

subsection \<open>Keys with a common prefix\<close>

lemma has_prefix_iff: "has_prefix p k \<longleftrightarrow> (\<exists>rest. k = p @ rest)"
  by (induction p k rule: has_prefix.induct) auto

lemma has_prefix_le: "has_prefix p k \<Longrightarrow> p \<le> k"
  by (induction p k rule: has_prefix.induct) auto

lemma has_prefix_between: "p \<le> k \<Longrightarrow> k \<le> k' \<Longrightarrow> has_prefix p k' \<Longrightarrow> has_prefix p k"
proof (induction p k' arbitrary: k rule: has_prefix.induct)
  case (3 p ps k' ks)
  then show ?case by (cases k) auto
qed auto

text \<open>In key order, the keys with a prefix are one block, and it starts where the prefix would be.\<close>

lemma takeWhile_prefix:
  assumes "sorted_wrt (<) (map fst rs)"
  shows "takeWhile (\<lambda>r. has_prefix p (fst r)) (filter (\<lambda>r. p \<le> fst r) rs)
           = filter (\<lambda>r. has_prefix p (fst r)) rs"
  using assms
proof (induction rs)
  case (Cons r rs)
  then have IH: "takeWhile (\<lambda>r. has_prefix p (fst r)) (filter (\<lambda>r. p \<le> fst r) rs)
      = filter (\<lambda>r. has_prefix p (fst r)) rs"
    and less: "\<forall>x \<in> set rs. fst r < fst x" by auto
  have "filter (\<lambda>x. has_prefix p (fst x)) rs = []" if "p \<le> fst r" "\<not> has_prefix p (fst r)"
    using that less has_prefix_between [of p "fst r"]
    by (auto simp: filter_empty_conv dest: order.strict_implies_order)
  with IH show ?case by (auto dest: has_prefix_le)
qed simp

lemma takeWhile_append_none: "(\<forall>r \<in> set ys. \<not> P r) \<Longrightarrow> takeWhile P (xs @ ys) = takeWhile P xs"
  by (induction xs) (auto, cases ys, auto)

section \<open>An in-memory instance\<close>

text \<open>Column families by name (a handle is the name), each an association list of its entries.\<close>

type_synonym mem = "string \<Rightarrow> kv list option"

fun mem_target :: "string target \<Rightarrow> string" where
  "mem_target DefaultCf = DEFAULT_COLUMN_FAMILY_NAME"
| "mem_target (Cf h) = h"

definition mem_entries :: "mem \<Rightarrow> string \<Rightarrow> kv list" where
  "mem_entries s cf = (case s cf of None \<Rightarrow> [] | Some es \<Rightarrow> es)"

definition mem_view :: "mem \<Rightarrow> kv_view" where
  "mem_view s cf = map_of (mem_entries s cf)"

text \<open>A write to a column family that was never created is an error, and no other write fails.\<close>

definition mem_write1 :: "mem \<Rightarrow> string \<Rightarrow> (kv list \<Rightarrow> kv list) \<Rightarrow> mem effect" where
  "mem_write1 s cf f =
     (case s cf of None \<Rightarrow> (Inl ''Invalid column family'', s)
      | Some es \<Rightarrow> (Inr (), s(cf := Some (f es))))"

fun mem_op :: "mem \<Rightarrow> string batch_op \<Rightarrow> mem effect" where
  "mem_op s (BPut t k v) = mem_write1 s (mem_target t) (\<lambda>es. (k, v) # es)"
| "mem_op s (BMerge t k x) = mem_write1 s (mem_target t)
     (\<lambda>es. (k, (case map_of es k of None \<Rightarrow> x | Some e \<Rightarrow> e @ x)) # es)"
| "mem_op s (BDelete t k) = mem_write1 s (mem_target t) (filter (\<lambda>r. fst r \<noteq> k))"
| "mem_op s (BDeleteRange t a b) =
     mem_write1 s (mem_target t) (filter (\<lambda>r. \<not> (a \<le> fst r \<and> fst r < b)))"

fun mem_ops :: "mem \<Rightarrow> string batch_op list \<Rightarrow> mem effect" where
  "mem_ops s [] = (Inr (), s)"
| "mem_ops s (x # xs) =
     (case mem_op s x of (Inl e, _) \<Rightarrow> (Inl e, s)
      | (Inr _, s1) \<Rightarrow>
          (case mem_ops s1 xs of (Inl e, _) \<Rightarrow> (Inl e, s) | (Inr u, s2) \<Rightarrow> (Inr u, s2)))"

fun row_insert :: "bytes \<Rightarrow> bytes \<Rightarrow> kv list \<Rightarrow> kv list" where
  "row_insert k v [] = [(k, v)]"
| "row_insert k v ((k', v') # rs) =
     (if k < k' then (k, v) # (k', v') # rs
      else if k = k' then (k, v) # rs else (k', v') # row_insert k v rs)"

definition mem_rows :: "mem \<Rightarrow> string \<Rightarrow> kv list" where
  "mem_rows s cf = foldr (\<lambda>(k, v). row_insert k v) (mem_entries s cf) []"

definition mem_api :: "(mem, string) rocks_api" where
  "mem_api = \<lparr>
     api_cf_handle = (\<lambda>s cf. case s cf of None \<Rightarrow> None | Some _ \<Rightarrow> Some cf),
     api_get = (\<lambda>s t k. Inr (mem_view s (mem_target t) k)),
     api_multi_get = (\<lambda>s t ks. map (\<lambda>k. Inr (mem_view s (mem_target t) k)) ks),
     api_put = (\<lambda>s t k v. mem_op s (BPut t k v)),
     api_merge = (\<lambda>s t k x. mem_op s (BMerge t k x)),
     api_delete = (\<lambda>s t k. mem_op s (BDelete t k)),
     api_write = mem_ops,
     api_iterator = (\<lambda>s t m. map Inr (rows_from m (mem_rows s (mem_target t)))),
     api_prefix_iterator =
       (\<lambda>s t p. map Inr (rows_from (IterFrom p Forward) (mem_rows s (mem_target t))))\<rparr>"

definition mem_meaning :: "(mem, string) rocks_meaning" where
  "mem_meaning = \<lparr>
     m_name = (\<lambda>h. h),
     m_view = mem_view,
     m_merge = (\<lambda>cf k old x. Some (case old of None \<Rightarrow> x | Some e \<Rightarrow> e @ x))\<rparr>"

lemma mem_meaning_simps [simp]:
  "m_name mem_meaning = (\<lambda>h. h)"
  "m_view mem_meaning = mem_view"
  "m_merge mem_meaning = (\<lambda>cf k old x. Some (case old of None \<Rightarrow> x | Some e \<Rightarrow> e @ x))"
  by (simp_all add: mem_meaning_def)

lemma mem_api_simps [simp]:
  "api_cf_handle mem_api s cf = (case s cf of None \<Rightarrow> None | Some _ \<Rightarrow> Some cf)"
  "api_get mem_api s t k = Inr (mem_view s (mem_target t) k)"
  "api_multi_get mem_api s t ks = map (\<lambda>k. Inr (mem_view s (mem_target t) k)) ks"
  "api_put mem_api s t k v = mem_op s (BPut t k v)"
  "api_merge mem_api s t k x = mem_op s (BMerge t k x)"
  "api_delete mem_api s t k = mem_op s (BDelete t k)"
  "api_write mem_api = mem_ops"
  "api_iterator mem_api s t m = map Inr (rows_from m (mem_rows s (mem_target t)))"
  "api_prefix_iterator mem_api s t p
     = map Inr (rows_from (IterFrom p Forward) (mem_rows s (mem_target t)))"
  by (simp_all add: mem_api_def)

lemma mem_target_name [simp]: "target_name mem_meaning t = mem_target t"
  by (cases t) simp_all

lemma map_of_filter_key:
  "map_of (filter (\<lambda>r. P (fst r)) rs) = (\<lambda>k. if P k then map_of rs k else None)"
  by (induction rs) (auto simp: fun_eq_iff)

lemma mem_write1_ok:
  assumes "\<And>es. map_of (f es) = g (map_of es)"
  shows "effect_ok mem_api mem_meaning s (mem_write1 s cf f)
           ((mem_view s)(cf := g (mem_view s cf)))"
  using assms by (auto simp: effect_ok_def mem_write1_def mem_view_def mem_entries_def fun_eq_iff
      split: option.splits)

lemma mem_op_ok: "effect_ok mem_api mem_meaning s (mem_op s x) (apply_op mem_meaning (mem_view s) x)"
proof (cases x)
  case (BPut t k v)
  show ?thesis
    using mem_write1_ok [of "\<lambda>es. (k, v) # es" "\<lambda>m. m(k := Some v)"]
    by (simp add: BPut upd_def)
next
  case (BMerge t k y)
  show ?thesis
    using mem_write1_ok [of "\<lambda>es. (k, case map_of es k of None \<Rightarrow> y | Some e \<Rightarrow> e @ y) # es"
        "\<lambda>m. m(k := Some (case m k of None \<Rightarrow> y | Some e \<Rightarrow> e @ y))"]
    by (simp add: BMerge upd_def)
next
  case (BDelete t k)
  show ?thesis
    using mem_write1_ok [of "filter (\<lambda>r. fst r \<noteq> k)" "\<lambda>m. m(k := None)"]
    by (simp add: BDelete upd_def map_of_filter_key [where P = "\<lambda>x. x \<noteq> k"] fun_eq_iff)
next
  case (BDeleteRange t a b)
  have "map_of (filter (\<lambda>r. \<not> (a \<le> fst r \<and> fst r < b)) es)
          = (\<lambda>k. if a \<le> k \<and> k < b then None else map_of es k)" for es
    by (rule trans [OF map_of_filter_key [where P = "\<lambda>x. \<not> (a \<le> x \<and> x < b)"]]) (auto simp: fun_eq_iff)
  from mem_write1_ok [where f = "filter (\<lambda>r. \<not> (a \<le> fst r \<and> fst r < b))"
      and g = "\<lambda>m k. if a \<le> k \<and> k < b then None else m k", OF this]
  show ?thesis
    by (simp add: BDeleteRange clear_range_def)
qed

lemma mem_ops_ok:
  "effect_ok mem_api mem_meaning s (mem_ops s xs) (apply_ops mem_meaning (mem_view s) xs)"
proof (induction xs arbitrary: s)
  case Nil
  show ?case by (simp add: effect_ok_def apply_ops_def)
next
  case (Cons x xs)
  show ?case
    using mem_op_ok [of s x] Cons [of "snd (mem_op s x)"]
    by (auto simp: effect_ok_def apply_ops_def split: sum.splits prod.splits)
qed

lemma rocks_contract_mem [simp]: "rocks_contract mem_api mem_meaning"
proof -
  have "list_all2 (\<lambda>k r. \<forall>x. r = Inr x \<longrightarrow> x = mem_view s cf k) ks
      (map (\<lambda>k. Inr (mem_view s cf k)) ks)" for s cf ks
    by (induction ks) auto
  then show ?thesis
    using mem_op_ok mem_ops_ok
    by (auto simp: rocks_contract_def read_contract_def write_contract_def
        simp del: mem_op.simps apply_op.simps split: option.splits)
qed

subsection \<open>Its rows\<close>

lemma row_insert_keys: "fst ` set (row_insert k v rs) = insert k (fst ` set rs)"
  by (induction k v rs rule: row_insert.induct) auto

lemma row_insert_sorted:
  "sorted_wrt (<) (map fst rs) \<Longrightarrow> sorted_wrt (<) (map fst (row_insert k v rs))"
proof (induction k v rs rule: row_insert.induct)
  case (2 k v k' v' rs)
  have rs: "sorted_wrt (<) (map fst rs)" "\<forall>x \<in> set rs. k' < fst x"
    using 2 by auto
  consider "k < k'" | "k = k'" | "\<not> k < k'" "k \<noteq> k'" "k' < k"
    by (meson linorder_less_linear)
  then show ?case
  proof cases
    case 1
    then have "\<forall>x \<in> set rs. k < fst x"
      using rs order.strict_trans by blast
    with 1 rs show ?thesis by simp
  next
    case 2
    with rs show ?thesis by simp
  next
    case 3
    have "\<forall>y \<in> fst ` set (row_insert k v rs). k' < y"
      using rs 3 by (simp only: row_insert_keys) simp
    moreover have "sorted_wrt (<) (map fst (row_insert k v rs))"
      using "2.IH" rs 3 by simp
    ultimately show ?thesis using 3 by simp
  qed
qed simp

lemma row_insert_map:
  "sorted_wrt (<) (map fst rs) \<Longrightarrow> map_of (row_insert k v rs) = (map_of rs)(k \<mapsto> v)"
  by (induction k v rs rule: row_insert.induct) auto

lemma is_rows_mem: "is_rows (mem_view s cf) (mem_rows s cf)"
proof -
  have "is_rows (map_of es) (foldr (\<lambda>(k, v). row_insert k v) es [])" for es
    by (induction es) (auto simp: is_rows_def row_insert_sorted row_insert_map)
  then show ?thesis by (simp add: mem_rows_def mem_view_def)
qed

lemma iter_contract_mem [simp]: "iter_contract mem_api mem_meaning"
proof -
  have inj: "map Inr xs = map Inr ys \<longleftrightarrow> xs = ys" for xs ys :: "kv list"
    by (simp add: inj_map_eq_map inj_on_def)
  show ?thesis
    using is_rows_mem by (fastforce simp: iter_contract_def inj simp del: rows_from.simps)
qed

end
