(* ===== verification/Iteration.thy ===== *)
theory Iteration
  imports Rocks_API
begin

text \<open>
  \<open>src/iter/mod.rs\<close> and \<open>src/iter/helpers.rs\<close>: the configuration of an iteration, the two
  lazy iterators (\<open>ControlledIter\<close> and the local \<open>IterRawInternalLocal\<close>), and
  \<open>IterationHelper::execute\<close>, which picks the database iterator, adds the prefix check to the
  caller's control function and runs or returns the iterator of the mode.

  A \<open>FnMut\<close> closure is a function that takes and returns the state it captured; the control
  function and the deserializer of one configuration share one such state \<open>'c\<close>, so that closures
  which write to the same variable are covered. The iterator of the database is the list of the items
  it will still give. Drawing a lazy iterator to its end is \<open>try_collect\<close>, a loop that might not
  end; the locale \<open>pull_iterator\<close> gives the reason why it does, and \<open>gather\<close> is the plain
  recursion that it computes.
\<close>

section \<open>Closures and configuration\<close>

type_synonym 'c control = "'c \<Rightarrow> bytes \<Rightarrow> bytes \<Rightarrow> usize \<Rightarrow> iteration_control_decision \<times> 'c"
type_synonym ('c, 'k, 'v) deserializer = "'c \<Rightarrow> bytes \<Rightarrow> bytes \<Rightarrow> ('k \<times> 'v) store_result \<times> 'c"

datatype ('c, 'k, 'v) iteration_mode =
    Deserialize "('c, 'k, 'v) deserializer"
  | Raw
  | ControlOnly

record ('c, 'k, 'v) iter_config =
  cfg_cf_name :: string
  cfg_prefix :: "key option"
  cfg_start :: "key option"
  cfg_reverse :: bool
  cfg_control :: "'c control option"
  cfg_mode :: "('c, 'k, 'v) iteration_mode"
  cfg_env :: 'c

definition new_deserializing ::
    "string \<Rightarrow> key option \<Rightarrow> key option \<Rightarrow> bool \<Rightarrow> 'c control option \<Rightarrow> ('c, 'k, 'v) deserializer \<Rightarrow> 'c
     \<Rightarrow> ('c, 'k, 'v) iter_config" where
  "new_deserializing cf_name prefix start reverse control deserializer env =
     \<lparr>cfg_cf_name = cf_name, cfg_prefix = prefix, cfg_start = start, cfg_reverse = reverse,
      cfg_control = control, cfg_mode = Deserialize deserializer, cfg_env = env\<rparr>"

definition new_raw ::
    "string \<Rightarrow> key option \<Rightarrow> key option \<Rightarrow> bool \<Rightarrow> 'c control option \<Rightarrow> 'c
     \<Rightarrow> ('c, bytes, bytes) iter_config" where
  "new_raw cf_name prefix start reverse control env =
     \<lparr>cfg_cf_name = cf_name, cfg_prefix = prefix, cfg_start = start, cfg_reverse = reverse,
      cfg_control = control, cfg_mode = Raw, cfg_env = env\<rparr>"

definition new_control_only ::
    "string \<Rightarrow> key option \<Rightarrow> key option \<Rightarrow> bool \<Rightarrow> 'c control \<Rightarrow> 'c \<Rightarrow> ('c, unit, unit) iter_config" where
  "new_control_only cf_name prefix start reverse control env =
     \<lparr>cfg_cf_name = cf_name, cfg_prefix = prefix, cfg_start = start, cfg_reverse = reverse,
      cfg_control = Some control, cfg_mode = ControlOnly, cfg_env = env\<rparr>"

section \<open>The lazy iterators\<close>

record ('c, 'k, 'v) controlled_iter =
  ci_raw :: "kv_item list"
  ci_control :: "'c control option"
  ci_deserializer :: "('c, 'k, 'v) deserializer"
  ci_items_kept_count :: usize
  ci_env :: 'c

text \<open>\<open>if let Some(control_fn) = control\<close>: no control function keeps everything.\<close>

definition run_control :: "'c control option \<Rightarrow> 'c control" where
  "run_control control c k v n = (case control of None \<Rightarrow> (Keep, c) | Some f \<Rightarrow> f c k v n)"

function controlled_next ::
    "('c, 'k, 'v) controlled_iter \<Rightarrow> ('k \<times> 'v) store_result option \<times> ('c, 'k, 'v) controlled_iter" where
  "controlled_next it =
     (case ci_raw it of
        [] \<Rightarrow> (None, it)
      | Inl e # rest \<Rightarrow> (Some (Inl (RocksDb e)), it\<lparr>ci_raw := rest\<rparr>)
      | Inr (k, v) # rest \<Rightarrow>
          (case run_control (ci_control it) (ci_env it) k v (ci_items_kept_count it) of
             (Stop, c) \<Rightarrow> (None, it\<lparr>ci_raw := rest, ci_env := c\<rparr>)
           | (Skip, c) \<Rightarrow> controlled_next (it\<lparr>ci_raw := rest, ci_env := c\<rparr>)
           | (Keep, c) \<Rightarrow>
               (case ci_deserializer it c k v of
                  (item, c2) \<Rightarrow>
                    (Some item, it\<lparr>ci_raw := rest, ci_env := c2,
                       ci_items_kept_count := ci_items_kept_count it + 1\<rparr>))))"
  by pat_completeness auto
termination by (relation "measure (\<lambda>it. length (ci_raw it))") auto

record 'c raw_iter =
  ri_raw :: "kv_item list"
  ri_control :: "'c control option"
  ri_items_kept_count :: usize
  ri_env :: 'c

function raw_next :: "'c raw_iter \<Rightarrow> kv store_result option \<times> 'c raw_iter" where
  "raw_next it =
     (case ri_raw it of
        [] \<Rightarrow> (None, it)
      | Inl e # rest \<Rightarrow> (Some (Inl (RocksDb e)), it\<lparr>ri_raw := rest\<rparr>)
      | Inr (k, v) # rest \<Rightarrow>
          (case run_control (ri_control it) (ri_env it) k v (ri_items_kept_count it) of
             (Stop, c) \<Rightarrow> (None, it\<lparr>ri_raw := rest, ri_env := c\<rparr>)
           | (Skip, c) \<Rightarrow> raw_next (it\<lparr>ri_raw := rest, ri_env := c\<rparr>)
           | (Keep, c) \<Rightarrow>
               (Some (Inr (k, v)), it\<lparr>ri_raw := rest, ri_env := c,
                  ri_items_kept_count := ri_items_kept_count it + 1\<rparr>)))"
  by pat_completeness auto
termination by (relation "measure (\<lambda>it. length (ri_raw it))") auto

declare controlled_next.simps [simp del] raw_next.simps [simp del]

section \<open>IterationHelper\<close>

datatype ('c, 'k, 'v) iteration_result =
    EffectCompleted
  | RawItems "'c raw_iter"
  | DeserializedItems "('c, 'k, 'v) controlled_iter"

type_synonym general_factory = "iterator_mode \<Rightarrow> kv_item list store_result"
type_synonym prefix_factory = "bytes \<Rightarrow> kv_item list store_result"

text \<open>\<open>opt.as_ref().map(serialize_key).transpose()?\<close>\<close>

definition serialize_opt_key :: "key option \<Rightarrow> bytes option store_result" where
  "serialize_opt_key x = opt_try serialize_key x"

definition choose_mode :: "bool \<Rightarrow> bytes option \<Rightarrow> bytes option \<Rightarrow> iterator_mode" where
  "choose_mode reverse start prefix =
     (let iteration_direction = (if reverse then Reverse else Forward) in
      case start of
        Some s \<Rightarrow> IterFrom s iteration_direction
      | None \<Rightarrow>
          (case prefix of
             Some p \<Rightarrow> IterFrom p iteration_direction
           | None \<Rightarrow> if reverse then IterEnd else IterStart))"

definition prefix_enforcement_control :: "bytes \<Rightarrow> 'c control" where
  "prefix_enforcement_control p c k v n = (if has_prefix p k then (Keep, c) else (Stop, c))"

definition effective_control :: "bytes option \<Rightarrow> 'c control option \<Rightarrow> 'c control option" where
  "effective_control prefix control =
     (case prefix of
        None \<Rightarrow> control
      | Some p \<Rightarrow>
          (case control of
             Some user_control \<Rightarrow>
               Some (\<lambda>c k v n.
                 (case prefix_enforcement_control p c k v n of
                    (Keep, c1) \<Rightarrow> user_control c1 k v n
                  | (decision, c1) \<Rightarrow> (decision, c1)))
           | None \<Rightarrow> Some (prefix_enforcement_control p)))"

text \<open>The \<open>for\<close> loop of \<open>ControlOnly\<close>; an item that is an error ends it.\<close>

fun control_only_loop :: "'c control \<Rightarrow> kv_item list \<Rightarrow> 'c \<Rightarrow> usize \<Rightarrow> unit store_result \<times> 'c" where
  "control_only_loop f [] c n = (Inr (), c)"
| "control_only_loop f (Inl e # rest) c n = (Inl (RocksDb e), c)"
| "control_only_loop f (Inr (k, v) # rest) c n =
     (case f c k v n of
        (Stop, c1) \<Rightarrow> (Inr (), c1)
      | (Skip, c1) \<Rightarrow> control_only_loop f rest c1 n
      | (Keep, c1) \<Rightarrow> control_only_loop f rest c1 (n + 1))"

text \<open>
  \<open>execute\<close> also returns the state of the closures as it leaves them; the iterators it returns
  hold the same state.
\<close>

definition base_iter ::
    "('c, 'k, 'v) iter_config \<Rightarrow> general_factory \<Rightarrow> prefix_factory \<Rightarrow> bytes option \<Rightarrow> bytes option
     \<Rightarrow> kv_item list store_result" where
  "base_iter cfg general_factory prefix_factory prefix start =
     (let use_optimized_prefix_iterator = (prefix \<noteq> None \<and> start = None) in
      if use_optimized_prefix_iterator then prefix_factory (the prefix)
      else general_factory (choose_mode (cfg_reverse cfg) start prefix))"

definition run_mode ::
    "('c, 'k, 'v) iter_config \<Rightarrow> 'c control option \<Rightarrow> kv_item list
     \<Rightarrow> ('c, 'k, 'v) iteration_result store_result \<times> 'c" where
  "run_mode cfg control raw =
     (case cfg_mode cfg of
        Deserialize deserializer_fn \<Rightarrow>
          (Inr (DeserializedItems
             \<lparr>ci_raw = raw, ci_control = control, ci_deserializer = deserializer_fn,
              ci_items_kept_count = 0, ci_env = cfg_env cfg\<rparr>), cfg_env cfg)
      | Raw \<Rightarrow>
          (Inr (RawItems
             \<lparr>ri_raw = raw, ri_control = control, ri_items_kept_count = 0, ri_env = cfg_env cfg\<rparr>),
           cfg_env cfg)
      | ControlOnly \<Rightarrow>
          (case control of
             Some control_fn \<Rightarrow>
               (case control_only_loop control_fn raw (cfg_env cfg) 0 of
                  (r, c) \<Rightarrow> (map_ok (\<lambda>_. EffectCompleted) r, c))
           | None \<Rightarrow> (Inr EffectCompleted, cfg_env cfg)))"

definition execute ::
    "('c, 'k, 'v) iter_config \<Rightarrow> general_factory \<Rightarrow> prefix_factory
     \<Rightarrow> ('c, 'k, 'v) iteration_result store_result \<times> 'c" where
  "execute cfg general_factory prefix_factory =
     (case serialize_opt_key (cfg_prefix cfg) of
        Inl e \<Rightarrow> (Inl e, cfg_env cfg)
      | Inr ser_prefix_bytes \<Rightarrow>
          (case serialize_opt_key (cfg_start cfg) of
             Inl e \<Rightarrow> (Inl e, cfg_env cfg)
           | Inr ser_start_bytes \<Rightarrow>
               (case base_iter cfg general_factory prefix_factory ser_prefix_bytes ser_start_bytes of
                  Inl e \<Rightarrow> (Inl e, cfg_env cfg)
                | Inr base_rocksdb_iter \<Rightarrow>
                    run_mode cfg (effective_control ser_prefix_bytes (cfg_control cfg))
                      base_rocksdb_iter)))"

lemma serialize_opt_key_simp [simp]: "serialize_opt_key x = Inr (map_option as_bytes x)"
  by (cases x) (simp_all add: serialize_opt_key_def)


section \<open>Drawing an iterator to its end\<close>

text \<open>
  \<open>iter.collect::<Result<Vec<_>, _>>()\<close>: items are drawn until the iterator gives \<open>None\<close> or an
  error. The value \<open>None\<close> of the outer option stands for a loop that does not end.
\<close>

partial_function (option) try_collect ::
    "('i \<Rightarrow> ('e, 'a) result option \<times> 'i) \<Rightarrow> 'i \<Rightarrow> (('e, 'a list) result \<times> 'i) option" where
  "try_collect step i =
     (case step i of
        (None, j) \<Rightarrow> Some (Inr [], j)
      | (Some r, j) \<Rightarrow>
          (case r of
             Inl e \<Rightarrow> Some (Inl e, j)
           | Inr a \<Rightarrow>
               Option.bind (try_collect step j) (\<lambda>x. Some (map_ok ((#) a) (fst x), snd x))))"

lemma try_collect_None: "step i = (None, j) \<Longrightarrow> try_collect step i = Some (Inr [], j)"
  by (simp add: try_collect.simps [of step i])

lemma try_collect_Inl: "step i = (Some (Inl e), j) \<Longrightarrow> try_collect step i = Some (Inl e, j)"
  by (simp add: try_collect.simps [of step i])

lemma try_collect_Inr:
  "step i = (Some (Inr a), j) \<Longrightarrow>
     try_collect step i = Option.bind (try_collect step j) (\<lambda>x. Some (map_ok ((#) a) (fst x), snd x))"
  by (simp add: try_collect.simps [of step i])

lemma try_collect_Cons:
  "try_collect step i = Some (Inr (x # xs), j) \<Longrightarrow>
     \<exists>k. step i = (Some (Inr x), k) \<and> try_collect step k = Some (Inr xs, j)"
  by (subst (asm) try_collect.simps)
     (auto split: prod.splits option.splits sum.splits simp: bind_eq_Some_conv)

text \<open>
  What the consumers of an iterator rely on: each item that is drawn leaves less to draw. The two
  iterators of this component provide it.
\<close>

locale pull_iterator =
  fixes step :: "'i \<Rightarrow> ('e, 'a) result option \<times> 'i"
    and left_over :: "'i \<Rightarrow> nat"
  assumes consumes: "step i = (Some r, j) \<Longrightarrow> left_over j < left_over i"
begin

lemma collect_returns: "\<exists>r j. try_collect step i = Some (r, j)"
proof (induction "left_over i" arbitrary: i rule: less_induct)
  case less
  obtain x j where x: "step i = (x, j)" by fastforce
  show ?case
  proof (cases x)
    case None
    with x show ?thesis by (simp add: try_collect_None)
  next
    case (Some r)
    with x have "\<exists>s l. try_collect step j = Some (s, l)"
      by (intro less) (auto dest: consumes)
    with x Some show ?thesis
      by (cases r) (auto simp: try_collect_Inl try_collect_Inr)
  qed
qed

lemma collect_length: "try_collect step i = Some (Inr xs, j) \<Longrightarrow> length xs \<le> left_over i"
proof (induction xs arbitrary: i)
  case (Cons x xs)
  then obtain k where "step i = (Some (Inr x), k)" "try_collect step k = Some (Inr xs, j)"
    using try_collect_Cons by metis
  with Cons.IH [of k] consumes [of i "Inr x" k] show ?case by simp
qed simp

end

subsection \<open>One step of each iterator\<close>

lemma run_control_None [simp]: "run_control None c k v n = (Keep, c)"
  by (simp add: run_control_def)

lemma run_control_Some [simp]: "run_control (Some f) = f"
  by (simp add: run_control_def fun_eq_iff)

lemma controlled_next_Nil: "ci_raw it = [] \<Longrightarrow> controlled_next it = (None, it)"
  by (simp add: controlled_next.simps)

lemma controlled_next_Inl:
  "ci_raw it = Inl e # rest \<Longrightarrow> controlled_next it = (Some (Inl (RocksDb e)), it\<lparr>ci_raw := rest\<rparr>)"
  by (simp add: controlled_next.simps)

lemma controlled_next_Inr:
  "ci_raw it = Inr (k, v) # rest \<Longrightarrow>
     run_control (ci_control it) (ci_env it) k v (ci_items_kept_count it) = (d, c) \<Longrightarrow>
     controlled_next it =
       (case d of
          Stop \<Rightarrow> (None, it\<lparr>ci_raw := rest, ci_env := c\<rparr>)
        | Skip \<Rightarrow> controlled_next (it\<lparr>ci_raw := rest, ci_env := c\<rparr>)
        | Keep \<Rightarrow> (Some (fst (ci_deserializer it c k v)),
                 it\<lparr>ci_raw := rest, ci_env := snd (ci_deserializer it c k v),
                    ci_items_kept_count := ci_items_kept_count it + 1\<rparr>))"
  by (simp add: controlled_next.simps [of it] split: prod.splits iteration_control_decision.splits)

lemmas controlled_next_cases = controlled_next_Nil controlled_next_Inl controlled_next_Inr

lemma controlled_next_consumes:
  "controlled_next it = (Some r, it') \<Longrightarrow> length (ci_raw it') < length (ci_raw it)"
proof (induction it rule: controlled_next.induct)
  case (1 it)
  show ?case
  proof (cases "ci_raw it")
    case Nil
    with "1.prems" show ?thesis by (simp add: controlled_next_Nil)
  next
    case (Cons x rest)
    show ?thesis
    proof (cases x)
      case (Inl e)
      with "1.prems" Cons show ?thesis by (auto simp: controlled_next_Inl)
    next
      case (Inr kv)
      obtain k v where kv: "kv = (k, v)" by fastforce
      obtain d c where rc: "run_control (ci_control it) (ci_env it) k v (ci_items_kept_count it) = (d, c)"
        by fastforce
      note eq = controlled_next_Inr [OF Cons [unfolded Inr kv] rc]
      note IH = "1.IH" [OF Cons Inr kv [symmetric] rc [symmetric]]
      from "1.prems" IH show ?thesis
        by (cases d) (auto simp: eq Cons)
    qed
  qed
qed

lemma raw_next_Nil: "ri_raw it = [] \<Longrightarrow> raw_next it = (None, it)"
  by (simp add: raw_next.simps)

lemma raw_next_Inl:
  "ri_raw it = Inl e # rest \<Longrightarrow> raw_next it = (Some (Inl (RocksDb e)), it\<lparr>ri_raw := rest\<rparr>)"
  by (simp add: raw_next.simps)

lemma raw_next_Inr:
  "ri_raw it = Inr (k, v) # rest \<Longrightarrow>
     run_control (ri_control it) (ri_env it) k v (ri_items_kept_count it) = (d, c) \<Longrightarrow>
     raw_next it =
       (case d of
          Stop \<Rightarrow> (None, it\<lparr>ri_raw := rest, ri_env := c\<rparr>)
        | Skip \<Rightarrow> raw_next (it\<lparr>ri_raw := rest, ri_env := c\<rparr>)
        | Keep \<Rightarrow> (Some (Inr (k, v)),
                 it\<lparr>ri_raw := rest, ri_env := c, ri_items_kept_count := ri_items_kept_count it + 1\<rparr>))"
  by (simp add: raw_next.simps [of it] split: prod.splits iteration_control_decision.splits)


text \<open>The iterator of raw items is the controlled iterator whose deserializer copies the item.\<close>

definition copy_item :: "('c, bytes, bytes) deserializer" where
  "copy_item c k v = (Inr (k, v), c)"

definition of_raw :: "'c raw_iter \<Rightarrow> ('c, bytes, bytes) controlled_iter" where
  "of_raw it = \<lparr>ci_raw = ri_raw it, ci_control = ri_control it, ci_deserializer = copy_item,
     ci_items_kept_count = ri_items_kept_count it, ci_env = ri_env it\<rparr>"

lemma of_raw_simps [simp]:
  "ci_raw (of_raw it) = ri_raw it" "ci_control (of_raw it) = ri_control it"
  "ci_items_kept_count (of_raw it) = ri_items_kept_count it" "ci_env (of_raw it) = ri_env it"
  "ci_deserializer (of_raw it) = copy_item"
  "of_raw it\<lparr>ci_raw := rest\<rparr> = of_raw (it\<lparr>ri_raw := rest\<rparr>)"
  "of_raw it\<lparr>ci_env := c\<rparr> = of_raw (it\<lparr>ri_env := c\<rparr>)"
  "of_raw it\<lparr>ci_items_kept_count := n\<rparr> = of_raw (it\<lparr>ri_items_kept_count := n\<rparr>)"
  by (simp_all add: of_raw_def)

lemma controlled_next_of_raw:
  "controlled_next (of_raw it) = (fst (raw_next it), of_raw (snd (raw_next it)))"
proof (induction it rule: raw_next.induct)
  case (1 it)
  show ?case
  proof (cases "ri_raw it")
    case Nil
    then show ?thesis by (simp add: raw_next_Nil controlled_next_Nil)
  next
    case (Cons x rest)
    show ?thesis
    proof (cases x)
      case (Inl e)
      with Cons show ?thesis
        by (simp add: raw_next_Inl [of it e rest] controlled_next_Inl [of _ e rest])
    next
      case (Inr kv)
      obtain k v where kv: "kv = (k, v)" by fastforce
      obtain d c where rc: "run_control (ri_control it) (ri_env it) k v (ri_items_kept_count it) = (d, c)"
        by fastforce
      have raw: "ri_raw it = Inr (k, v) # rest" using Cons Inr kv by simp
      note eq = raw_next_Inr [OF raw rc] controlled_next_Inr [of "of_raw it" k v rest d c]
      note IH = "1.IH" [OF Cons Inr kv [symmetric] rc [symmetric]]
      show ?thesis
        using raw rc IH
        by (cases d) (simp_all add: eq copy_item_def)
    qed
  qed
qed

lemma raw_next_consumes: "raw_next it = (Some r, it') \<Longrightarrow> length (ri_raw it') < length (ri_raw it)"
  using controlled_next_consumes [of "of_raw it" r "of_raw it'"] by (simp add: controlled_next_of_raw)

interpretation controlled: pull_iterator controlled_next "\<lambda>it. length (ci_raw it)"
  by unfold_locales (rule controlled_next_consumes)

interpretation raw: pull_iterator raw_next "\<lambda>it. length (ri_raw it)"
  by unfold_locales (rule raw_next_consumes)

section \<open>The reference reading of an iteration\<close>

text \<open>
  \<open>gather\<close> walks the rows once: the control function decides on each row, the deserializer runs on
  the rows that are kept, and the first error, of the database or of the deserializer, is the result.
\<close>

fun gather ::
    "'c control option \<Rightarrow> ('c, 'k, 'v) deserializer \<Rightarrow> kv_item list \<Rightarrow> 'c \<Rightarrow> usize
     \<Rightarrow> ('k \<times> 'v) list store_result \<times> 'c" where
  "gather ctl de [] c n = (Inr [], c)"
| "gather ctl de (Inl e # rest) c n = (Inl (RocksDb e), c)"
| "gather ctl de (Inr (k, v) # rest) c n =
     (case run_control ctl c k v n of
        (Stop, c1) \<Rightarrow> (Inr [], c1)
      | (Skip, c1) \<Rightarrow> gather ctl de rest c1 n
      | (Keep, c1) \<Rightarrow>
          (case de c1 k v of
             (Inl e, c2) \<Rightarrow> (Inl e, c2)
           | (Inr x, c2) \<Rightarrow>
               (case gather ctl de rest c2 (n + 1) of (r, c3) \<Rightarrow> (map_ok ((#) x) r, c3))))"

abbreviation gather_iter ::
    "('c, 'k, 'v) controlled_iter \<Rightarrow> ('k \<times> 'v) list store_result \<times> 'c" where
  "gather_iter it \<equiv>
     gather (ci_control it) (ci_deserializer it) (ci_raw it) (ci_env it) (ci_items_kept_count it)"

lemma collect_gather:
  "\<exists>it'. try_collect controlled_next it = Some (fst (gather_iter it), it')
     \<and> ci_env it' = snd (gather_iter it)"
proof (induction "length (ci_raw it)" arbitrary: it rule: less_induct)
  case less
  show ?case
  proof (cases "ci_raw it")
    case Nil
    then show ?thesis
      using try_collect_None [of controlled_next it it] by (simp add: controlled_next_Nil)
  next
    case (Cons x rest)
    show ?thesis
    proof (cases x)
      case (Inl e)
      with Cons show ?thesis
        using try_collect_Inl [of controlled_next it "RocksDb e"]
        by (simp add: controlled_next_Inl [of it e rest])
    next
      case (Inr kv)
      obtain k v where kv: "kv = (k, v)" by fastforce
      obtain d c where rc: "run_control (ci_control it) (ci_env it) k v (ci_items_kept_count it) = (d, c)"
        by fastforce
      have raw: "ci_raw it = Inr (k, v) # rest" using Cons Inr kv by simp
      note eq = controlled_next_Inr [OF raw rc]
      show ?thesis
      proof (cases d)
        case Stop
        then show ?thesis using raw rc eq by (simp add: try_collect_None)
      next
        case Skip
        define it1 where "it1 = it\<lparr>ci_raw := rest, ci_env := c\<rparr>"
        have "controlled_next it = controlled_next it1" using Skip eq by (simp add: it1_def)
        then have same: "try_collect controlled_next it = try_collect controlled_next it1"
          by (subst (1 2) try_collect.simps) simp
        show ?thesis
          unfolding same using less [of it1] raw rc Skip by (simp add: it1_def)
      next
        case Keep
        obtain r c2 where de: "ci_deserializer it c k v = (r, c2)" by fastforce
        define it1 where "it1 = it\<lparr>ci_raw := rest, ci_env := c2,
          ci_items_kept_count := ci_items_kept_count it + 1\<rparr>"
        have step: "controlled_next it = (Some r, it1)" using Keep eq de by (simp add: it1_def)
        show ?thesis
        proof (cases r)
          case (Inl e)
          then show ?thesis
            using step raw rc Keep de by (simp add: try_collect_Inl) (simp add: it1_def)
        next
          case (Inr y)
          with step less [of it1] show ?thesis
            using raw rc Keep de
            by (auto simp: try_collect_Inr it1_def split: prod.splits)
        qed
      qed
    qed
  qed
qed


lemma collect_raw:
  "\<exists>it'. try_collect raw_next it
       = Some (fst (gather (ri_control it) copy_item (ri_raw it) (ri_env it) (ri_items_kept_count it)), it')
     \<and> ri_env it' = snd (gather (ri_control it) copy_item (ri_raw it) (ri_env it) (ri_items_kept_count it))"
proof -
  have sim: "try_collect raw_next i = Some (r, j) \<Longrightarrow>
      try_collect controlled_next (of_raw i) = Some (r, of_raw j)" for i r j
  proof (induction "length (ri_raw i)" arbitrary: i r rule: less_induct)
    case less
    obtain x k where x: "raw_next i = (x, k)" by fastforce
    then have y: "controlled_next (of_raw i) = (x, of_raw k)" by (simp add: controlled_next_of_raw)
    show ?case
    proof (cases x)
      case None
      with x y less.prems show ?thesis by (simp add: try_collect_None)
    next
      case (Some s)
      show ?thesis
      proof (cases s)
        case (Inl e)
        with Some x y less.prems show ?thesis by (simp add: try_collect_Inl)
      next
        case (Inr a)
        from x Some have "length (ri_raw k) < length (ri_raw i)" by (auto dest: raw_next_consumes)
        from less.hyps [OF this] less.prems show ?thesis
          using Some Inr x y by (auto simp: try_collect_Inr bind_eq_Some_conv)
      qed
    qed
  qed
  obtain r j where rj: "try_collect raw_next it = Some (r, j)" using raw.collect_returns by blast
  with sim [OF rj] collect_gather [of "of_raw it"] show ?thesis by auto
qed

subsection \<open>The prefix check\<close>

definition in_prefix :: "bytes \<Rightarrow> kv_item \<Rightarrow> bool" where
  "in_prefix p item = (case item of Inl _ \<Rightarrow> True | Inr (k, _) \<Rightarrow> has_prefix p k)"

lemma in_prefix_simps [simp]: "in_prefix p (Inl e)" "in_prefix p (Inr r) = has_prefix p (fst r)"
  by (simp_all add: in_prefix_def split: prod.splits)

lemma run_effective_control:
  "run_control (effective_control (Some p) ctl) c k v n
     = (if has_prefix p k then run_control ctl c k v n else (Stop, c))"
  by (simp add: effective_control_def prefix_enforcement_control_def split: option.splits)

lemma effective_control_None [simp]: "effective_control None ctl = ctl"
  by (simp add: effective_control_def)

lemma gather_prefix:
  "gather (effective_control (Some p) ctl) de raw c n = gather ctl de (takeWhile (in_prefix p) raw) c n"
  by (induction ctl de raw c n rule: gather.induct)
     (simp_all add: run_effective_control split: prod.splits iteration_control_decision.splits
       sum.splits)

text \<open>What an iteration walks: the items up to the first key without the prefix, if one is set.\<close>

definition visible :: "bytes option \<Rightarrow> kv_item list \<Rightarrow> kv_item list" where
  "visible prefix raw = (case prefix of None \<Rightarrow> raw | Some p \<Rightarrow> takeWhile (in_prefix p) raw)"

lemma visible_simps [simp]:
  "visible None raw = raw" "visible (Some p) raw = takeWhile (in_prefix p) raw"
  by (simp_all add: visible_def)

lemma gather_visible:
  "gather (effective_control prefix ctl) de raw c n = gather ctl de (visible prefix raw) c n"
  by (cases prefix) (simp_all add: gather_prefix)

lemma gather_copy_Cons:
  "gather ctl copy_item (Inr (k, v) # rest) c n =
     (case run_control ctl c k v n of
        (Stop, c1) \<Rightarrow> (Inr [], c1)
      | (Skip, c1) \<Rightarrow> gather ctl copy_item rest c1 n
      | (Keep, c1) \<Rightarrow>
          (map_ok ((#) (k, v)) (fst (gather ctl copy_item rest c1 (n + 1))),
           snd (gather ctl copy_item rest c1 (n + 1))))"
  by (simp add: copy_item_def split: prod.splits iteration_control_decision.splits)

lemma gather_copy_subset:
  "fst (gather ctl copy_item raw c n) = Inr xs \<Longrightarrow> x \<in> set xs \<Longrightarrow> Inr x \<in> set raw"
proof (induction raw arbitrary: c n xs)
  case (Cons item raw)
  show ?case
  proof (cases item)
    case (Inr kv)
    obtain k v where kv: "kv = (k, v)" by fastforce
    obtain d c1 where rc: "run_control ctl c k v n = (d, c1)" by fastforce
    show ?thesis
      using Cons.IH [of c1 n] Cons.IH [of c1 "n + 1"] Cons.prems
      by (cases d) (auto simp: Inr kv gather_copy_Cons rc simp del: gather.simps)
  qed (use Cons.prems in simp)
qed simp


lemma visible_prefix: "Inr r \<in> set (visible (Some p) raw) \<Longrightarrow> has_prefix p (fst r)"
  by (auto dest: set_takeWhileD)

lemma visible_subset: "x \<in> set (visible prefix raw) \<Longrightarrow> x \<in> set raw"
  by (cases prefix) (auto dest: set_takeWhileD)

subsection \<open>A control function that stops after a number of rows\<close>

definition limit_control :: "nat \<Rightarrow> 'c control" where
  "limit_control m c k v n = (if n < of_nat m then Keep else Stop, c)"

lemma gather_limit:
  assumes "i \<le> m" and "m < 2 ^ 64"
  shows "gather (Some (limit_control m)) copy_item (map Inr rows) c (of_nat i)
           = (Inr (take (m - i) rows), c)"
  using assms
proof (induction rows arbitrary: i)
  case (Cons r rows)
  obtain k v where r: "r = (k, v)" by fastforce
  have less: "(of_nat i :: usize) < of_nat m \<longleftrightarrow> i < m"
    using Cons.prems by (simp add: word_less_nat_alt unat_of_nat)
  show ?case
    using Cons.IH [of "Suc i"] Cons.prems
    by (cases "i < m")
       (simp_all add: r gather_copy_Cons limit_control_def less add.commute Suc_diff_Suc [symmetric]
         del: gather.simps)
qed simp

section \<open>Properties\<close>

text \<open>
  C11: Prefix confinement of typed iteration. For any configuration with a prefix and a deserializer,
  \<open>execute\<close> returns an iterator, drawing it ends, and the outcome is that of a walk with the
  caller's own control function over the database items cut off at the first key that does not start
  with the prefix. So the caller's control function and the deserializer never see a key outside the
  prefix, also when a start key is set, and errors of the database before the cut come through.
\<close>

theorem execute_prefix_gather:
  fixes cfg :: "('c, 'k, 'v) iter_config"
  assumes "cfg_prefix cfg = Some p" and "cfg_mode cfg = Deserialize de"
    and "base_iter cfg gen pre (Some (as_bytes p)) (map_option as_bytes (cfg_start cfg)) = Inr raw"
  shows "\<exists>it it'. execute cfg gen pre = (Inr (DeserializedItems it), cfg_env cfg)
     \<and> try_collect controlled_next it
         = Some (fst (gather (cfg_control cfg) de (takeWhile (in_prefix (as_bytes p)) raw) (cfg_env cfg) 0), it')
     \<and> ci_env it'
         = snd (gather (cfg_control cfg) de (takeWhile (in_prefix (as_bytes p)) raw) (cfg_env cfg) 0)"
  using assms
    collect_gather [of "\<lparr>ci_raw = raw, ci_control = effective_control (Some (as_bytes p)) (cfg_control cfg),
      ci_deserializer = de, ci_items_kept_count = 0, ci_env = cfg_env cfg\<rparr>"]
  by (simp add: execute_def run_mode_def gather_visible)

text \<open>The configuration of the witness: prefix \<open>[1]\<close>, control that skips keys of one byte.\<close>

definition sample_rows :: "kv list" where
  "sample_rows = [([1], [10]), ([1, 2], [11]), ([1, 3], [12]), ([2], [13])]"

definition sample_cfg :: "(nat, bytes, bytes) iter_config" where
  "sample_cfg = new_deserializing ''cf'' (Some (KVec [1])) None False
     (Some (\<lambda>c k v n. (if length k = 1 then Skip else Keep, Suc c))) copy_item 0"

theorem execute_prefix_gather_witness:
  "\<exists>it it'. execute sample_cfg (\<lambda>_. Inl TransactionRequired) (\<lambda>p. Inr (map Inr sample_rows))
       = (Inr (DeserializedItems it), 0)
     \<and> try_collect controlled_next it = Some (Inr [([1, 2], [11]), ([1, 3], [12])], it')
     \<and> ci_env it' = 3"
proof -
  have raw: "base_iter sample_cfg (\<lambda>_. Inl TransactionRequired) (\<lambda>p. Inr (map Inr sample_rows))
      (Some (as_bytes (KVec [1]))) (map_option as_bytes (cfg_start sample_cfg)) = Inr (map Inr sample_rows)"
    by (simp add: base_iter_def sample_cfg_def new_deserializing_def)
  have g: "gather (cfg_control sample_cfg) copy_item
      (takeWhile (in_prefix (as_bytes (KVec [1]))) (map Inr sample_rows)) (cfg_env sample_cfg) 0
      = (Inr [([1, 2], [11]), ([1, 3], [12])], 3)"
    by (simp add: sample_cfg_def new_deserializing_def sample_rows_def copy_item_def)
  have cfg: "cfg_env sample_cfg = 0" "cfg_prefix sample_cfg = Some (KVec [1])"
      "cfg_mode sample_cfg = Deserialize copy_item"
    by (simp_all add: sample_cfg_def new_deserializing_def)
  from execute_prefix_gather [OF cfg(2,3) raw] show ?thesis
    unfolding g unfolding cfg(1) by simp
qed


text \<open>
  Raw iteration. \<open>execute\<close> in raw mode returns an iterator whose drawing ends; every pair that it
  gives is a row that the database iterator gave, and has the configured prefix, if there is one.
\<close>

theorem execute_raw_items:
  fixes cfg :: "('c, 'k, 'v) iter_config"
  assumes "cfg_mode cfg = Raw"
    and "base_iter cfg gen pre (map_option as_bytes (cfg_prefix cfg))
           (map_option as_bytes (cfg_start cfg)) = Inr raw"
  shows "\<exists>it r it'. execute cfg gen pre = (Inr (RawItems it), cfg_env cfg)
     \<and> try_collect raw_next it = Some (r, it')
     \<and> (\<forall>xs x. r = Inr xs \<longrightarrow> x \<in> set xs \<longrightarrow>
          Inr x \<in> set raw \<and> (\<forall>p. cfg_prefix cfg = Some p \<longrightarrow> has_prefix (as_bytes p) (fst x)))"
proof -
  define vis where "vis = visible (map_option as_bytes (cfg_prefix cfg)) raw"
  define it where "it = \<lparr>ri_raw = raw,
    ri_control = effective_control (map_option as_bytes (cfg_prefix cfg)) (cfg_control cfg),
    ri_items_kept_count = 0, ri_env = cfg_env cfg\<rparr>"
  have ex: "execute cfg gen pre = (Inr (RawItems it), cfg_env cfg)"
    using assms by (simp add: execute_def run_mode_def it_def)
  define r where "r = fst (gather (cfg_control cfg) copy_item vis (cfg_env cfg) 0)"
  obtain it' where co: "try_collect raw_next it = Some (r, it')"
    using collect_raw [of it] by (auto simp: it_def gather_visible vis_def r_def)
  have "Inr x \<in> set raw \<and> (\<forall>p. cfg_prefix cfg = Some p \<longrightarrow> has_prefix (as_bytes p) (fst x))"
    if "r = Inr xs" "x \<in> set xs" for xs x
  proof -
    have "Inr x \<in> set vis" using that unfolding r_def by (rule gather_copy_subset)
    then show ?thesis
      unfolding vis_def by (metis option.map(2) visible_prefix visible_subset)
  qed
  with ex co show ?thesis by blast
qed

theorem execute_raw_items_witness:
  "\<exists>it r it'. execute (new_raw ''cf'' (Some (KVec [1])) None False None ()) (\<lambda>_. Inl TransactionRequired)
        (\<lambda>p. Inr (map Inr sample_rows)) = (Inr (RawItems it), ())
     \<and> try_collect raw_next it = Some (r, it')
     \<and> (\<forall>xs x. r = Inr xs \<longrightarrow> x \<in> set xs \<longrightarrow> Inr x \<in> set (map Inr sample_rows :: kv_item list)
          \<and> has_prefix [1] (fst x))"
  using execute_raw_items [of "new_raw ''cf'' (Some (KVec [1])) None False None ()"
      "\<lambda>_. Inl TransactionRequired" "\<lambda>p. Inr (map Inr sample_rows)" "map Inr sample_rows"]
  by (simp add: new_raw_def base_iter_def)

text \<open>
  The counter that the control function gets. A control function that keeps while the counter is
  below \<open>m\<close> makes a raw iteration over the rows of the database end with exactly the first
  \<open>m\<close> rows, for every \<open>m\<close> that a \<open>usize\<close> holds.
\<close>

theorem raw_limit:
  assumes "m < 2 ^ 64"
  shows "map_option fst (try_collect raw_next
      \<lparr>ri_raw = map Inr rows, ri_control = Some (limit_control m), ri_items_kept_count = 0, ri_env = c\<rparr>)
    = Some (Inr (take m rows))"
  using collect_raw [of "\<lparr>ri_raw = map Inr rows, ri_control = Some (limit_control m),
      ri_items_kept_count = 0, ri_env = c\<rparr>"] gather_limit [of 0 m rows c] assms
  by auto

theorem raw_limit_witness:
  "map_option fst (try_collect raw_next
      \<lparr>ri_raw = map Inr sample_rows, ri_control = Some (limit_control 2), ri_items_kept_count = 0,
       ri_env = ()\<rparr>)
    = Some (Inr [([1], [10]), ([1, 2], [11])])"
  using raw_limit [of 2 sample_rows "()"] by (simp add: sample_rows_def)

text \<open>
  Control-only iteration calls the control function on exactly the rows, with exactly the
  counters, on which an iteration with a deserializer that never fails calls it, and ends with the
  same database error, if there is one: without rows to return, only the effect and the error stay.
\<close>

theorem control_only_as_gather:
  "control_only_loop f raw c n
     = (map_ok (\<lambda>_. ()) (fst (gather (Some f) copy_item raw c n)), snd (gather (Some f) copy_item raw c n))"
  by (induction f raw c n rule: control_only_loop.induct)
     (auto simp: copy_item_def map_ok_def split: prod.splits iteration_control_decision.splits sum.splits)

text \<open>
  A control-only configuration that has neither a control function nor a prefix (its fields are
  public, only the constructor insists on a control function) runs through all items and reports
  success, even where the database iterator gave an error.
\<close>

theorem control_only_ignores_errors:
  assumes "cfg_mode cfg = ControlOnly" and "cfg_control cfg = None"
    and "cfg_prefix cfg = None" and "gen (choose_mode (cfg_reverse cfg)
           (map_option as_bytes (cfg_start cfg)) None) = Inr raw"
  shows "execute cfg gen pre = (Inr EffectCompleted, cfg_env cfg)"
  using assms by (simp add: execute_def run_mode_def base_iter_def)

theorem control_only_ignores_errors_witness:
  "execute (new_control_only ''cf'' None None False (\<lambda>c k v n. (Keep, c)) () \<lparr>cfg_control := None\<rparr>)
     (\<lambda>_. Inr [Inl ''Corruption'']) (\<lambda>_. Inl TransactionRequired) = (Inr EffectCompleted, ())"
  using control_only_ignores_errors
    [of "new_control_only ''cf'' None None False (\<lambda>c k v n. (Keep, c)) () \<lparr>cfg_control := None\<rparr>"
      "\<lambda>_. Inr [Inl ''Corruption'']" "[Inl ''Corruption'']" "\<lambda>_. Inl TransactionRequired"]
  by (simp add: new_control_only_def)

end
