(* ===== verification/CF_Store.thy ===== *)
theory CF_Store
  imports Iteration
begin

text \<open>
  \<open>src/cf_store.rs\<close>: the read, write and find operations of \<open>RocksDbCFStore\<close>, the
  implementation of the trait \<open>CFOperations\<close> that the other stores build on.

  The store is the database behind it, so an operation takes the interface \<open>A\<close> of the database and
  its state \<open>s\<close>; a write returns its result and the new state. The branch on the name of the default
  column family, which the source repeats in every operation, is \<open>target_of\<close>.

  The abstract state is the view of the database (\<open>m_view\<close>): which value each key of each column
  family has. The locale \<open>cf_operations\<close> is the contract of the trait over that view, with the
  lemmas that any client of the trait may use; the store is interpreted in it.
\<close>

section \<open>Column families\<close>

definition get_cf_handle :: "('s, 'h) rocks_api \<Rightarrow> 's \<Rightarrow> string \<Rightarrow> 'h store_result" where
  "get_cf_handle A s cf_name = ok_or (UnknownCf cf_name) (api_cf_handle A s cf_name)"

definition target_of :: "('s, 'h) rocks_api \<Rightarrow> 's \<Rightarrow> string \<Rightarrow> 'h target store_result" where
  "target_of A s cf_name =
     (if cf_name = DEFAULT_COLUMN_FAMILY_NAME then Inr DefaultCf
      else and_then (get_cf_handle A s cf_name) (\<lambda>handle. Inr (Cf handle)))"

text \<open>A write call on a target: an unknown column family is an error and no call is made.\<close>

definition write_on ::
    "'h target store_result \<Rightarrow> 's \<Rightarrow> ('h target \<Rightarrow> 's effect) \<Rightarrow> unit store_result \<times> 's" where
  "write_on t s call =
     (case t of
        Inl e \<Rightarrow> (Inl e, s)
      | Inr target \<Rightarrow> (case call target of (r, s1) \<Rightarrow> (map_err RocksDb r, s1)))"

text \<open>A fallible preparation step before a write.\<close>

definition prepare :: "'a store_result \<Rightarrow> 's \<Rightarrow> ('a \<Rightarrow> 'b store_result \<times> 's) \<Rightarrow> 'b store_result \<times> 's" where
  "prepare r s go = (case r of Inl e \<Rightarrow> (Inl e, s) | Inr a \<Rightarrow> go a)"

lemma prepare_simps [simp]: "prepare (Inl e) s go = (Inl e, s)" "prepare (Inr a) s go = go a"
  by (simp_all add: prepare_def)

section \<open>Read operations\<close>

definition get :: "('s, 'h) rocks_api \<Rightarrow> 'v codec \<Rightarrow> 's \<Rightarrow> string \<Rightarrow> key \<Rightarrow> 'v option store_result" where
  "get A c s cf_name key =
     and_then (serialize_key key) (\<lambda>ser_key.
     and_then (target_of A s cf_name) (\<lambda>target.
     and_then (map_err RocksDb (api_get A s target ser_key)) (\<lambda>opt_bytes.
       opt_try (deserialize_value c) opt_bytes)))"

definition get_raw :: "('s, 'h) rocks_api \<Rightarrow> 's \<Rightarrow> string \<Rightarrow> key \<Rightarrow> bytes option store_result" where
  "get_raw A s cf_name key =
     and_then (serialize_key key) (\<lambda>ser_key.
     and_then (target_of A s cf_name) (\<lambda>target.
       map_err RocksDb (api_get A s target ser_key)))"

definition get_with_expiry ::
    "('s, 'h) rocks_api \<Rightarrow> 's \<Rightarrow> string \<Rightarrow> key \<Rightarrow> value_with_expiry option store_result" where
  "get_with_expiry A s cf_name key =
     and_then (get_raw A s cf_name key) (\<lambda>opt_bytes. opt_try vwe_from_slice opt_bytes)"

definition exists :: "('s, 'h) rocks_api \<Rightarrow> 's \<Rightarrow> string \<Rightarrow> key \<Rightarrow> bool store_result" where
  "exists A s cf_name key =
     and_then (serialize_key key) (\<lambda>ser_key.
     and_then (target_of A s cf_name) (\<lambda>target.
       map_err RocksDb (map_ok (\<lambda>x. x \<noteq> None) (api_get A s target ser_key))))"

text \<open>
  In \<open>multiget\<close> the fallback of the outer \<open>map_or\<close> also catches an error of the database: that
  key is reported as absent.
\<close>

definition multiget ::
    "('s, 'h) rocks_api \<Rightarrow> 'v codec \<Rightarrow> 's \<Rightarrow> string \<Rightarrow> key list \<Rightarrow> 'v option list store_result" where
  "multiget A c s cf_name keys =
     (if keys = [] then Inr []
      else
        and_then (collect_ok (map serialize_key keys)) (\<lambda>serialized_keys_refs.
        and_then (target_of A s cf_name) (\<lambda>target.
          collect_ok
            (map (\<lambda>opt_db_val.
               case opt_db_val of
                 Inl _ \<Rightarrow> Inr None
               | Inr db_val_res \<Rightarrow> opt_try (deserialize_value c) db_val_res)
             (api_multi_get A s target serialized_keys_refs)))))"

definition multiget_raw ::
    "('s, 'h) rocks_api \<Rightarrow> 's \<Rightarrow> string \<Rightarrow> key list \<Rightarrow> bytes option list store_result" where
  "multiget_raw A s cf_name keys =
     (if keys = [] then Inr []
      else
        and_then (collect_ok (map serialize_key keys)) (\<lambda>serialized_keys_refs.
        and_then (target_of A s cf_name) (\<lambda>target.
          map_err RocksDb (collect_ok (api_multi_get A s target serialized_keys_refs)))))"

definition multiget_with_expiry ::
    "('s, 'h) rocks_api \<Rightarrow> 's \<Rightarrow> string \<Rightarrow> key list \<Rightarrow> value_with_expiry option list store_result" where
  "multiget_with_expiry A s cf_name keys =
     and_then (multiget_raw A s cf_name keys) (\<lambda>raw_results.
       collect_ok (map (opt_try vwe_from_slice) raw_results))"

section \<open>Write operations\<close>

definition put ::
    "('s, 'h) rocks_api \<Rightarrow> 'v codec \<Rightarrow> 's \<Rightarrow> string \<Rightarrow> key \<Rightarrow> 'v \<Rightarrow> unit store_result \<times> 's" where
  "put A c s cf_name key val =
     prepare (serialize_key key) s (\<lambda>ser_key.
     prepare (serialize_value c val) s (\<lambda>ser_val.
       write_on (target_of A s cf_name) s (\<lambda>target. api_put A s target ser_key ser_val)))"

definition put_raw ::
    "('s, 'h) rocks_api \<Rightarrow> 's \<Rightarrow> string \<Rightarrow> key \<Rightarrow> bytes \<Rightarrow> unit store_result \<times> 's" where
  "put_raw A s cf_name key raw_val =
     prepare (serialize_key key) s (\<lambda>ser_key.
       write_on (target_of A s cf_name) s (\<lambda>target. api_put A s target ser_key raw_val))"

definition put_with_expiry ::
    "('s, 'h) rocks_api \<Rightarrow> 'v codec \<Rightarrow> 's \<Rightarrow> string \<Rightarrow> key \<Rightarrow> 'v \<Rightarrow> u64 \<Rightarrow> unit store_result \<times> 's" where
  "put_with_expiry A c s cf_name key val t =
     prepare (vwe_from_value c t val) s (\<lambda>vwe. put_raw A s cf_name key (serialize_for_storage vwe))"

definition delete :: "('s, 'h) rocks_api \<Rightarrow> 's \<Rightarrow> string \<Rightarrow> key \<Rightarrow> unit store_result \<times> 's" where
  "delete A s cf_name key =
     prepare (serialize_key key) s (\<lambda>ser_key.
       write_on (target_of A s cf_name) s (\<lambda>target. api_delete A s target ser_key))"

definition delete_range ::
    "('s, 'h) rocks_api \<Rightarrow> 's \<Rightarrow> string \<Rightarrow> key \<Rightarrow> key \<Rightarrow> unit store_result \<times> 's" where
  "delete_range A s cf_name start_key end_key =
     prepare (serialize_key start_key) s (\<lambda>sk_start.
     prepare (serialize_key end_key) s (\<lambda>sk_end.
       write_on (target_of A s cf_name) s (\<lambda>target. api_write A s [BDeleteRange target sk_start sk_end])))"

definition merge ::
    "('s, 'h) rocks_api \<Rightarrow> 'p merge_value codec \<Rightarrow> 's \<Rightarrow> string \<Rightarrow> key \<Rightarrow> 'p merge_value
     \<Rightarrow> unit store_result \<times> 's" where
  "merge A c s cf_name key merge_val =
     prepare (serialize_key key) s (\<lambda>ser_key.
     prepare (serialize_value c merge_val) s (\<lambda>ser_merge_op.
       write_on (target_of A s cf_name) s (\<lambda>target. api_merge A s target ser_key ser_merge_op)))"

definition merge_raw ::
    "('s, 'h) rocks_api \<Rightarrow> 's \<Rightarrow> string \<Rightarrow> key \<Rightarrow> bytes \<Rightarrow> unit store_result \<times> 's" where
  "merge_raw A s cf_name key raw_merge_operand =
     prepare (serialize_key key) s (\<lambda>ser_key.
       write_on (target_of A s cf_name) s (\<lambda>target. api_merge A s target ser_key raw_merge_operand))"

definition merge_with_expiry ::
    "('s, 'h) rocks_api \<Rightarrow> 'v codec \<Rightarrow> 's \<Rightarrow> string \<Rightarrow> key \<Rightarrow> 'v \<Rightarrow> u64 \<Rightarrow> unit store_result \<times> 's" where
  "merge_with_expiry A c s cf_name key val t =
     prepare (vwe_from_value c t val) s (\<lambda>vwe. merge_raw A s cf_name key (serialize_for_storage vwe))"

section \<open>Iterator and find operations\<close>

definition general_iterator_factory :: "('s, 'h) rocks_api \<Rightarrow> 's \<Rightarrow> string \<Rightarrow> general_factory" where
  "general_iterator_factory A s cf_name mode =
     map_ok (\<lambda>target. api_iterator A s target mode) (target_of A s cf_name)"

definition prefix_iterator_factory :: "('s, 'h) rocks_api \<Rightarrow> 's \<Rightarrow> string \<Rightarrow> prefix_factory" where
  "prefix_iterator_factory A s cf_name prefix_bytes =
     map_ok (\<lambda>target. api_prefix_iterator A s target prefix_bytes) (target_of A s cf_name)"

definition iterate ::
    "('s, 'h) rocks_api \<Rightarrow> 's \<Rightarrow> ('c, 'k, 'v) iter_config
     \<Rightarrow> ('c, 'k, 'v) iteration_result store_result \<times> 'c" where
  "iterate A s cfg =
     execute cfg (general_iterator_factory A s (cfg_cf_name cfg))
       (prefix_iterator_factory A s (cfg_cf_name cfg))"

text \<open>
  The tail of the find operations: draw the deserialized items to the end. The outer option is
  \<open>try_collect\<close>'s. The second component is the state of the closures afterwards.
\<close>

definition collect_items ::
    "string \<Rightarrow> ('c, 'k, 'v) iteration_result store_result \<times> 'c \<Rightarrow> (('k \<times> 'v) list store_result \<times> 'c) option" where
  "collect_items who r =
     (case r of
        (Inr (DeserializedItems iter), _) \<Rightarrow>
          map_option (\<lambda>(items, it). (items, ci_env it)) (try_collect controlled_next iter)
      | (Inr _, c) \<Rightarrow> Some (Inl (Other (who @ '': Expected DeserializedItems'')), c)
      | (Inl e, c) \<Rightarrow> Some (Inl e, c))"

definition kv_deserializer ::
    "(bytes \<Rightarrow> (string, 'k) result) \<Rightarrow> 'v codec \<Rightarrow> ('c, 'k, 'v) deserializer" where
  "kv_deserializer dec c env k_bytes v_bytes = (deserialize_kv dec c k_bytes v_bytes, env)"

definition kv_expiry_deserializer ::
    "(bytes \<Rightarrow> (string, 'k) result) \<Rightarrow> ('c, 'k, value_with_expiry) deserializer" where
  "kv_expiry_deserializer dec env k_bytes v_bytes = (deserialize_kv_expiry dec k_bytes v_bytes, env)"

definition find_by_prefix ::
    "('s, 'h) rocks_api \<Rightarrow> (bytes \<Rightarrow> (string, 'k) result) \<Rightarrow> 'v codec \<Rightarrow> 's \<Rightarrow> string \<Rightarrow> key \<Rightarrow> direction
     \<Rightarrow> ('k \<times> 'v) list store_result option" where
  "find_by_prefix A dec c s cf_name prefix direction =
     map_option fst (collect_items ''find_by_prefix''
       (iterate A s
         (new_deserializing cf_name (Some prefix) None (direction = Reverse) None
           (kv_deserializer dec c) ())))"

definition find_from ::
    "('s, 'h) rocks_api \<Rightarrow> (bytes \<Rightarrow> (string, 'k) result) \<Rightarrow> 'v codec \<Rightarrow> 's \<Rightarrow> string \<Rightarrow> key \<Rightarrow> direction
     \<Rightarrow> 'c control \<Rightarrow> 'c \<Rightarrow> (('k \<times> 'v) list store_result \<times> 'c) option" where
  "find_from A dec c s cf_name start_key direction control_fn env =
     collect_items ''find_from''
       (iterate A s
         (new_deserializing cf_name None (Some start_key) (direction = Reverse) (Some control_fn)
           (kv_deserializer dec c) env))"

text \<open>The two operations with expiry return the text of the error.\<close>

definition collect_items_text ::
    "string \<Rightarrow> ('c, 'k, 'v) iteration_result store_result \<times> 'c
     \<Rightarrow> ((string, ('k \<times> 'v) list) result \<times> 'c) option" where
  "collect_items_text who r =
     (case r of
        (Inr (DeserializedItems iter), _) \<Rightarrow>
          map_option (\<lambda>(items, it). (map_err display items, ci_env it)) (try_collect controlled_next iter)
      | (Inr _, c) \<Rightarrow> Some (Inl (who @ '': Expected DeserializedItems from iteration''), c)
      | (Inl e, c) \<Rightarrow> Some (Inl (display e), c))"

definition find_from_with_expire_val ::
    "('s, 'h) rocks_api \<Rightarrow> (bytes \<Rightarrow> (string, 'k) result) \<Rightarrow> 's \<Rightarrow> string \<Rightarrow> key \<Rightarrow> bool
     \<Rightarrow> 'c control \<Rightarrow> 'c \<Rightarrow> ((string, ('k \<times> value_with_expiry) list) result \<times> 'c) option" where
  "find_from_with_expire_val A dec s cf_name start reverse control_fn env =
     collect_items_text ''find_from_with_expire_val''
       (iterate A s
         (new_deserializing cf_name None (Some start) reverse (Some control_fn)
           (kv_expiry_deserializer dec) env))"

definition find_by_prefix_with_expire_val ::
    "('s, 'h) rocks_api \<Rightarrow> (bytes \<Rightarrow> (string, 'k) result) \<Rightarrow> 's \<Rightarrow> string \<Rightarrow> key \<Rightarrow> bool
     \<Rightarrow> 'c control \<Rightarrow> 'c \<Rightarrow> ((string, ('k \<times> value_with_expiry) list) result \<times> 'c) option" where
  "find_by_prefix_with_expire_val A dec s cf_name prefix_key reverse control_fn env =
     collect_items_text ''find_by_prefix_with_expire_val''
       (iterate A s
         (new_deserializing cf_name (Some prefix_key) None reverse (Some control_fn)
           (kv_expiry_deserializer dec) env))"


section \<open>Lemmas\<close>

lemma get_cf_handle_eq_Inr [simp]: "get_cf_handle A s cf = Inr h \<longleftrightarrow> api_cf_handle A s cf = Some h"
  by (simp add: get_cf_handle_def)

lemma target_of_default [simp]: "target_of A s DEFAULT_COLUMN_FAMILY_NAME = Inr DefaultCf"
  by (simp add: target_of_def)

lemma target_of_unknown [guard_simps]:
  "cf \<noteq> DEFAULT_COLUMN_FAMILY_NAME \<Longrightarrow> api_cf_handle A s cf = None \<Longrightarrow>
     target_of A s cf = Inl (UnknownCf cf)"
  by (simp add: target_of_def get_cf_handle_def)

lemma target_of_name: "rocks_contract A M \<Longrightarrow> target_of A s cf = Inr t \<Longrightarrow> target_name M t = cf"
  by (auto simp: target_of_def and_then_eq_Inr dest: contract_handle split: if_splits)

lemma write_on_effect:
  assumes "\<And>x. t = Inr x \<Longrightarrow> effect_ok A M s (call x) w"
  shows "m_view M (snd (write_on t s call))
    = (case fst (write_on t s call) of Inr _ \<Rightarrow> w | Inl _ \<Rightarrow> m_view M s)"
proof (cases t)
  case (Inl e)
  then show ?thesis by (simp add: write_on_def)
next
  case (Inr x)
  have "effect_ok A M s (call x) w" by (rule assms [OF Inr])
  moreover obtain r s1 where "call x = (r, s1)" by fastforce
  ultimately show ?thesis
    using Inr by (cases r) (simp_all add: write_on_def effect_ok_def)
qed

lemma write_on_view:
  assumes "rocks_contract A M"
    and "\<And>t. target_name M t = cf \<Longrightarrow> effect_ok A M s (call t) w"
  shows "m_view M (snd (write_on (target_of A s cf) s call))
    = (case fst (write_on (target_of A s cf) s call) of Inr _ \<Rightarrow> w | Inl _ \<Rightarrow> m_view M s)"
  by (rule write_on_effect, rule assms(2), rule target_of_name [OF assms(1)])

lemma contract_delete_range:
  "rocks_contract A M \<Longrightarrow>
     effect_ok A M s (api_write A s [BDeleteRange t a b]) (clear_range (m_view M s) (target_name M t) a b)"
  using contract_write [of A M s "[BDeleteRange t a b]"] by (simp add: apply_ops_def)

subsection \<open>The write operations as one\<close>

text \<open>A call of a write operation, and what it is meant to do to the view when it succeeds.\<close>

datatype ('v, 'p) write_call =
    WPut string key 'v
  | WPutRaw string key bytes
  | WPutWithExpiry string key 'v u64
  | WDelete string key
  | WDeleteRange string key key
  | WMerge string key "'p merge_value"
  | WMergeRaw string key bytes
  | WMergeWithExpiry string key 'v u64

fun run_write ::
    "('s, 'h) rocks_api \<Rightarrow> 'v codec \<Rightarrow> 'p merge_value codec \<Rightarrow> 's \<Rightarrow> ('v, 'p) write_call
     \<Rightarrow> unit store_result \<times> 's" where
  "run_write A cv cp s (WPut cf k v) = put A cv s cf k v"
| "run_write A cv cp s (WPutRaw cf k bs) = put_raw A s cf k bs"
| "run_write A cv cp s (WPutWithExpiry cf k v t) = put_with_expiry A cv s cf k v t"
| "run_write A cv cp s (WDelete cf k) = delete A s cf k"
| "run_write A cv cp s (WDeleteRange cf a b) = delete_range A s cf a b"
| "run_write A cv cp s (WMerge cf k p) = merge A cp s cf k p"
| "run_write A cv cp s (WMergeRaw cf k bs) = merge_raw A s cf k bs"
| "run_write A cv cp s (WMergeWithExpiry cf k v t) = merge_with_expiry A cv s cf k v t"

definition with_expiry :: "u64 \<Rightarrow> bytes \<Rightarrow> bytes" where
  "with_expiry t raw = to_be_bytes t @ raw"

definition merged ::
    "('s, 'h) rocks_meaning \<Rightarrow> kv_view \<Rightarrow> string \<Rightarrow> bytes \<Rightarrow> bytes \<Rightarrow> kv_view" where
  "merged M w cf k x = upd w cf k (m_merge M cf k (w cf k) x)"

text \<open>The stored bytes are those of the codec; a value that has none is never stored.\<close>

fun write_effect ::
    "('s, 'h) rocks_meaning \<Rightarrow> 'v codec \<Rightarrow> 'p merge_value codec \<Rightarrow> kv_view \<Rightarrow> ('v, 'p) write_call
     \<Rightarrow> kv_view" where
  "write_effect M cv cp w (WPut cf k v) =
     (case codec_ser cv v of Inl _ \<Rightarrow> w | Inr bs \<Rightarrow> upd w cf (as_bytes k) (Some bs))"
| "write_effect M cv cp w (WPutRaw cf k bs) = upd w cf (as_bytes k) (Some bs)"
| "write_effect M cv cp w (WPutWithExpiry cf k v t) =
     (case codec_ser cv v of Inl _ \<Rightarrow> w | Inr bs \<Rightarrow> upd w cf (as_bytes k) (Some (with_expiry t bs)))"
| "write_effect M cv cp w (WDelete cf k) = upd w cf (as_bytes k) None"
| "write_effect M cv cp w (WDeleteRange cf a b) = clear_range w cf (as_bytes a) (as_bytes b)"
| "write_effect M cv cp w (WMerge cf k p) =
     (case codec_ser cp p of Inl _ \<Rightarrow> w | Inr bs \<Rightarrow> merged M w cf (as_bytes k) bs)"
| "write_effect M cv cp w (WMergeRaw cf k bs) = merged M w cf (as_bytes k) bs"
| "write_effect M cv cp w (WMergeWithExpiry cf k v t) =
     (case codec_ser cv v of Inl _ \<Rightarrow> w | Inr bs \<Rightarrow> merged M w cf (as_bytes k) (with_expiry t bs))"

text \<open>The view after a write that reported \<open>r\<close>.\<close>

definition outcome :: "kv_view \<Rightarrow> 'a store_result \<Rightarrow> kv_view \<Rightarrow> kv_view" where
  "outcome w r w' = (case r of Inr _ \<Rightarrow> w' | Inl _ \<Rightarrow> w)"

lemma put_raw_view:
  "rocks_contract A M \<Longrightarrow> m_view M (snd (put_raw A s cf k bs))
     = outcome (m_view M s) (fst (put_raw A s cf k bs)) (upd (m_view M s) cf (as_bytes k) (Some bs))"
  unfolding outcome_def put_raw_def serialize_key_simp prepare_simps
  by (rule write_on_view) (auto dest: contract_put)

lemma delete_view:
  "rocks_contract A M \<Longrightarrow> m_view M (snd (delete A s cf k))
     = outcome (m_view M s) (fst (delete A s cf k)) (upd (m_view M s) cf (as_bytes k) None)"
  unfolding outcome_def delete_def serialize_key_simp prepare_simps
  by (rule write_on_view) (auto dest: contract_delete)

lemma delete_range_view:
  "rocks_contract A M \<Longrightarrow> m_view M (snd (delete_range A s cf a b))
     = outcome (m_view M s) (fst (delete_range A s cf a b))
         (clear_range (m_view M s) cf (as_bytes a) (as_bytes b))"
  unfolding outcome_def delete_range_def serialize_key_simp prepare_simps
  by (rule write_on_view) (auto dest: contract_delete_range)

lemma merge_raw_view:
  "rocks_contract A M \<Longrightarrow> m_view M (snd (merge_raw A s cf k bs))
     = outcome (m_view M s) (fst (merge_raw A s cf k bs)) (merged M (m_view M s) cf (as_bytes k) bs)"
  unfolding outcome_def merged_def merge_raw_def serialize_key_simp prepare_simps
  by (rule write_on_view) (auto dest: contract_merge)

lemma put_eq_put_raw: "put A c s cf k v = prepare (serialize_value c v) s (put_raw A s cf k)"
  by (simp add: put_def put_raw_def [abs_def])

lemma merge_eq_merge_raw: "merge A c s cf k p = prepare (serialize_value c p) s (merge_raw A s cf k)"
  by (simp add: merge_def merge_raw_def [abs_def])

lemma run_write_view:
  assumes "rocks_contract A M"
  shows "m_view M (snd (run_write A cv cp s w))
    = outcome (m_view M s) (fst (run_write A cv cp s w)) (write_effect M cv cp (m_view M s) w)"
  by (cases w)
     (auto simp: put_eq_put_raw merge_eq_merge_raw put_with_expiry_def merge_with_expiry_def
       serialize_value_def vwe_from_value_def serialize_for_storage_def with_expiry_def
       put_raw_view [OF assms] delete_view [OF assms] delete_range_view [OF assms]
       merge_raw_view [OF assms] outcome_def split: sum.splits)

lemma get_eq_get_raw: "get A c s cf k = and_then (get_raw A s cf k) (opt_try (deserialize_value c))"
proof (cases "target_of A s cf")
  case (Inr t)
  then show ?thesis
    by (cases "api_get A s t (as_bytes k)") (simp_all add: get_def get_raw_def)
qed (simp add: get_def get_raw_def)

lemma get_raw_view: "rocks_contract A M \<Longrightarrow> get_raw A s cf k = Inr x \<Longrightarrow> x = m_view M s cf (as_bytes k)"
  by (auto simp: get_raw_def and_then_eq_Inr dest: target_of_name contract_get)

lemma exists_eq_get_raw: "exists A s cf k = map_ok (\<lambda>x. x \<noteq> None) (get_raw A s cf k)"
proof (cases "target_of A s cf")
  case (Inr t)
  then show ?thesis
    by (cases "api_get A s t (as_bytes k)") (simp_all add: exists_def get_raw_def)
qed (simp add: exists_def get_raw_def)


section \<open>The contract of the trait\<close>

text \<open>
  What a client of \<open>CFOperations\<close> relies on: a read that succeeds shows the view, a write that
  succeeds changes it at its key and nowhere else, and a write that fails changes nothing.
  \<open>valid\<close> stands for the promises of the database underneath.
\<close>

locale cf_operations =
  fixes valid :: bool
    and view :: "'s \<Rightarrow> string \<Rightarrow> bytes \<Rightarrow> bytes option"
    and fetch :: "'s \<Rightarrow> string \<Rightarrow> key \<Rightarrow> bytes option store_result"
    and assign :: "'s \<Rightarrow> string \<Rightarrow> key \<Rightarrow> bytes \<Rightarrow> unit store_result \<times> 's"
    and erase :: "'s \<Rightarrow> string \<Rightarrow> key \<Rightarrow> unit store_result \<times> 's"
  assumes read_view: "valid \<Longrightarrow> fetch s cf k = Inr x \<Longrightarrow> x = view s cf (as_bytes k)"
    and write_view: "valid \<Longrightarrow> view (snd (assign s cf k bs))
          = outcome (view s) (fst (assign s cf k bs)) (upd (view s) cf (as_bytes k) (Some bs))"
    and remove_view: "valid \<Longrightarrow> view (snd (erase s cf k))
          = outcome (view s) (fst (erase s cf k)) (upd (view s) cf (as_bytes k) None)"
begin

lemma read_after_write:
  "valid \<Longrightarrow> assign s cf k bs = (Inr (), s1) \<Longrightarrow> fetch s1 cf k = Inr x \<Longrightarrow> x = Some bs"
  using write_view [of s cf k bs] read_view [of s1 cf k x] by (simp add: outcome_def)

lemma read_after_remove:
  "valid \<Longrightarrow> erase s cf k = (Inr (), s1) \<Longrightarrow> fetch s1 cf k = Inr x \<Longrightarrow> x = None"
  using remove_view [of s cf k] read_view [of s1 cf k x] by (simp add: outcome_def)

lemma read_other_after_write:
  "valid \<Longrightarrow> assign s cf k bs = (r, s1) \<Longrightarrow> cf' \<noteq> cf \<or> as_bytes k' \<noteq> as_bytes k \<Longrightarrow>
     fetch s cf' k' = Inr x \<Longrightarrow> fetch s1 cf' k' = Inr y \<Longrightarrow> x = y"
  using write_view [of s cf k bs] read_view [of s cf' k' x] read_view [of s1 cf' k' y]
  by (auto simp: outcome_def upd_def split: sum.splits)

lemma read_after_failed_write:
  "valid \<Longrightarrow> assign s cf k bs = (Inl e, s1) \<Longrightarrow> fetch s cf' k' = Inr x \<Longrightarrow> fetch s1 cf' k' = Inr y
     \<Longrightarrow> x = y"
  using write_view [of s cf k bs] read_view [of s cf' k' x] read_view [of s1 cf' k' y]
  by (simp add: outcome_def)

end

interpretation store: cf_operations "rocks_contract A M" "m_view M" "get_raw A" "put_raw A" "delete A"
  for A :: "('s, 'h) rocks_api" and M
  by unfold_locales (simp_all add: get_raw_view put_raw_view delete_view)

subsection \<open>Typed values on top of it\<close>

lemma put_eq_Inr:
  "put A c s cf k v = (Inr (), s1) \<longleftrightarrow>
     (\<exists>bs. serialize_value c v = Inr bs \<and> put_raw A s cf k bs = (Inr (), s1))"
  by (simp add: put_eq_put_raw prepare_def split: sum.splits)

lemma put_with_expiry_eq_Inr:
  "put_with_expiry A c s cf k v t = (Inr (), s1) \<longleftrightarrow>
     (\<exists>vwe. vwe_from_value c t v = Inr vwe
        \<and> put_raw A s cf k (serialize_for_storage vwe) = (Inr (), s1))"
  by (simp add: put_with_expiry_def prepare_def split: sum.splits)

lemma opt_try_eq_Inr:
  "opt_try f x = Inr y \<longleftrightarrow>
     (x = None \<and> y = None) \<or> (\<exists>a b. x = Some a \<and> f a = Inr b \<and> y = Some b)"
  by (cases x) auto

lemma get_eq_Inr:
  "get A c s cf k = Inr y \<longleftrightarrow>
     (\<exists>x. get_raw A s cf k = Inr x \<and> opt_try (deserialize_value c) x = Inr y)"
  by (simp add: get_eq_get_raw and_then_eq_Inr)

subsection \<open>Multi-key reads\<close>

lemma collect_keys [simp]: "collect_ok (map serialize_key keys) = Inr (map as_bytes keys)"
  by (induction keys) simp_all

lemma multiget_raw_eq:
  "keys \<noteq> [] \<Longrightarrow> multiget_raw A s cf keys =
     and_then (target_of A s cf)
       (\<lambda>t. map_err RocksDb (collect_ok (api_multi_get A s t (map as_bytes keys))))"
  by (simp add: multiget_raw_def)

lemma multiget_raw_view:
  assumes "rocks_contract A M" and "multiget_raw A s cf keys = Inr xs"
  shows "xs = map (\<lambda>k. m_view M s cf (as_bytes k)) keys"
proof (cases "keys = []")
  case True
  with assms(2) show ?thesis by (simp add: multiget_raw_def)
next
  case False
  with assms(2) obtain t where t: "target_of A s cf = Inr t"
    and xs: "api_multi_get A s t (map as_bytes keys) = map Inr xs"
    by (auto simp: multiget_raw_eq and_then_eq_Inr collect_ok_Inr_iff)
  have "list_all2 (\<lambda>k r. \<forall>x. r = Inr x \<longrightarrow> x = m_view M s (target_name M t) k)
      (map as_bytes keys) (map Inr xs :: (rocks_error, bytes option) result list)"
    using contract_multi_get [OF assms(1), of s t "map as_bytes keys"] xs by simp
  then show ?thesis
    unfolding target_of_name [OF assms(1) t]
    by (simp add: list_all2_map1 list_all2_map2 list_all2_conv_all_nth nth_equalityI)
qed

subsection \<open>What the find operations collect\<close>

lemma collect_execute:
  assumes "cfg_mode cfg = Deserialize de"
    and "base_iter cfg gen pre (map_option as_bytes (cfg_prefix cfg))
           (map_option as_bytes (cfg_start cfg)) = Inr raw"
  shows "collect_items who (execute cfg gen pre)
      = Some (gather (cfg_control cfg) de (visible (map_option as_bytes (cfg_prefix cfg)) raw)
                (cfg_env cfg) 0)"
    and "collect_items_text who (execute cfg gen pre)
      = Some (map_prod (map_err display) id
               (gather (cfg_control cfg) de (visible (map_option as_bytes (cfg_prefix cfg)) raw)
                 (cfg_env cfg) 0))"
proof -
  let ?pre = "map_option as_bytes (cfg_prefix cfg)"
  let ?it = "\<lparr>ci_raw = raw, ci_control = effective_control ?pre (cfg_control cfg),
    ci_deserializer = de, ci_items_kept_count = 0, ci_env = cfg_env cfg\<rparr>"
  let ?g = "gather (cfg_control cfg) de (visible ?pre raw) (cfg_env cfg) 0"
  obtain it' where it': "try_collect controlled_next ?it = Some (fst ?g, it')" "ci_env it' = snd ?g"
    using collect_gather [of ?it] by (auto simp: gather_visible)
  have "execute cfg gen pre = (Inr (DeserializedItems ?it), cfg_env cfg)"
    using assms by (simp add: execute_def run_mode_def)
  with it' show "collect_items who (execute cfg gen pre) = Some ?g"
    and "collect_items_text who (execute cfg gen pre) = Some (map_prod (map_err display) id ?g)"
    by (simp_all add: collect_items_def collect_items_text_def map_prod_def split: prod.splits)
qed

lemma gather_kv:
  "gather None (kv_deserializer dec c) (map Inr rows) env n
     = (collect_ok (map (\<lambda>r. deserialize_kv dec c (fst r) (snd r)) rows), env)"
proof (induction rows arbitrary: n)
  case (Cons r rows)
  obtain k v where "r = (k, v)" by fastforce
  then show ?case
    using Cons by (cases "deserialize_kv dec c k v")
      (simp_all add: kv_deserializer_def map_ok_def and_then_def)
qed simp

lemma takeWhile_in_prefix:
  "takeWhile (in_prefix p) (map Inr rows) = map Inr (takeWhile (\<lambda>r. has_prefix p (fst r)) rows)"
  by (induction rows) auto

lemma prefix_rows:
  assumes "rocks_contract A M" and "iter_contract A M" and "target_of A s cf = Inr t"
    and "api_prefix_iterator A s t p = map Inr rows"
  shows "\<exists>rs. is_rows (m_view M s cf) rs
    \<and> takeWhile (in_prefix p) (map Inr rows) = map Inr (filter (\<lambda>r. has_prefix p (fst r)) rs)"
proof -
  obtain rs rest where rs: "is_rows (m_view M s cf) rs" "filter (\<lambda>r. p \<le> fst r) rs = rows @ rest"
    and rest: "\<forall>r \<in> set rest. \<not> has_prefix p (fst r)"
    using assms target_of_name [OF assms(1,3)] unfolding iter_contract_def by fastforce
  have "takeWhile (\<lambda>r. has_prefix p (fst r)) rows = takeWhile (\<lambda>r. has_prefix p (fst r)) (rows @ rest)"
    using rest by (simp add: takeWhile_append_none)
  also have "\<dots> = filter (\<lambda>r. has_prefix p (fst r)) rs"
    using rs takeWhile_prefix [of rs p] by (simp add: is_rows_def)
  finally show ?thesis using rs(1) by (auto simp: takeWhile_in_prefix)
qed

lemma general_rows:
  assumes "rocks_contract A M" and "iter_contract A M" and "target_of A s cf = Inr t"
    and "api_iterator A s t m = map Inr rows"
  shows "\<exists>rs. is_rows (m_view M s cf) rs \<and> rows = rows_from m rs"
  using assms target_of_name [OF assms(1,3)] unfolding iter_contract_def by blast

lemma find_by_prefix_rows:
  assumes "rocks_contract A M" and "iter_contract A M" and "target_of A s cf = Inr t"
    and "api_prefix_iterator A s t (as_bytes p) = map Inr rows"
  shows "\<exists>rs. is_rows (m_view M s cf) rs
    \<and> find_by_prefix A dec c s cf p dir
        = Some (collect_ok (map (\<lambda>r. deserialize_kv dec c (fst r) (snd r))
            (filter (\<lambda>r. has_prefix (as_bytes p) (fst r)) rs)))"
proof -
  obtain rs where rs: "is_rows (m_view M s cf) rs"
    "takeWhile (in_prefix (as_bytes p)) (map Inr rows)
      = map Inr (filter (\<lambda>r. has_prefix (as_bytes p) (fst r)) rs)"
    using prefix_rows [OF assms] by blast
  define cfg where
    "cfg = new_deserializing cf (Some p) None (dir = Reverse) None (kv_deserializer dec c) ()"
  have "base_iter cfg (general_iterator_factory A s cf) (prefix_iterator_factory A s cf)
      (map_option as_bytes (cfg_prefix cfg)) (map_option as_bytes (cfg_start cfg)) = Inr (map Inr rows)"
    using assms(3,4) by (simp add: cfg_def new_deserializing_def base_iter_def prefix_iterator_factory_def)
  from collect_execute(1) [OF _ this, of "kv_deserializer dec c" "''find_by_prefix''"]
  have "find_by_prefix A dec c s cf p dir
      = Some (collect_ok (map (\<lambda>r. deserialize_kv dec c (fst r) (snd r))
          (filter (\<lambda>r. has_prefix (as_bytes p) (fst r)) rs)))"
    by (simp add: find_by_prefix_def iterate_def cfg_def new_deserializing_def rs(2) gather_kv)
  with rs(1) show ?thesis by blast
qed

lemma find_from_rows:
  assumes "rocks_contract A M" and "iter_contract A M" and "target_of A s cf = Inr t"
    and "api_iterator A s t (IterFrom (as_bytes k) dir) = map Inr rows"
  shows "\<exists>rs. is_rows (m_view M s cf) rs
    \<and> find_from A dec c s cf k dir f env
        = Some (gather (Some f) (kv_deserializer dec c)
            (map Inr (rows_from (IterFrom (as_bytes k) dir) rs)) env 0)"
proof -
  obtain rs where rs: "is_rows (m_view M s cf) rs" "rows = rows_from (IterFrom (as_bytes k) dir) rs"
    using general_rows [OF assms] by blast
  define cfg where
    "cfg = new_deserializing cf None (Some k) (dir = Reverse) (Some f) (kv_deserializer dec c) env"
  have "base_iter cfg (general_iterator_factory A s cf) (prefix_iterator_factory A s cf)
      (map_option as_bytes (cfg_prefix cfg)) (map_option as_bytes (cfg_start cfg)) = Inr (map Inr rows)"
    using assms(3,4) by (cases dir)
      (simp_all add: cfg_def new_deserializing_def base_iter_def general_iterator_factory_def
        choose_mode_def)
  from collect_execute(1) [OF _ this, of "kv_deserializer dec c" "''find_from''"]
  have "find_from A dec c s cf k dir f env
      = Some (gather (Some f) (kv_deserializer dec c) (map Inr rows) env 0)"
    by (simp add: find_from_def iterate_def cfg_def new_deserializing_def)
  with rs show ?thesis by blast
qed

section \<open>Properties\<close>

text \<open>
  C1: Refinement of the write operations. Each of the eight write operations of the store, on any
  column family, changes the view of the database exactly as specified when it reports success, with
  the encoded value or operand, and leaves it as it was when it reports an error of any kind.
\<close>

theorem write_operations_refine:
  assumes "rocks_contract A M"
  shows "m_view M (snd (run_write A cv cp s w))
    = (case fst (run_write A cv cp s w) of
         Inr _ \<Rightarrow> write_effect M cv cp (m_view M s) w
       | Inl _ \<Rightarrow> m_view M s)"
  using run_write_view [OF assms, of cv cp s w] by (simp add: outcome_def)

text \<open>A database with the default column family and one called \<open>users\<close>.\<close>

definition sample_db :: mem where
  "sample_db = (\<lambda>_. None)(DEFAULT_COLUMN_FAMILY_NAME := Some [], ''users'' := Some sample_rows)"

definition patch_codec :: "bytes merge_value codec" where
  "patch_codec = \<lparr>codec_ser = (\<lambda>m. Inr (mv_patch m)), codec_de = (\<lambda>bs. Inr (MergeValue Add bs))\<rparr>"

theorem write_operations_refine_witness:
  "mem_view (snd (put_with_expiry mem_api raw_codec sample_db ''users'' (KVec [9]) [1, 2] 3))
     = upd (mem_view sample_db) ''users'' [9] (Some [0, 0, 0, 0, 0, 0, 0, 3, 1, 2])"
proof -
  have ok: "fst (put_with_expiry mem_api raw_codec sample_db ''users'' (KVec [9]) [1, 2] 3) = Inr ()"
    by (simp add: put_with_expiry_def vwe_from_value_def put_raw_def write_on_def target_of_def
        get_cf_handle_def sample_db_def mem_write1_def DEFAULT_COLUMN_FAMILY_NAME_def)
  have bytes: "with_expiry 3 [1, 2] = [0, 0, 0, 0, 0, 0, 0, 3, 1, 2]"
    by (simp add: with_expiry_def to_be_bytes_def)
  show ?thesis
    using write_operations_refine [OF rocks_contract_mem,
        of raw_codec patch_codec sample_db "WPutWithExpiry ''users'' (KVec [9]) [1, 2] 3"]
    by (simp add: ok bytes) (simp add: raw_codec_def bytes)
qed

text \<open>
  Typed round trip. A value written with \<open>put\<close> is what a later successful \<open>get\<close> of the same
  bytes of key (through whatever key type) returns, when nothing was written in between.
\<close>

theorem put_get_roundtrip:
  assumes "rocks_contract A M" and "codec_ok c"
    and "put A c s cf k v = (Inr (), s1)" and "as_bytes k' = as_bytes k"
    and "get A c s1 cf k' = Inr x"
  shows "x = Some v"
proof -
  obtain bs y where ser: "serialize_value c v = Inr bs" and w: "put_raw A s cf k bs = (Inr (), s1)"
    and r: "get_raw A s1 cf k' = Inr y" and x: "opt_try (deserialize_value c) y = Inr x"
    using assms(3,5) by (auto simp: put_eq_Inr get_eq_Inr)
  have "get_raw A s1 cf k = get_raw A s1 cf k'"
    using assms(4) by (simp add: get_raw_def)
  with store.read_after_write [OF assms(1) w] r have "y = Some bs" by simp
  with x ser assms(2) show ?thesis by (auto dest: codec_okD)
qed

lemmas mem_eval = write_on_def target_of_def get_cf_handle_def mem_write1_def mem_view_def
  mem_entries_def DEFAULT_COLUMN_FAMILY_NAME_def sample_db_def

definition sample_put :: "unit store_result \<times> mem" where
  "sample_put = put mem_api raw_codec sample_db ''users'' (KStr ''ab'') [7]"

theorem put_get_roundtrip_witness:
  "fst sample_put = Inr ()
   \<and> get mem_api raw_codec (snd sample_put) ''users'' (KVec [97, 98]) = Inr (Some [7])"
proof -
  have w: "sample_put = (Inr (), snd sample_put)"
    by (simp add: sample_put_def put_def mem_eval)
  have k: "as_bytes (KVec [97, 98]) = as_bytes (KStr ''ab'')" by (simp add: str_bytes_def)
  obtain x where r: "get mem_api raw_codec (snd sample_put) ''users'' (KVec [97, 98]) = Inr x"
    by (simp add: get_def sample_put_def put_def mem_eval str_bytes_def)
  from put_get_roundtrip [OF rocks_contract_mem codec_ok_raw w [unfolded sample_put_def] k, folded sample_put_def, OF r]
  have "x = Some [7]" .
  with w r show ?thesis by (metis fst_conv)
qed

text \<open>
  Round trip with expiry. What \<open>put_with_expiry\<close> stored, \<open>get_with_expiry\<close> returns with exactly
  the expiry time that was given, and \<open>ValueWithExpiry::get\<close> on it yields the value.
\<close>

theorem expiry_roundtrip:
  assumes "rocks_contract A M" and "codec_ok c"
    and "put_with_expiry A c s cf k v t = (Inr (), s1)" and "get_with_expiry A s1 cf k = Inr x"
  shows "\<exists>vwe. x = Some vwe \<and> expire_time vwe = t \<and> vwe_get c vwe = Inr v"
proof -
  obtain vwe y where vwe: "vwe_from_value c t v = Inr vwe"
    and w: "put_raw A s cf k (serialize_for_storage vwe) = (Inr (), s1)"
    and r: "get_raw A s1 cf k = Inr y" and x: "opt_try vwe_from_slice y = Inr x"
    using assms(3,4) by (auto simp: put_with_expiry_eq_Inr get_with_expiry_def and_then_eq_Inr)
  have "y = Some (serialize_for_storage vwe)" by (rule store.read_after_write [OF assms(1) w r])
  with x have "x = Some vwe" by simp
  with vwe assms(2) show ?thesis
    by (auto simp: vwe_get_from_value) (auto simp: vwe_from_value_eq_Inr)
qed

definition sample_put_exp :: "unit store_result \<times> mem" where
  "sample_put_exp = put_with_expiry mem_api raw_codec sample_db ''users'' (KVec [5]) [7] 1000"

theorem expiry_roundtrip_witness:
  "\<exists>vwe. get_with_expiry mem_api (snd sample_put_exp) ''users'' (KVec [5]) = Inr (Some vwe)
     \<and> expire_time vwe = 1000 \<and> vwe_get raw_codec vwe = Inr [7]"
proof -
  have w: "sample_put_exp = (Inr (), snd sample_put_exp)"
    by (simp add: sample_put_exp_def put_with_expiry_def vwe_from_value_def put_raw_def mem_eval)
  have "get_with_expiry mem_api (snd sample_put_exp) ''users'' (KVec [5])
      = Inr (Some \<lparr>expire_time = 1000, raw_value = [7]\<rparr>)"
    by (simp add: get_with_expiry_def sample_put_exp_def put_with_expiry_def vwe_from_value_def
        put_raw_def get_raw_def mem_eval)
  with expiry_roundtrip [OF rocks_contract_mem codec_ok_raw w [unfolded sample_put_exp_def],
      folded sample_put_exp_def, OF this]
  show ?thesis by simp
qed


text \<open>
  Multi-key reads. A \<open>multiget_raw\<close> that succeeds returns, for each requested key in the order of
  the request, duplicates included, the value that the column family has for it.
\<close>

theorem multiget_raw_correct:
  assumes "rocks_contract A M" and "multiget_raw A s cf keys = Inr xs"
  shows "xs = map (\<lambda>k. m_view M s cf (as_bytes k)) keys"
  using assms by (rule multiget_raw_view)

theorem multiget_raw_correct_witness:
  "multiget_raw mem_api sample_db ''users'' [KVec [2], KVec [3], KVec [2]]
     = Inr (map (\<lambda>k. mem_view sample_db ''users'' (as_bytes k)) [KVec [2], KVec [3], KVec [2]])"
proof -
  obtain xs where xs: "multiget_raw mem_api sample_db ''users'' [KVec [2], KVec [3], KVec [2]] = Inr xs"
    by (simp add: multiget_raw_def mem_eval)
  with multiget_raw_correct [OF rocks_contract_mem xs] show ?thesis by simp
qed

text \<open>
  The typed \<open>multiget\<close> hides database errors. Where the database reports an error for every key,
  \<open>multiget\<close> succeeds and reports every key as absent, while \<open>multiget_raw\<close> on the same keys fails
  with the first of these errors.
\<close>

theorem multiget_hides_errors:
  assumes "keys \<noteq> []" and "target_of A s cf = Inr t"
    and "api_multi_get A s t (map as_bytes keys) = map Inl (e # es)"
  shows "multiget A c s cf keys = Inr (replicate (length (e # es)) None)
    \<and> multiget_raw A s cf keys = Inl (RocksDb e)"
proof -
  have "collect_ok (map (\<lambda>x. case x of Inl _ \<Rightarrow> Inr None | Inr y \<Rightarrow> opt_try (deserialize_value c) y)
      (map Inl es)) = Inr (replicate (length es) None)"
    by (induction es) simp_all
  with assms show ?thesis by (simp add: multiget_def multiget_raw_eq)
qed

definition broken_api :: "(mem, string) rocks_api" where
  "broken_api = mem_api\<lparr>api_multi_get := (\<lambda>s t ks. map (\<lambda>_. Inl ''Corruption'') ks)\<rparr>"

theorem multiget_hides_errors_witness:
  "multiget broken_api raw_codec sample_db ''default'' [KVec [1], KVec [2]] = Inr [None, None]
   \<and> multiget_raw broken_api sample_db ''default'' [KVec [1], KVec [2]] = Inl (RocksDb ''Corruption'')"
  using multiget_hides_errors [of "[KVec [1], KVec [2]]" broken_api sample_db "''default''" DefaultCf
      "''Corruption''" "[''Corruption'']" raw_codec]
  by (simp add: broken_api_def target_of_def DEFAULT_COLUMN_FAMILY_NAME_def)

text \<open>
  C12: Completeness of the prefix search. When the database gives its rows without an error,
  \<open>find_by_prefix\<close> returns the decoded rows of the column family whose key starts with the prefix:
  all of them, no others, in key order; or the first decoding error among them.
\<close>

theorem find_by_prefix_complete:
  assumes "rocks_contract A M" and "iter_contract A M" and "target_of A s cf = Inr t"
    and "api_prefix_iterator A s t (as_bytes p) = map Inr rows"
  shows "\<exists>rs. is_rows (m_view M s cf) rs
    \<and> find_by_prefix A dec c s cf p dir
        = Some (collect_ok (map (\<lambda>r. deserialize_kv dec c (fst r) (snd r))
            (filter (\<lambda>r. has_prefix (as_bytes p) (fst r)) rs)))"
  by (rule find_by_prefix_rows [OF assms])

theorem find_by_prefix_complete_witness:
  "\<exists>rs. is_rows (mem_view sample_db ''users'') rs
    \<and> find_by_prefix mem_api Inr raw_codec sample_db ''users'' (KVec [1]) Forward
        = Some (collect_ok (map (\<lambda>r. deserialize_kv Inr raw_codec (fst r) (snd r))
            (filter (\<lambda>r. has_prefix [1] (fst r)) rs)))"
proof -
  have "target_of mem_api sample_db ''users'' = Inr (Cf ''users'')" by (simp add: mem_eval)
  from find_by_prefix_complete [OF rocks_contract_mem iter_contract_mem this, of "KVec [1]", OF mem_api_simps(9)]
  show ?thesis by simp
qed

text \<open>
  The direction of a prefix search has no effect: \<open>find_by_prefix\<close> and
  \<open>find_by_prefix_with_expire_val\<close> always walk forward, the reverse search returns the same list.
\<close>

theorem find_by_prefix_direction_ignored:
  "find_by_prefix A dec c s cf p Reverse = find_by_prefix A dec c s cf p Forward
   \<and> find_by_prefix_with_expire_val A dec s cf p True f env
      = find_by_prefix_with_expire_val A dec s cf p False f env"
  by (cases "prefix_iterator_factory A s cf (as_bytes p)")
     (simp_all add: find_by_prefix_def find_by_prefix_with_expire_val_def iterate_def execute_def
       base_iter_def run_mode_def new_deserializing_def)

text \<open>
  Search from a key. When the database gives its rows without an error, \<open>find_from\<close> returns what
  the walk with the caller's control function collects over exactly the rows at or after the start key
  in ascending order (forward), or at or before it in descending order (reverse), with the state that
  the walk leaves in the control function.
\<close>

theorem find_from_correct:
  assumes "rocks_contract A M" and "iter_contract A M" and "target_of A s cf = Inr t"
    and "api_iterator A s t (IterFrom (as_bytes k) dir) = map Inr rows"
  shows "\<exists>rs. is_rows (m_view M s cf) rs
    \<and> find_from A dec c s cf k dir f env
        = Some (gather (Some f) (kv_deserializer dec c)
            (map Inr (rows_from (IterFrom (as_bytes k) dir) rs)) env 0)"
  by (rule find_from_rows [OF assms])

theorem find_from_correct_witness:
  "\<exists>rs. is_rows (mem_view sample_db ''users'') rs
    \<and> find_from mem_api Inr raw_codec sample_db ''users'' (KVec [1, 3]) Reverse (limit_control 1) ()
        = Some (gather (Some (limit_control 1)) (kv_deserializer Inr raw_codec)
            (map Inr (rows_from (IterFrom [1, 3] Reverse) rs)) () 0)"
proof -
  have "target_of mem_api sample_db ''users'' = Inr (Cf ''users'')" by (simp add: mem_eval)
  from find_from_correct [where k = "KVec [1, 3]" and dir = Reverse and dec = Inr and c = raw_codec
      and f = "limit_control 1" and env = "()", OF rocks_contract_mem iter_contract_mem this mem_api_simps(8)]
  show ?thesis by (simp del: rows_from.simps)
qed

end
