(* ===== verification/Batch_Writer.thy ===== *)
theory Batch_Writer
  imports CF_Store
begin

text \<open>
  \<open>src/batch.rs\<close>: the \<open>BatchWriter\<close>, which records write operations on one column family and
  commits them as one write of the database.

  \<open>bw_batch\<close> is the content of the \<open>ManuallyDrop<WriteBatch>\<close> field: \<open>None\<close> after
  \<open>ManuallyDrop::take\<close>. The methods that consume the writer run its destructor on every path; the
  record \<open>ending\<close> says what that did: whether the warning was logged and whether the recorded
  operations were freed (\<open>ManuallyDrop\<close> never drops its content by itself).
\<close>

section \<open>The writer\<close>

record 'h batch_writer =
  bw_batch :: "'h batch_op list option"
  bw_cf_name :: string
  bw_committed_or_discarded :: bool

definition bw_new :: "string \<Rightarrow> 'h batch_writer" where
  "bw_new cf_name = \<lparr>bw_batch = Some [], bw_cf_name = cf_name, bw_committed_or_discarded = False\<rparr>"

text \<open>\<open>RocksDbCFStore::batch_writer\<close>.\<close>

definition store_batch_writer :: "string \<Rightarrow> 'h batch_writer" where
  "store_batch_writer cf_name = bw_new cf_name"

definition check_not_committed :: "'h batch_writer \<Rightarrow> unit store_result" where
  "check_not_committed bw =
     (if bw_committed_or_discarded bw then Inl (Other ''BatchWriter already committed or discarded'')
      else Inr ())"

text \<open>Appending to the batch that is in the field.\<close>

definition record_op :: "'h batch_writer \<Rightarrow> 'h batch_op \<Rightarrow> 'h batch_writer" where
  "record_op bw x = bw\<lparr>bw_batch := map_option (\<lambda>xs. xs @ [x]) (bw_batch bw)\<rparr>"

text \<open>The branch on the column family that ends each method.\<close>

definition record_on ::
    "('s, 'h) rocks_api \<Rightarrow> 's \<Rightarrow> 'h batch_writer \<Rightarrow> ('h target \<Rightarrow> 'h batch_op)
     \<Rightarrow> unit store_result \<times> 'h batch_writer" where
  "record_on A s bw f =
     prepare (target_of A s (bw_cf_name bw)) bw (\<lambda>target. (Inr (), record_op bw (f target)))"

definition bw_set ::
    "('s, 'h) rocks_api \<Rightarrow> 'v codec \<Rightarrow> 's \<Rightarrow> 'h batch_writer \<Rightarrow> key \<Rightarrow> 'v
     \<Rightarrow> unit store_result \<times> 'h batch_writer" where
  "bw_set A c s bw key val =
     prepare (check_not_committed bw) bw (\<lambda>_.
     prepare (serialize_key key) bw (\<lambda>sk.
     prepare (serialize_value c val) bw (\<lambda>sv.
       record_on A s bw (\<lambda>target. BPut target sk sv))))"

definition bw_set_raw ::
    "('s, 'h) rocks_api \<Rightarrow> 's \<Rightarrow> 'h batch_writer \<Rightarrow> key \<Rightarrow> bytes
     \<Rightarrow> unit store_result \<times> 'h batch_writer" where
  "bw_set_raw A s bw key raw_val =
     prepare (check_not_committed bw) bw (\<lambda>_.
     prepare (serialize_key key) bw (\<lambda>sk.
       record_on A s bw (\<lambda>target. BPut target sk raw_val)))"

definition bw_set_with_expiry ::
    "('s, 'h) rocks_api \<Rightarrow> 'v codec \<Rightarrow> 's \<Rightarrow> 'h batch_writer \<Rightarrow> key \<Rightarrow> 'v \<Rightarrow> u64
     \<Rightarrow> unit store_result \<times> 'h batch_writer" where
  "bw_set_with_expiry A c s bw key val t =
     prepare (check_not_committed bw) bw (\<lambda>_.
     prepare (serialize_key key) bw (\<lambda>sk.
     prepare (vwe_from_value c t val) bw (\<lambda>vwe.
       let sv_with_ts = serialize_for_storage vwe in
       record_on A s bw (\<lambda>target. BPut target sk sv_with_ts))))"

definition bw_merge ::
    "('s, 'h) rocks_api \<Rightarrow> 'p merge_value codec \<Rightarrow> 's \<Rightarrow> 'h batch_writer \<Rightarrow> key \<Rightarrow> 'p merge_value
     \<Rightarrow> unit store_result \<times> 'h batch_writer" where
  "bw_merge A c s bw key merge_val =
     prepare (check_not_committed bw) bw (\<lambda>_.
     prepare (serialize_key key) bw (\<lambda>sk.
     prepare (serialize_value c merge_val) bw (\<lambda>smo.
       record_on A s bw (\<lambda>target. BMerge target sk smo))))"

definition bw_merge_raw ::
    "('s, 'h) rocks_api \<Rightarrow> 's \<Rightarrow> 'h batch_writer \<Rightarrow> key \<Rightarrow> bytes
     \<Rightarrow> unit store_result \<times> 'h batch_writer" where
  "bw_merge_raw A s bw key raw_merge_op =
     prepare (check_not_committed bw) bw (\<lambda>_.
     prepare (serialize_key key) bw (\<lambda>sk.
       record_on A s bw (\<lambda>target. BMerge target sk raw_merge_op)))"

definition bw_delete ::
    "('s, 'h) rocks_api \<Rightarrow> 's \<Rightarrow> 'h batch_writer \<Rightarrow> key \<Rightarrow> unit store_result \<times> 'h batch_writer" where
  "bw_delete A s bw key =
     prepare (check_not_committed bw) bw (\<lambda>_.
     prepare (serialize_key key) bw (\<lambda>sk.
       record_on A s bw (\<lambda>target. BDelete target sk)))"

definition bw_delete_range ::
    "('s, 'h) rocks_api \<Rightarrow> 's \<Rightarrow> 'h batch_writer \<Rightarrow> key \<Rightarrow> key
     \<Rightarrow> unit store_result \<times> 'h batch_writer" where
  "bw_delete_range A s bw start_key end_key =
     prepare (check_not_committed bw) bw (\<lambda>_.
     prepare (serialize_key start_key) bw (\<lambda>sks.
     prepare (serialize_key end_key) bw (\<lambda>ske.
       record_on A s bw (\<lambda>target. BDeleteRange target sks ske))))"

text \<open>\<open>raw_batch_mut\<close>: the caller edits the recorded operations with \<open>f\<close>.\<close>

definition raw_batch_mut ::
    "'h batch_writer \<Rightarrow> ('h batch_op list \<Rightarrow> 'h batch_op list) \<Rightarrow> unit store_result \<times> 'h batch_writer" where
  "raw_batch_mut bw f =
     prepare (check_not_committed bw) bw (\<lambda>_. (Inr (), bw\<lparr>bw_batch := map_option f (bw_batch bw)\<rparr>))"

section \<open>Its end\<close>

record ending =
  end_warned :: bool
  end_freed :: bool

text \<open>The destructor: only a log line. What is still in the \<open>ManuallyDrop\<close> stays allocated.\<close>

definition bw_drop :: "'h batch_writer \<Rightarrow> ending" where
  "bw_drop bw = \<lparr>end_warned = (\<not> bw_committed_or_discarded bw), end_freed = (bw_batch bw = None)\<rparr>"

text \<open>
  \<open>ManuallyDrop::take\<close> leaves the field empty; the write call and the end of \<open>discard\<close> free what was
  taken. After a failed write the flag is still unset.
\<close>

definition bw_commit ::
    "('s, 'h) rocks_api \<Rightarrow> 's \<Rightarrow> 'h batch_writer \<Rightarrow> unit store_result \<times> 's \<times> ending" where
  "bw_commit A s bw =
     (case check_not_committed bw of
        Inl e \<Rightarrow> (Inl e, s, bw_drop bw)
      | Inr _ \<Rightarrow>
          (let batch_to_commit = (case bw_batch bw of None \<Rightarrow> [] | Some xs \<Rightarrow> xs);
               bw1 = bw\<lparr>bw_batch := None\<rparr>
           in (case api_write A s batch_to_commit of
                 (Inl e, s1) \<Rightarrow> (Inl (RocksDb e), s1, bw_drop bw1)
               | (Inr _, s1) \<Rightarrow> (Inr (), s1, bw_drop (bw1\<lparr>bw_committed_or_discarded := True\<rparr>)))))"

definition bw_discard :: "'h batch_writer \<Rightarrow> ending" where
  "bw_discard bw = bw_drop (bw\<lparr>bw_batch := None, bw_committed_or_discarded := True\<rparr>)"

section \<open>Sequences of calls\<close>

datatype ('v, 'p) batch_call =
    CSet key 'v
  | CSetRaw key bytes
  | CSetWithExpiry key 'v u64
  | CMerge key "'p merge_value"
  | CMergeRaw key bytes
  | CDelete key
  | CDeleteRange key key

fun batch_step ::
    "('s, 'h) rocks_api \<Rightarrow> 'v codec \<Rightarrow> 'p merge_value codec \<Rightarrow> 's \<Rightarrow> 'h batch_writer
     \<Rightarrow> ('v, 'p) batch_call \<Rightarrow> unit store_result \<times> 'h batch_writer" where
  "batch_step A cv cp s bw (CSet k v) = bw_set A cv s bw k v"
| "batch_step A cv cp s bw (CSetRaw k bs) = bw_set_raw A s bw k bs"
| "batch_step A cv cp s bw (CSetWithExpiry k v t) = bw_set_with_expiry A cv s bw k v t"
| "batch_step A cv cp s bw (CMerge k p) = bw_merge A cp s bw k p"
| "batch_step A cv cp s bw (CMergeRaw k bs) = bw_merge_raw A s bw k bs"
| "batch_step A cv cp s bw (CDelete k) = bw_delete A s bw k"
| "batch_step A cv cp s bw (CDeleteRange a b) = bw_delete_range A s bw a b"

fun batch_steps ::
    "('s, 'h) rocks_api \<Rightarrow> 'v codec \<Rightarrow> 'p merge_value codec \<Rightarrow> 's \<Rightarrow> 'h batch_writer
     \<Rightarrow> ('v, 'p) batch_call list \<Rightarrow> 'h batch_writer" where
  "batch_steps A cv cp s bw [] = bw"
| "batch_steps A cv cp s bw (x # xs) = batch_steps A cv cp s (snd (batch_step A cv cp s bw x)) xs"

text \<open>The store's own operation that a call of the batch stands for.\<close>

fun direct :: "string \<Rightarrow> ('v, 'p) batch_call \<Rightarrow> ('v, 'p) write_call" where
  "direct cf (CSet k v) = WPut cf k v"
| "direct cf (CSetRaw k bs) = WPutRaw cf k bs"
| "direct cf (CSetWithExpiry k v t) = WPutWithExpiry cf k v t"
| "direct cf (CMerge k p) = WMerge cf k p"
| "direct cf (CMergeRaw k bs) = WMergeRaw cf k bs"
| "direct cf (CDelete k) = WDelete cf k"
| "direct cf (CDeleteRange a b) = WDeleteRange cf a b"

section \<open>Lemmas\<close>

text \<open>An open writer with the operations recorded so far.\<close>

definition open_with :: "string \<Rightarrow> 'h batch_op list \<Rightarrow> 'h batch_writer \<Rightarrow> bool" where
  "open_with cf xs bw \<longleftrightarrow>
     bw = \<lparr>bw_batch = Some xs, bw_cf_name = cf, bw_committed_or_discarded = False\<rparr>"

lemma open_with_new [simp]: "open_with cf [] (bw_new cf)"
  by (simp add: open_with_def bw_new_def)

lemma check_open: "open_with cf xs bw \<Longrightarrow> check_not_committed bw = Inr ()"
  by (simp add: open_with_def check_not_committed_def)

lemma record_on_open:
  "open_with cf xs bw \<Longrightarrow> target_of A s cf = Inr t \<Longrightarrow>
     open_with cf (xs @ [f t]) (snd (record_on A s bw f))"
  by (simp add: open_with_def record_on_def record_op_def)

lemmas batch_defs = bw_set_def bw_set_raw_def bw_set_with_expiry_def bw_merge_def bw_merge_raw_def
  bw_delete_def bw_delete_range_def

text \<open>One call: the operation it adds means what the store's own operation does.\<close>

lemma batch_step_open:
  assumes "open_with cf xs bw" and "target_of A s cf = Inr t" and "target_name M t = cf"
  shows "\<exists>ys. open_with cf (xs @ ys) (snd (batch_step A cv cp s bw x))
    \<and> (\<forall>w. apply_ops M w ys = write_effect M cv cp w (direct cf x))"
proof -
  have keep: "\<exists>ys. open_with cf (xs @ ys) bw \<and> (\<forall>w. apply_ops M w ys = w)"
    using assms(1) by (intro exI [of _ "[]"]) (simp add: apply_ops_def)
  have add: "\<exists>ys. open_with cf (xs @ ys) (snd (record_on A s bw f)) \<and> (\<forall>w. apply_ops M w ys = g w)"
    if "\<And>w. apply_op M w (f t) = g w" for f g
    using record_on_open [OF assms(1,2), of f] that
    by (intro exI [of _ "[f t]"]) (simp add: apply_ops_def)
  note simps = batch_defs assms(1,3) check_open [OF assms(1)] vwe_from_value_def serialize_value_def
    serialize_for_storage_def with_expiry_def merged_def Let_def
  show ?thesis
  proof (cases x)
    case (CSet k v)
    then show ?thesis using assms(1) keep add
      by (cases "codec_ser cv v") (simp_all add: simps)
  next
    case (CSetRaw k bs)
    then show ?thesis using assms(1) add by (simp add: simps)
  next
    case (CSetWithExpiry k v u)
    then show ?thesis using assms(1) keep add
      by (cases "codec_ser cv v") (simp_all add: simps)
  next
    case (CMerge k p)
    then show ?thesis using assms(1) keep add
      by (cases "codec_ser cp p") (simp_all add: simps)
  next
    case (CMergeRaw k bs)
    then show ?thesis using assms(1) add by (simp add: simps)
  next
    case (CDelete k)
    then show ?thesis using assms(1) add by (simp add: simps)
  next
    case (CDeleteRange a b)
    then show ?thesis using assms(1) add by (simp add: simps)
  qed
qed


lemma batch_steps_open:
  assumes "open_with cf xs bw" and "target_of A s cf = Inr t" and "target_name M t = cf"
  shows "\<exists>ys. open_with cf (xs @ ys) (batch_steps A cv cp s bw calls)
    \<and> (\<forall>w. apply_ops M w ys = foldl (write_effect M cv cp) w (map (direct cf) calls))"
  using assms(1)
proof (induction calls arbitrary: xs bw)
  case Nil
  then show ?case by (intro exI [of _ "[]"]) (simp add: apply_ops_def)
next
  case (Cons x calls)
  obtain ys where ys: "open_with cf (xs @ ys) (snd (batch_step A cv cp s bw x))"
    "\<forall>w. apply_ops M w ys = write_effect M cv cp w (direct cf x)"
    using batch_step_open [OF Cons.prems assms(2,3), of cv cp x] by blast
  obtain zs where zs: "open_with cf ((xs @ ys) @ zs) (batch_steps A cv cp s (snd (batch_step A cv cp s bw x)) calls)"
    "\<forall>w. apply_ops M w zs = foldl (write_effect M cv cp) w (map (direct cf) calls)"
    using Cons.IH [OF ys(1)] by blast
  have "apply_ops M w (ys @ zs) = apply_ops M (apply_ops M w ys) zs" for w
    by (simp add: apply_ops_def)
  with ys zs show ?case by (intro exI [of _ "ys @ zs"]) simp
qed

lemma record_on_keeps_open: "\<exists>xs. open_with cf xs bw \<Longrightarrow> \<exists>xs. open_with cf xs (snd (record_on A s bw f))"
  by (cases "target_of A s (bw_cf_name bw)")
     (auto simp: record_on_def record_op_def open_with_def)

lemma batch_step_keeps_open:
  assumes "\<exists>xs. open_with cf xs bw"
  shows "\<exists>xs. open_with cf xs (snd (batch_step A cv cp s bw x))"
proof -
  have c: "check_not_committed bw = Inr ()" using assms by (auto dest: check_open)
  have p: "\<exists>xs. open_with cf xs (snd (prepare r bw (\<lambda>a. record_on A s bw (f a))))"
    for r :: "'x store_result" and f
    using record_on_keeps_open [OF assms] assms by (cases r) simp_all
  show ?thesis
    by (cases x) (simp_all add: batch_defs c p record_on_keeps_open [OF assms] Let_def)
qed

lemma batch_steps_keep_open:
  "\<exists>xs. open_with cf xs bw \<Longrightarrow> \<exists>xs. open_with cf xs (batch_steps A cv cp s bw calls)"
  by (induction calls arbitrary: bw) (simp_all add: batch_step_keeps_open)

lemma open_drop: "open_with cf xs bw \<Longrightarrow> bw_drop bw = \<lparr>end_warned = True, end_freed = False\<rparr>"
  by (simp add: open_with_def bw_drop_def)

lemma open_discard: "bw_discard bw = \<lparr>end_warned = False, end_freed = True\<rparr>"
  by (simp add: bw_discard_def bw_drop_def)

lemma open_commit:
  "open_with cf xs bw \<Longrightarrow> bw_commit A s bw =
     (map_err RocksDb (fst (api_write A s xs)), snd (api_write A s xs),
      \<lparr>end_warned = (\<exists>e. fst (api_write A s xs) = Inl e), end_freed = True\<rparr>)"
  by (cases "api_write A s xs"; cases "fst (api_write A s xs)")
     (auto simp: open_with_def bw_commit_def check_not_committed_def bw_drop_def)

lemma batch_commit_view:
  assumes "rocks_contract A M" and "target_of A s cf = Inr t"
    and "bw_commit A s1 (batch_steps A cv cp s (store_batch_writer cf) calls) = (r, s2, fin)"
  shows "m_view M s2 = (case r of
      Inr _ \<Rightarrow> foldl (write_effect M cv cp) (m_view M s1) (map (direct cf) calls)
    | Inl _ \<Rightarrow> m_view M s1)"
proof -
  obtain ys where ys: "open_with cf ys (batch_steps A cv cp s (store_batch_writer cf) calls)"
    "\<forall>w. apply_ops M w ys = foldl (write_effect M cv cp) w (map (direct cf) calls)"
    using batch_steps_open [OF open_with_new assms(2) target_of_name [OF assms(1,2)], of cv cp calls]
    by (auto simp: store_batch_writer_def)
  show ?thesis
    using assms(3) ys(2) contract_write [OF assms(1), of s1 ys] unfolding open_commit [OF ys(1)]
    by (auto simp: effect_ok_def split: sum.splits)
qed

section \<open>Properties\<close>

text \<open>
  C9: A batch is one atomic write of its operations in order. However a writer on an open column family
  was filled (with the calls it was given at state \<open>s\<close>), a commit that reports success changes the view of
  the database as if the store's own operations had been performed one after the other on that
  column family, calls that reported an encoding error counting as nothing; a commit that reports an
  error changes nothing at all.
\<close>

theorem batch_commit_atomic:
  assumes "rocks_contract A M" and "target_of A s cf = Inr t"
    and "bw_commit A s1 (batch_steps A cv cp s (store_batch_writer cf) calls) = (r, s2, fin)"
  shows "m_view M s2 = (case r of
      Inr _ \<Rightarrow> foldl (write_effect M cv cp) (m_view M s1) (map (direct cf) calls)
    | Inl _ \<Rightarrow> m_view M s1)"
  by (rule batch_commit_view [OF assms])

definition sample_calls :: "(bytes, bytes) batch_call list" where
  "sample_calls = [CSet (KVec [1]) [20], CDelete (KVec [2]), CMergeRaw (KVec [1]) [21]]"

theorem batch_commit_atomic_witness:
  "\<exists>s2 fin. bw_commit mem_api sample_db (batch_steps mem_api raw_codec patch_codec sample_db
       (store_batch_writer ''users'') sample_calls) = (Inr (), s2, fin)
     \<and> mem_view s2 ''users'' [1] = Some [20, 21] \<and> mem_view s2 ''users'' [2] = None"
proof -
  have t: "target_of mem_api sample_db ''users'' = Inr (Cf ''users'')" by (simp add: mem_eval)
  define bw where "bw = batch_steps mem_api raw_codec patch_codec sample_db
    (store_batch_writer ''users'') sample_calls"
  have "fst (bw_commit mem_api sample_db bw) = Inr ()"
    by (simp add: bw_def sample_calls_def store_batch_writer_def bw_new_def batch_defs check_not_committed_def
        record_on_def record_op_def bw_commit_def mem_eval)
  then obtain s2 fin where c: "bw_commit mem_api sample_db bw = (Inr (), s2, fin)"
    by (metis prod.collapse)
  have "mem_view s2 = foldl (write_effect mem_meaning raw_codec patch_codec) (mem_view sample_db)
      (map (direct ''users'') sample_calls)"
    using batch_commit_atomic [OF rocks_contract_mem t c [unfolded bw_def]] by simp
  with c show ?thesis
    unfolding bw_def
    by (auto simp: sample_calls_def raw_codec_def merged_def upd_def)
qed

text \<open>
  How a writer ends, after any calls. A commit warns exactly when it failed, and like \<open>discard\<close> it
  frees the recorded operations. A writer that is dropped without either warns and does not free
  them: the \<open>WriteBatch\<close> in the \<open>ManuallyDrop\<close> field is leaked.
\<close>

theorem batch_endings:
  fixes A :: "('s, 'h) rocks_api"
  shows "(\<forall>s1. snd (snd (bw_commit A s1 (batch_steps A cv cp s (store_batch_writer cf) calls)))
      = \<lparr>end_warned = (\<exists>e. fst (bw_commit A s1 (batch_steps A cv cp s (store_batch_writer cf) calls)) = Inl e),
         end_freed = True\<rparr>)
   \<and> bw_discard (batch_steps A cv cp s (store_batch_writer cf) calls) = \<lparr>end_warned = False, end_freed = True\<rparr>
   \<and> bw_drop (batch_steps A cv cp s (store_batch_writer cf) calls) = \<lparr>end_warned = True, end_freed = False\<rparr>"
proof -
  have "\<exists>xs. open_with cf xs (store_batch_writer cf :: 'h batch_writer)"
    unfolding store_batch_writer_def by (rule exI, rule open_with_new)
  from batch_steps_keep_open [OF this, of A cv cp s calls]
  obtain xs where xs: "open_with cf xs (batch_steps A cv cp s (store_batch_writer cf) calls)" by blast
  show ?thesis
    by (simp add: open_commit [OF xs] open_drop [OF xs] open_discard)
qed

end
