(* ===== verification/Txn_Store.thy ===== *)
theory Txn_Store
  imports CF_Store
begin

text \<open>
  \<open>src/tx/macros.rs\<close>, \<open>src/tx/cf_tx_store.rs\<close>, the accessors of
  \<open>src/tx/cf_optimistic_tx_store.rs\<close>, and the helpers of \<open>src/tx/mod.rs\<close>: the transactional stores.

  The macro writes the implementation of \<open>CFOperations\<close> for both transactional stores; its operations
  take the interface \<open>A\<close> of the database and the store's own \<open>get_cf_handle\<close> as \<open>H\<close>. The operations
  inside a transaction take the interface of the transaction instead: its reads show, and its writes
  change, what the transaction sees.
\<close>

section \<open>The stores\<close>

record cf_txn_store =
  ts_cf_names :: "string list"
  ts_path :: string

definition handle_not_found :: "string \<Rightarrow> store_error" where
  "handle_not_found cf_name = UnknownCf (''CF '' @ [CHR 0x27] @ cf_name @ [CHR 0x27]
     @ '' configured but handle not found.'')"

definition txn_get_cf_handle ::
    "('s, 'h) rocks_api \<Rightarrow> cf_txn_store \<Rightarrow> 's \<Rightarrow> string \<Rightarrow> 'h store_result" where
  "txn_get_cf_handle A self s cf_name =
     (if cf_name \<notin> set (ts_cf_names self) then Inl (UnknownCf cf_name)
      else ok_or (handle_not_found cf_name) (api_cf_handle A s cf_name))"

definition optimistic_get_cf_handle ::
    "('s, 'h) rocks_api \<Rightarrow> cf_txn_store \<Rightarrow> 's \<Rightarrow> string \<Rightarrow> 'h store_result" where
  "optimistic_get_cf_handle A self s cf_name =
     (if cf_name \<notin> set (ts_cf_names self) then Inl (UnknownCf cf_name)
      else ok_or (handle_not_found cf_name) (api_cf_handle A s cf_name))"

type_synonym ('s, 'h) cf_lookup = "'s \<Rightarrow> string \<Rightarrow> 'h store_result"

text \<open>The branch on the default column family.\<close>

definition target_by :: "('s, 'h) cf_lookup \<Rightarrow> 's \<Rightarrow> string \<Rightarrow> 'h target store_result" where
  "target_by H s cf_name =
     (if cf_name = DEFAULT_COLUMN_FAMILY_NAME then Inr DefaultCf
      else and_then (H s cf_name) (\<lambda>handle. Inr (Cf handle)))"

section \<open>The operations of the macro\<close>

definition ts_get ::
    "('s, 'h) rocks_api \<Rightarrow> ('s, 'h) cf_lookup \<Rightarrow> 'v codec \<Rightarrow> 's \<Rightarrow> string \<Rightarrow> key \<Rightarrow> 'v option store_result" where
  "ts_get A H c s cf_name key =
     and_then (serialize_key key) (\<lambda>ser_key.
     and_then (target_by H s cf_name) (\<lambda>target.
     and_then (map_err RocksDb (api_get A s target ser_key)) (\<lambda>opt_bytes.
       opt_try (deserialize_value c) opt_bytes)))"

definition ts_get_raw ::
    "('s, 'h) rocks_api \<Rightarrow> ('s, 'h) cf_lookup \<Rightarrow> 's \<Rightarrow> string \<Rightarrow> key \<Rightarrow> bytes option store_result" where
  "ts_get_raw A H s cf_name key =
     and_then (serialize_key key) (\<lambda>ser_key.
     and_then (target_by H s cf_name) (\<lambda>target.
       map_err RocksDb (api_get A s target ser_key)))"

definition ts_get_with_expiry ::
    "('s, 'h) rocks_api \<Rightarrow> ('s, 'h) cf_lookup \<Rightarrow> 's \<Rightarrow> string \<Rightarrow> key
     \<Rightarrow> value_with_expiry option store_result" where
  "ts_get_with_expiry A H s cf_name key =
     and_then (ts_get_raw A H s cf_name key) (\<lambda>opt_bytes. opt_try vwe_from_slice opt_bytes)"

definition ts_exists ::
    "('s, 'h) rocks_api \<Rightarrow> ('s, 'h) cf_lookup \<Rightarrow> 's \<Rightarrow> string \<Rightarrow> key \<Rightarrow> bool store_result" where
  "ts_exists A H s cf_name key =
     and_then (serialize_key key) (\<lambda>ser_key.
     and_then (target_by H s cf_name) (\<lambda>target.
       map_err RocksDb (map_ok (\<lambda>x. x \<noteq> None) (api_get A s target ser_key))))"

definition ts_multiget ::
    "('s, 'h) rocks_api \<Rightarrow> ('s, 'h) cf_lookup \<Rightarrow> 'v codec \<Rightarrow> 's \<Rightarrow> string \<Rightarrow> key list
     \<Rightarrow> 'v option list store_result" where
  "ts_multiget A H c s cf_name keys =
     (if keys = [] then Inr []
      else
        and_then (collect_ok (map serialize_key keys)) (\<lambda>ser_keys.
        and_then (target_by H s cf_name) (\<lambda>target.
          collect_ok
            (map (\<lambda>res_opt_dbvec.
               case res_opt_dbvec of
                 Inl _ \<Rightarrow> Inr None
               | Inr opt_dbvec \<Rightarrow> opt_try (deserialize_value c) opt_dbvec)
             (api_multi_get A s target ser_keys)))))"

definition ts_multiget_raw ::
    "('s, 'h) rocks_api \<Rightarrow> ('s, 'h) cf_lookup \<Rightarrow> 's \<Rightarrow> string \<Rightarrow> key list
     \<Rightarrow> bytes option list store_result" where
  "ts_multiget_raw A H s cf_name keys =
     (if keys = [] then Inr []
      else
        and_then (collect_ok (map serialize_key keys)) (\<lambda>ser_keys.
        and_then (target_by H s cf_name) (\<lambda>target.
          map_err RocksDb (collect_ok (api_multi_get A s target ser_keys)))))"

definition ts_multiget_with_expiry ::
    "('s, 'h) rocks_api \<Rightarrow> ('s, 'h) cf_lookup \<Rightarrow> 's \<Rightarrow> string \<Rightarrow> key list
     \<Rightarrow> value_with_expiry option list store_result" where
  "ts_multiget_with_expiry A H s cf_name keys =
     and_then (ts_multiget_raw A H s cf_name keys) (\<lambda>raw_results.
       collect_ok (map (opt_try vwe_from_slice) raw_results))"

definition ts_put ::
    "('s, 'h) rocks_api \<Rightarrow> ('s, 'h) cf_lookup \<Rightarrow> 'v codec \<Rightarrow> 's \<Rightarrow> string \<Rightarrow> key \<Rightarrow> 'v
     \<Rightarrow> unit store_result \<times> 's" where
  "ts_put A H c s cf_name key val =
     prepare (serialize_key key) s (\<lambda>ser_key.
     prepare (serialize_value c val) s (\<lambda>ser_val.
       write_on (target_by H s cf_name) s (\<lambda>target. api_put A s target ser_key ser_val)))"

definition ts_put_raw ::
    "('s, 'h) rocks_api \<Rightarrow> ('s, 'h) cf_lookup \<Rightarrow> 's \<Rightarrow> string \<Rightarrow> key \<Rightarrow> bytes
     \<Rightarrow> unit store_result \<times> 's" where
  "ts_put_raw A H s cf_name key raw_val =
     prepare (serialize_key key) s (\<lambda>ser_key.
       write_on (target_by H s cf_name) s (\<lambda>target. api_put A s target ser_key raw_val))"

definition ts_put_with_expiry ::
    "('s, 'h) rocks_api \<Rightarrow> ('s, 'h) cf_lookup \<Rightarrow> 'v codec \<Rightarrow> 's \<Rightarrow> string \<Rightarrow> key \<Rightarrow> 'v \<Rightarrow> u64
     \<Rightarrow> unit store_result \<times> 's" where
  "ts_put_with_expiry A H c s cf_name key val t =
     prepare (vwe_from_value c t val) s (\<lambda>vwe.
       ts_put_raw A H s cf_name key (serialize_for_storage vwe))"

definition ts_delete ::
    "('s, 'h) rocks_api \<Rightarrow> ('s, 'h) cf_lookup \<Rightarrow> 's \<Rightarrow> string \<Rightarrow> key \<Rightarrow> unit store_result \<times> 's" where
  "ts_delete A H s cf_name key =
     prepare (serialize_key key) s (\<lambda>ser_key.
       write_on (target_by H s cf_name) s (\<lambda>target. api_delete A s target ser_key))"

definition ts_delete_range :: "'s \<Rightarrow> string \<Rightarrow> key \<Rightarrow> key \<Rightarrow> unit store_result \<times> 's" where
  "ts_delete_range s cf_name start_key end_key =
     (Inl (Other ''delete_range is not supported on a transactional store''), s)"

definition ts_merge ::
    "('s, 'h) rocks_api \<Rightarrow> ('s, 'h) cf_lookup \<Rightarrow> 'p merge_value codec \<Rightarrow> 's \<Rightarrow> string \<Rightarrow> key
     \<Rightarrow> 'p merge_value \<Rightarrow> unit store_result \<times> 's" where
  "ts_merge A H c s cf_name key merge_val =
     prepare (serialize_key key) s (\<lambda>ser_key.
     prepare (serialize_value c merge_val) s (\<lambda>ser_merge_op.
       write_on (target_by H s cf_name) s (\<lambda>target. api_merge A s target ser_key ser_merge_op)))"

definition ts_merge_raw ::
    "('s, 'h) rocks_api \<Rightarrow> ('s, 'h) cf_lookup \<Rightarrow> 's \<Rightarrow> string \<Rightarrow> key \<Rightarrow> bytes
     \<Rightarrow> unit store_result \<times> 's" where
  "ts_merge_raw A H s cf_name key raw_merge_operand =
     prepare (serialize_key key) s (\<lambda>ser_key.
       write_on (target_by H s cf_name) s (\<lambda>target. api_merge A s target ser_key raw_merge_operand))"

definition ts_merge_with_expiry ::
    "('s, 'h) rocks_api \<Rightarrow> ('s, 'h) cf_lookup \<Rightarrow> 'v codec \<Rightarrow> 's \<Rightarrow> string \<Rightarrow> key \<Rightarrow> 'v \<Rightarrow> u64
     \<Rightarrow> unit store_result \<times> 's" where
  "ts_merge_with_expiry A H c s cf_name key val t =
     prepare (vwe_from_value c t val) s (\<lambda>vwe.
       ts_merge_raw A H s cf_name key (serialize_for_storage vwe))"

definition ts_iterate ::
    "('s, 'h) rocks_api \<Rightarrow> ('s, 'h) cf_lookup \<Rightarrow> 's \<Rightarrow> ('c, 'k, 'v) iter_config
     \<Rightarrow> ('c, 'k, 'v) iteration_result store_result \<times> 'c" where
  "ts_iterate A H s cfg =
     (let general_iterator_factory =
            (\<lambda>mode. map_ok (\<lambda>target. api_iterator A s target mode) (target_by H s (cfg_cf_name cfg)));
          prefix_iterator_factory =
            (\<lambda>prefix_bytes. map_ok (\<lambda>target. api_prefix_iterator A s target prefix_bytes)
               (target_by H s (cfg_cf_name cfg)))
      in execute cfg general_iterator_factory prefix_iterator_factory)"

definition ts_find_by_prefix ::
    "('s, 'h) rocks_api \<Rightarrow> ('s, 'h) cf_lookup \<Rightarrow> (bytes \<Rightarrow> (string, 'k) result) \<Rightarrow> 'v codec \<Rightarrow> 's \<Rightarrow> string
     \<Rightarrow> key \<Rightarrow> direction \<Rightarrow> ('k \<times> 'v) list store_result option" where
  "ts_find_by_prefix A H dec c s cf_name prefix direction =
     map_option fst (collect_items ''find_by_prefix''
       (ts_iterate A H s
         (new_deserializing cf_name (Some prefix) None (direction = Reverse) None
           (kv_deserializer dec c) ())))"

definition ts_find_from ::
    "('s, 'h) rocks_api \<Rightarrow> ('s, 'h) cf_lookup \<Rightarrow> (bytes \<Rightarrow> (string, 'k) result) \<Rightarrow> 'v codec \<Rightarrow> 's \<Rightarrow> string
     \<Rightarrow> key \<Rightarrow> direction \<Rightarrow> 'c control \<Rightarrow> 'c \<Rightarrow> (('k \<times> 'v) list store_result \<times> 'c) option" where
  "ts_find_from A H dec c s cf_name start_key direction control_fn env =
     collect_items ''find_from''
       (ts_iterate A H s
         (new_deserializing cf_name None (Some start_key) (direction = Reverse) (Some control_fn)
           (kv_deserializer dec c) env))"

text \<open>In the transactional stores the text of the unreachable branch is shorter.\<close>

definition collect_items_short ::
    "string \<Rightarrow> ('c, 'k, 'v) iteration_result store_result \<times> 'c
     \<Rightarrow> ((string, ('k \<times> 'v) list) result \<times> 'c) option" where
  "collect_items_short msg r =
     (case r of
        (Inr (DeserializedItems iter), _) \<Rightarrow>
          map_option (\<lambda>(items, it). (map_err display items, ci_env it)) (try_collect controlled_next iter)
      | (Inr _, c) \<Rightarrow> Some (Inl msg, c)
      | (Inl e, c) \<Rightarrow> Some (Inl (display e), c))"

definition ts_find_from_with_expire_val ::
    "('s, 'h) rocks_api \<Rightarrow> ('s, 'h) cf_lookup \<Rightarrow> (bytes \<Rightarrow> (string, 'k) result) \<Rightarrow> 's \<Rightarrow> string \<Rightarrow> key
     \<Rightarrow> bool \<Rightarrow> 'c control \<Rightarrow> 'c \<Rightarrow> ((string, ('k \<times> value_with_expiry) list) result \<times> 'c) option" where
  "ts_find_from_with_expire_val A H dec s cf_name start reverse control_fn env =
     collect_items_short ''find_from_with_expire_val: Expected DeserializedItems''
       (ts_iterate A H s
         (new_deserializing cf_name None (Some start) reverse (Some control_fn)
           (kv_expiry_deserializer dec) env))"

definition ts_find_by_prefix_with_expire_val ::
    "('s, 'h) rocks_api \<Rightarrow> ('s, 'h) cf_lookup \<Rightarrow> (bytes \<Rightarrow> (string, 'k) result) \<Rightarrow> 's \<Rightarrow> string \<Rightarrow> key
     \<Rightarrow> bool \<Rightarrow> 'c control \<Rightarrow> 'c \<Rightarrow> ((string, ('k \<times> value_with_expiry) list) result \<times> 'c) option" where
  "ts_find_by_prefix_with_expire_val A H dec s cf_name prefix_key reverse control_fn env =
     collect_items_short ''find_by_prefix_with_expire_val: Expected DeserializedItems''
       (ts_iterate A H s
         (new_deserializing cf_name (Some prefix_key) None reverse (Some control_fn)
           (kv_expiry_deserializer dec) env))"


section \<open>Transactions of the pessimistic store\<close>

text \<open>
  The calls on the life of a transaction. One world \<open>'w\<close> holds the database and the transaction;
  \<open>commit\<close> consumes the transaction, \<open>rollback\<close> borrows it and discards its writes.
\<close>

record 'w txn_life =
  life_begin :: "'w \<Rightarrow> 'w"
  life_commit :: "'w \<Rightarrow> (rocks_error, unit) result \<times> 'w"
  life_rollback :: "'w \<Rightarrow> (rocks_error, unit) result \<times> 'w"

definition begin_transaction :: "'w txn_life \<Rightarrow> 'w \<Rightarrow> 'w" where
  "begin_transaction L w = life_begin L w"

text \<open>An error of the rollback is only logged.\<close>

definition execute_transaction ::
    "'w txn_life \<Rightarrow> ('w \<Rightarrow> 'a store_result \<times> 'w) \<Rightarrow> 'w \<Rightarrow> 'a store_result \<times> 'w" where
  "execute_transaction L operation w =
     (let w1 = begin_transaction L w in
      case operation w1 of
        (Inr res, w2) \<Rightarrow>
          (case life_commit L w2 of
             (Inl e, w3) \<Rightarrow> (Inl (RocksDb e), w3)
           | (Inr _, w3) \<Rightarrow> (Inr res, w3))
      | (Inl e, w2) \<Rightarrow> (Inl e, snd (life_rollback L w2)))"

subsection \<open>Operations within a transaction\<close>

definition txn_get_in_txn ::
    "('w, 'h) rocks_api \<Rightarrow> ('w, 'h) cf_lookup \<Rightarrow> 'v codec \<Rightarrow> 'w \<Rightarrow> string \<Rightarrow> key \<Rightarrow> 'v option store_result" where
  "txn_get_in_txn A H c txn cf_name key =
     and_then (serialize_key key) (\<lambda>ser_key.
     and_then (target_by H txn cf_name) (\<lambda>target.
     and_then (map_err RocksDb (api_get A txn target ser_key)) (\<lambda>opt_bytes.
       opt_try (deserialize_value c) opt_bytes)))"

definition txn_get_raw_in_txn ::
    "('w, 'h) rocks_api \<Rightarrow> ('w, 'h) cf_lookup \<Rightarrow> 'w \<Rightarrow> string \<Rightarrow> key \<Rightarrow> bytes option store_result" where
  "txn_get_raw_in_txn A H txn cf_name key =
     and_then (serialize_key key) (\<lambda>ser_key.
     and_then (target_by H txn cf_name) (\<lambda>target.
       map_err RocksDb (api_get A txn target ser_key)))"

definition txn_get_with_expiry_in_txn ::
    "('w, 'h) rocks_api \<Rightarrow> ('w, 'h) cf_lookup \<Rightarrow> 'w \<Rightarrow> string \<Rightarrow> key \<Rightarrow> value_with_expiry option store_result" where
  "txn_get_with_expiry_in_txn A H txn cf_name key =
     and_then (txn_get_raw_in_txn A H txn cf_name key) (opt_try vwe_from_slice)"

definition txn_exists_in_txn ::
    "('w, 'h) rocks_api \<Rightarrow> ('w, 'h) cf_lookup \<Rightarrow> 'w \<Rightarrow> string \<Rightarrow> key \<Rightarrow> bool store_result" where
  "txn_exists_in_txn A H txn cf_name key =
     and_then (serialize_key key) (\<lambda>ser_key.
     and_then (target_by H txn cf_name) (\<lambda>target.
       map_err RocksDb (map_ok (\<lambda>x. x \<noteq> None) (api_get A txn target ser_key))))"

definition put_in_txn_cf ::
    "('w, 'h) rocks_api \<Rightarrow> ('w, 'h) cf_lookup \<Rightarrow> 'v codec \<Rightarrow> 'w \<Rightarrow> string \<Rightarrow> key \<Rightarrow> 'v
     \<Rightarrow> unit store_result \<times> 'w" where
  "put_in_txn_cf A H c txn cf_name key val =
     prepare (serialize_key key) txn (\<lambda>ser_key.
     prepare (serialize_value c val) txn (\<lambda>ser_val.
       write_on (target_by H txn cf_name) txn (\<lambda>target. api_put A txn target ser_key ser_val)))"

definition put_raw_in_txn ::
    "('w, 'h) rocks_api \<Rightarrow> ('w, 'h) cf_lookup \<Rightarrow> 'w \<Rightarrow> string \<Rightarrow> key \<Rightarrow> bytes
     \<Rightarrow> unit store_result \<times> 'w" where
  "put_raw_in_txn A H txn cf_name key raw_val =
     prepare (serialize_key key) txn (\<lambda>ser_key.
       write_on (target_by H txn cf_name) txn (\<lambda>target. api_put A txn target ser_key raw_val))"

definition put_with_expiry_in_txn ::
    "('w, 'h) rocks_api \<Rightarrow> ('w, 'h) cf_lookup \<Rightarrow> 'v codec \<Rightarrow> 'w \<Rightarrow> string \<Rightarrow> key \<Rightarrow> 'v \<Rightarrow> u64
     \<Rightarrow> unit store_result \<times> 'w" where
  "put_with_expiry_in_txn A H c txn cf_name key val t =
     prepare (vwe_from_value c t val) txn (\<lambda>vwe.
       put_raw_in_txn A H txn cf_name key (serialize_for_storage vwe))"

definition delete_in_txn ::
    "('w, 'h) rocks_api \<Rightarrow> ('w, 'h) cf_lookup \<Rightarrow> 'w \<Rightarrow> string \<Rightarrow> key \<Rightarrow> unit store_result \<times> 'w" where
  "delete_in_txn A H txn cf_name key =
     prepare (serialize_key key) txn (\<lambda>ser_key.
       write_on (target_by H txn cf_name) txn (\<lambda>target. api_delete A txn target ser_key))"

definition merge_in_txn ::
    "('w, 'h) rocks_api \<Rightarrow> ('w, 'h) cf_lookup \<Rightarrow> 'p merge_value codec \<Rightarrow> 'w \<Rightarrow> string \<Rightarrow> key
     \<Rightarrow> 'p merge_value \<Rightarrow> unit store_result \<times> 'w" where
  "merge_in_txn A H c txn cf_name key merge_val =
     prepare (serialize_key key) txn (\<lambda>ser_key.
     prepare (serialize_value c merge_val) txn (\<lambda>ser_merge_op.
       write_on (target_by H txn cf_name) txn (\<lambda>target. api_merge A txn target ser_key ser_merge_op)))"

definition merge_raw_in_txn ::
    "('w, 'h) rocks_api \<Rightarrow> ('w, 'h) cf_lookup \<Rightarrow> 'w \<Rightarrow> string \<Rightarrow> key \<Rightarrow> bytes
     \<Rightarrow> unit store_result \<times> 'w" where
  "merge_raw_in_txn A H txn cf_name key raw_merge_operand =
     prepare (serialize_key key) txn (\<lambda>ser_key.
       write_on (target_by H txn cf_name) txn (\<lambda>target. api_merge A txn target ser_key raw_merge_operand))"

subsection \<open>The free functions\<close>

definition commit_transaction :: "'w txn_life \<Rightarrow> 'w \<Rightarrow> unit store_result \<times> 'w" where
  "commit_transaction L txn = (case life_commit L txn of (r, w) \<Rightarrow> (map_err RocksDb r, w))"

definition rollback_transaction :: "'w txn_life \<Rightarrow> 'w \<Rightarrow> unit store_result \<times> 'w" where
  "rollback_transaction L txn = (case life_rollback L txn of (r, w) \<Rightarrow> (map_err RocksDb r, w))"

definition get_in_txn :: "('w, 'h) rocks_api \<Rightarrow> 'v codec \<Rightarrow> 'w \<Rightarrow> key \<Rightarrow> 'v option store_result" where
  "get_in_txn A c txn key =
     and_then (serialize_key key) (\<lambda>sk.
       case api_get A txn DefaultCf sk of
         Inr (Some pv) \<Rightarrow> map_ok Some (deserialize_value c pv)
       | Inr None \<Rightarrow> Inr None
       | Inl e \<Rightarrow> Inl (RocksDb e))"

definition tx_merge_in_txn ::
    "('w, 'h) rocks_api \<Rightarrow> 'p merge_value codec \<Rightarrow> 'w \<Rightarrow> key \<Rightarrow> 'p merge_value \<Rightarrow> unit store_result \<times> 'w" where
  "tx_merge_in_txn A c txn key merge_val =
     prepare (serialize_key key) txn (\<lambda>sk.
     prepare (serialize_value c merge_val) txn (\<lambda>smo.
       case api_merge A txn DefaultCf sk smo of (r, w) \<Rightarrow> (map_err RocksDb r, w)))"

definition tx_remove_in_txn :: "('w, 'h) rocks_api \<Rightarrow> 'w \<Rightarrow> key \<Rightarrow> unit store_result \<times> 'w" where
  "tx_remove_in_txn A txn key =
     prepare (serialize_key key) txn (\<lambda>sk.
       case api_delete A txn DefaultCf sk of (r, w) \<Rightarrow> (map_err RocksDb r, w))"

section \<open>Contracts\<close>

definition lookup_ok :: "('s, 'h) rocks_meaning \<Rightarrow> ('s, 'h) cf_lookup \<Rightarrow> bool" where
  "lookup_ok M H \<longleftrightarrow> (\<forall>s cf h. H s cf = Inr h \<longrightarrow> m_name M h = cf)"

lemma lookup_ok_txn: "rocks_contract A M \<Longrightarrow> lookup_ok M (txn_get_cf_handle A self)"
  by (auto simp: lookup_ok_def txn_get_cf_handle_def dest: contract_handle split: if_splits)

lemma lookup_ok_optimistic: "rocks_contract A M \<Longrightarrow> lookup_ok M (optimistic_get_cf_handle A self)"
  by (auto simp: lookup_ok_def optimistic_get_cf_handle_def dest: contract_handle split: if_splits)

lemma target_by_name: "lookup_ok M H \<Longrightarrow> target_by H s cf = Inr t \<Longrightarrow> target_name M t = cf"
  by (auto simp: target_by_def lookup_ok_def and_then_eq_Inr split: if_splits)

text \<open>
  A transaction, with no other writer at work: it starts from the database; its writes stay in it; a
  successful commit makes the database what the transaction saw; a failed commit and a rollback leave
  the database alone. \<open>dbv\<close> is the view of the database, \<open>m_view M\<close> that of the transaction.
\<close>

definition txn_contract ::
    "('w, 'h) rocks_api \<Rightarrow> ('w, 'h) rocks_meaning \<Rightarrow> 'w txn_life \<Rightarrow> ('w \<Rightarrow> kv_view) \<Rightarrow> bool" where
  "txn_contract A M L dbv \<longleftrightarrow> rocks_contract A M
   \<and> (\<forall>w. m_view M (life_begin L w) = dbv w \<and> dbv (life_begin L w) = dbv w)
   \<and> (\<forall>w u w1. life_commit L w = (Inr u, w1) \<longrightarrow> dbv w1 = m_view M w)
   \<and> (\<forall>w e w1. life_commit L w = (Inl e, w1) \<longrightarrow> dbv w1 = dbv w)
   \<and> (\<forall>w. dbv (snd (life_rollback L w)) = dbv w)
   \<and> (\<forall>w t k v. dbv (snd (api_put A w t k v)) = dbv w)
   \<and> (\<forall>w t k x. dbv (snd (api_merge A w t k x)) = dbv w)
   \<and> (\<forall>w t k. dbv (snd (api_delete A w t k)) = dbv w)"

text \<open>The instance: the database and the copy that the transaction works on.\<close>

definition lift_write :: "mem effect \<Rightarrow> mem \<Rightarrow> (mem \<times> mem) effect" where
  "lift_write r d = (fst r, (d, snd r))"

definition mem_txn_api :: "(mem \<times> mem, string) rocks_api" where
  "mem_txn_api = \<lparr>
     api_cf_handle = (\<lambda>w. api_cf_handle mem_api (snd w)),
     api_get = (\<lambda>w. api_get mem_api (snd w)),
     api_multi_get = (\<lambda>w. api_multi_get mem_api (snd w)),
     api_put = (\<lambda>w t k v. lift_write (api_put mem_api (snd w) t k v) (fst w)),
     api_merge = (\<lambda>w t k x. lift_write (api_merge mem_api (snd w) t k x) (fst w)),
     api_delete = (\<lambda>w t k. lift_write (api_delete mem_api (snd w) t k) (fst w)),
     api_write = (\<lambda>w bops. lift_write (api_write mem_api (snd w) bops) (fst w)),
     api_iterator = (\<lambda>w. api_iterator mem_api (snd w)),
     api_prefix_iterator = (\<lambda>w. api_prefix_iterator mem_api (snd w))\<rparr>"

definition mem_txn_meaning :: "(mem \<times> mem, string) rocks_meaning" where
  "mem_txn_meaning = \<lparr>m_name = m_name mem_meaning, m_view = (\<lambda>w. m_view mem_meaning (snd w)),
     m_merge = m_merge mem_meaning\<rparr>"

definition mem_txn_life :: "(mem \<times> mem) txn_life" where
  "mem_txn_life = \<lparr>
     life_begin = (\<lambda>w. (fst w, fst w)),
     life_commit = (\<lambda>w. (Inr (), (snd w, snd w))),
     life_rollback = (\<lambda>w. (Inr (), (fst w, fst w)))\<rparr>"


lemma mem_txn_simps:
  "m_view mem_txn_meaning = (\<lambda>w. m_view mem_meaning (snd w))"
  "api_cf_handle mem_txn_api w = api_cf_handle mem_api (snd w)"
  "api_put mem_txn_api w t k v = lift_write (api_put mem_api (snd w) t k v) (fst w)"
  "api_merge mem_txn_api w t k v = lift_write (api_merge mem_api (snd w) t k v) (fst w)"
  "api_delete mem_txn_api w t k = lift_write (api_delete mem_api (snd w) t k) (fst w)"
  "api_write mem_txn_api w bops = lift_write (api_write mem_api (snd w) bops) (fst w)"
  by (simp_all add: mem_txn_meaning_def mem_txn_api_def)

lemma mem_txn_target: "target_name mem_txn_meaning t = mem_target t"
  by (cases t) (simp_all add: mem_txn_meaning_def)

lemma mem_txn_apply_op: "apply_op mem_txn_meaning w x = apply_op mem_meaning w x"
  by (cases x) (simp_all add: mem_txn_target, simp add: mem_txn_meaning_def)

lemma mem_txn_apply_ops: "apply_ops mem_txn_meaning w xs = apply_ops mem_meaning w xs"
  by (simp add: apply_ops_def mem_txn_apply_op [abs_def])

lemma effect_ok_lift:
  "effect_ok mem_api mem_meaning s r w \<Longrightarrow> effect_ok mem_txn_api mem_txn_meaning (d, s) (lift_write r d) w"
  by (simp add: effect_ok_def lift_write_def mem_txn_simps fun_eq_iff split: sum.splits)

lemma rocks_contract_mem_txn [simp]: "rocks_contract mem_txn_api mem_txn_meaning"
proof -
  have "write_contract mem_txn_api mem_txn_meaning"
    unfolding write_contract_def mem_txn_apply_op mem_txn_apply_ops
    using rocks_contract_mem [unfolded rocks_contract_def write_contract_def]
    by (auto simp: mem_txn_simps simp del: mem_api_simps mem_meaning_simps apply_op.simps
        intro!: effect_ok_lift)
  moreover have "read_contract mem_txn_api mem_txn_meaning"
    using rocks_contract_mem [unfolded rocks_contract_def read_contract_def]
    by (simp add: read_contract_def mem_txn_target, simp add: mem_txn_api_def mem_txn_meaning_def)
  ultimately show ?thesis by (simp add: rocks_contract_def)
qed

lemma txn_contract_mem [simp]:
  "txn_contract mem_txn_api mem_txn_meaning mem_txn_life (\<lambda>w. mem_view (fst w))"
  by (simp add: txn_contract_def mem_txn_life_def)
     (simp add: mem_txn_api_def mem_txn_meaning_def lift_write_def)

section \<open>Lemmas\<close>

lemma write_by_view:
  assumes "lookup_ok M H"
    and "\<And>t. target_name M t = cf \<Longrightarrow> effect_ok A M s (call t) w"
  shows "m_view M (snd (write_on (target_by H s cf) s call))
    = outcome (m_view M s) (fst (write_on (target_by H s cf) s call)) w"
  unfolding outcome_def
  by (rule write_on_effect, rule assms(2), rule target_by_name [OF assms(1)])

lemma ts_put_raw_view:
  "rocks_contract A M \<Longrightarrow> lookup_ok M H \<Longrightarrow> m_view M (snd (ts_put_raw A H s cf k bs))
     = outcome (m_view M s) (fst (ts_put_raw A H s cf k bs)) (upd (m_view M s) cf (as_bytes k) (Some bs))"
  unfolding ts_put_raw_def serialize_key_simp prepare_simps
  by (rule write_by_view) (auto dest: contract_put)

lemma ts_delete_view:
  "rocks_contract A M \<Longrightarrow> lookup_ok M H \<Longrightarrow> m_view M (snd (ts_delete A H s cf k))
     = outcome (m_view M s) (fst (ts_delete A H s cf k)) (upd (m_view M s) cf (as_bytes k) None)"
  unfolding ts_delete_def serialize_key_simp prepare_simps
  by (rule write_by_view) (auto dest: contract_delete)

lemma ts_merge_raw_view:
  "rocks_contract A M \<Longrightarrow> lookup_ok M H \<Longrightarrow> m_view M (snd (ts_merge_raw A H s cf k bs))
     = outcome (m_view M s) (fst (ts_merge_raw A H s cf k bs)) (merged M (m_view M s) cf (as_bytes k) bs)"
  unfolding merged_def ts_merge_raw_def serialize_key_simp prepare_simps
  by (rule write_by_view) (auto dest: contract_merge)

lemma ts_get_raw_view:
  "rocks_contract A M \<Longrightarrow> lookup_ok M H \<Longrightarrow> ts_get_raw A H s cf k = Inr x \<Longrightarrow>
     x = m_view M s cf (as_bytes k)"
  by (auto simp: ts_get_raw_def and_then_eq_Inr dest: target_by_name contract_get)

interpretation txn: cf_operations "rocks_contract A M \<and> lookup_ok M H" "m_view M"
    "ts_get_raw A H" "ts_put_raw A H" "ts_delete A H"
  for A :: "('s, 'h) rocks_api" and M H
  by unfold_locales (auto simp: ts_get_raw_view ts_put_raw_view ts_delete_view)

text \<open>Inside a transaction the operations are those of the store, run on the transaction.\<close>

lemma in_txn_eqs:
  "put_in_txn_cf A H c w cf k v = prepare (serialize_value c v) w (ts_put_raw A H w cf k)"
  "put_raw_in_txn A H w cf k bs = ts_put_raw A H w cf k bs"
  "delete_in_txn A H w cf k = ts_delete A H w cf k"
  "merge_in_txn A H cp w cf k p = prepare (serialize_value cp p) w (ts_merge_raw A H w cf k)"
  "merge_raw_in_txn A H w cf k bs = ts_merge_raw A H w cf k bs"
  "put_with_expiry_in_txn A H c w cf k v t
     = prepare (vwe_from_value c t v) w (\<lambda>vwe. ts_put_raw A H w cf k (serialize_for_storage vwe))"
  by (simp_all add: put_in_txn_cf_def put_raw_in_txn_def delete_in_txn_def merge_in_txn_def
      merge_raw_in_txn_def put_with_expiry_in_txn_def ts_put_raw_def [abs_def] ts_delete_def
      ts_merge_raw_def [abs_def])

subsection \<open>Sequences of calls within a transaction\<close>

datatype ('v, 'p) txn_call =
    TPut string key 'v
  | TPutRaw string key bytes
  | TPutWithExpiry string key 'v u64
  | TDelete string key
  | TMerge string key "'p merge_value"
  | TMergeRaw string key bytes

fun txn_step ::
    "('w, 'h) rocks_api \<Rightarrow> ('w, 'h) cf_lookup \<Rightarrow> 'v codec \<Rightarrow> 'p merge_value codec \<Rightarrow> ('v, 'p) txn_call
     \<Rightarrow> 'w \<Rightarrow> unit store_result \<times> 'w" where
  "txn_step A H cv cp (TPut cf k v) w = put_in_txn_cf A H cv w cf k v"
| "txn_step A H cv cp (TPutRaw cf k bs) w = put_raw_in_txn A H w cf k bs"
| "txn_step A H cv cp (TPutWithExpiry cf k v t) w = put_with_expiry_in_txn A H cv w cf k v t"
| "txn_step A H cv cp (TDelete cf k) w = delete_in_txn A H w cf k"
| "txn_step A H cv cp (TMerge cf k p) w = merge_in_txn A H cp w cf k p"
| "txn_step A H cv cp (TMergeRaw cf k bs) w = merge_raw_in_txn A H w cf k bs"

text \<open>An operation closure that makes the calls one after the other, each with the \<open>?\<close> operator.\<close>

fun txn_script ::
    "('w, 'h) rocks_api \<Rightarrow> ('w, 'h) cf_lookup \<Rightarrow> 'v codec \<Rightarrow> 'p merge_value codec \<Rightarrow> ('v, 'p) txn_call list
     \<Rightarrow> 'w \<Rightarrow> unit store_result \<times> 'w" where
  "txn_script A H cv cp [] w = (Inr (), w)"
| "txn_script A H cv cp (x # xs) w =
     (case txn_step A H cv cp x w of
        (Inl e, w1) \<Rightarrow> (Inl e, w1)
      | (Inr _, w1) \<Rightarrow> txn_script A H cv cp xs w1)"

fun as_write :: "('v, 'p) txn_call \<Rightarrow> ('v, 'p) write_call" where
  "as_write (TPut cf k v) = WPut cf k v"
| "as_write (TPutRaw cf k bs) = WPutRaw cf k bs"
| "as_write (TPutWithExpiry cf k v t) = WPutWithExpiry cf k v t"
| "as_write (TDelete cf k) = WDelete cf k"
| "as_write (TMerge cf k p) = WMerge cf k p"
| "as_write (TMergeRaw cf k bs) = WMergeRaw cf k bs"

lemma txn_step_view:
  assumes "rocks_contract A M" and "lookup_ok M H"
  shows "m_view M (snd (txn_step A H cv cp x w))
    = outcome (m_view M w) (fst (txn_step A H cv cp x w)) (write_effect M cv cp (m_view M w) (as_write x))"
  by (cases x)
     (auto simp: in_txn_eqs serialize_value_def vwe_from_value_def serialize_for_storage_def
       with_expiry_def ts_put_raw_view [OF assms] ts_delete_view [OF assms]
       ts_merge_raw_view [OF assms] outcome_def split: sum.splits)

lemma write_on_keeps:
  assumes "\<And>t. dbv (snd (call t)) = dbv w"
  shows "dbv (snd (write_on t w call)) = dbv w"
  using assms by (auto simp: write_on_def split: sum.splits prod.splits) (metis snd_conv)+

lemma txn_step_isolated:
  assumes "txn_contract A M L dbv"
  shows "dbv (snd (txn_step A H cv cp x w)) = dbv w"
proof -
  have raw: "dbv (snd (ts_put_raw A H w cf k bs)) = dbv w" "dbv (snd (ts_delete A H w cf k)) = dbv w"
    "dbv (snd (ts_merge_raw A H w cf k bs)) = dbv w" for cf k bs
    using assms unfolding ts_put_raw_def ts_delete_def ts_merge_raw_def txn_contract_def
    by (auto intro!: write_on_keeps)
  show ?thesis
    by (cases x) (auto simp: in_txn_eqs prepare_def raw split: sum.splits)
qed

lemma txn_script_isolated:
  "txn_contract A M L dbv \<Longrightarrow> dbv (snd (txn_script A H cv cp xs w)) = dbv w"
proof (induction xs arbitrary: w)
  case (Cons x xs)
  obtain r w1 where step: "txn_step A H cv cp x w = (r, w1)" by fastforce
  then have "dbv w1 = dbv w"
    using txn_step_isolated [OF Cons.prems, of H cv cp x w] by simp
  with Cons step show ?case by (cases r) simp_all
qed simp

lemma txn_script_view:
  assumes "rocks_contract A M" and "lookup_ok M H"
  shows "txn_script A H cv cp xs w = (Inr (), w1) \<Longrightarrow>
    m_view M w1 = foldl (write_effect M cv cp) (m_view M w) (map as_write xs)"
proof (induction xs arbitrary: w)
  case (Cons x xs)
  obtain r w2 where step: "txn_step A H cv cp x w = (r, w2)" by fastforce
  with Cons.prems obtain u where r: "r = Inr u" by (cases r) auto
  have "m_view M w2 = write_effect M cv cp (m_view M w) (as_write x)"
    using txn_step_view [OF assms, of cv cp x w] step r by (simp add: outcome_def)
  with Cons step r show ?case by simp
qed simp


lemma execute_transaction_cases:
  assumes "txn_contract A M L dbv" and "\<And>w. dbv (snd (operation w)) = dbv w"
  shows "dbv (snd (execute_transaction L operation w))
    = (case fst (execute_transaction L operation w) of
         Inl _ \<Rightarrow> dbv w
       | Inr _ \<Rightarrow> m_view M (snd (operation (life_begin L w))))"
proof -
  obtain r w2 where op1: "operation (life_begin L w) = (r, w2)" by fastforce
  have db2: "dbv w2 = dbv w"
    using assms(2) [of "life_begin L w"] assms(1) op1 by (simp add: txn_contract_def)
  show ?thesis
  proof (cases r)
    case (Inl e)
    with op1 db2 assms(1) show ?thesis
      by (simp add: execute_transaction_def begin_transaction_def Let_def txn_contract_def)
  next
    case (Inr a)
    obtain cr w3 where co: "life_commit L w2 = (cr, w3)" by fastforce
    show ?thesis
    proof (cases cr)
      case (Inl e)
      then have "dbv w3 = dbv w2" using co assms(1) unfolding txn_contract_def by blast
      with Inl Inr op1 co db2 show ?thesis
        by (simp add: execute_transaction_def begin_transaction_def Let_def)
    next
      case (Inr u)
      then have "dbv w3 = m_view M w2" using co assms(1) unfolding txn_contract_def by blast
      with Inr \<open>r = Inr a\<close> op1 co show ?thesis
        by (simp add: execute_transaction_def begin_transaction_def Let_def)
    qed
  qed
qed

lemma target_by_same: "H s cf = get_cf_handle A s cf \<Longrightarrow> target_by H s cf = target_of A s cf"
  by (simp add: target_by_def target_of_def)

lemma execute_script_view:
  assumes "txn_contract A M L dbv" and "lookup_ok M H"
    and "execute_transaction L (txn_script A H cv cp calls) w = (r, w1)"
  shows "dbv w1 = (case r of
      Inr _ \<Rightarrow> foldl (write_effect M cv cp) (dbv w) (map as_write calls)
    | Inl _ \<Rightarrow> dbv w)"
proof -
  let ?op = "txn_script A H cv cp calls"
  have c: "rocks_contract A M" using assms(1) by (simp add: txn_contract_def)
  have "dbv (snd (?op w)) = dbv w" for w
    by (rule txn_script_isolated [OF assms(1)])
  note view = execute_transaction_cases [where operation = ?op and w = w, OF assms(1) this, unfolded assms(3) fst_conv snd_conv]
  show ?thesis
  proof (cases r)
    case (Inr u)
    then obtain w2 where "?op (life_begin L w) = (Inr (), w2)"
      using assms(3) by (auto simp: execute_transaction_def begin_transaction_def Let_def
          split: prod.splits sum.splits)
    with txn_script_view [OF c assms(2) this] view Inr assms(1) show ?thesis
      by (simp add: txn_contract_def)
  qed (use view in simp)
qed

text \<open>Where both find the same families, the operations of the macro are those of the plain store.\<close>

lemma same_targets:
  assumes "\<And>cf. target_by H s cf = target_of A s cf"
  shows "ts_get A H c s cf k = get A c s cf k"
    and "ts_get_with_expiry A H s cf k = get_with_expiry A s cf k"
    and "ts_exists A H s cf k = exists A s cf k"
    and "ts_multiget A H c s cf ks = multiget A c s cf ks"
    and "ts_multiget_with_expiry A H s cf ks = multiget_with_expiry A s cf ks"
    and "ts_put A H c s cf k v = put A c s cf k v"
    and "ts_put_with_expiry A H c s cf k v t = put_with_expiry A c s cf k v t"
    and "ts_delete A H s cf k = delete A s cf k"
    and "ts_merge A H cp s cf k p = merge A cp s cf k p"
    and "ts_merge_with_expiry A H c s cf k v t = merge_with_expiry A c s cf k v t"
    and "ts_find_by_prefix A H dec c s cf k dir = find_by_prefix A dec c s cf k dir"
    and "ts_find_from A H dec c s cf k dir f env = find_from A dec c s cf k dir f env"
proof -
  have it: "ts_iterate A H s cfg = iterate A s cfg" for cfg :: "('x, 'y, 'z) iter_config"
    by (simp add: ts_iterate_def iterate_def Let_def assms general_iterator_factory_def [abs_def]
        prefix_iterator_factory_def [abs_def])
  have raw: "ts_get_raw A H s cf k = get_raw A s cf k" "ts_put_raw A H s cf k bs = put_raw A s cf k bs"
    "ts_merge_raw A H s cf k bs = merge_raw A s cf k bs"
    "ts_multiget_raw A H s cf ks = multiget_raw A s cf ks" for bs
    by (simp_all add: ts_get_raw_def get_raw_def ts_put_raw_def put_raw_def ts_merge_raw_def
        merge_raw_def ts_multiget_raw_def multiget_raw_def assms)
  show "ts_get A H c s cf k = get A c s cf k"
    and "ts_get_with_expiry A H s cf k = get_with_expiry A s cf k"
    and "ts_exists A H s cf k = exists A s cf k"
    and "ts_multiget A H c s cf ks = multiget A c s cf ks"
    and "ts_multiget_with_expiry A H s cf ks = multiget_with_expiry A s cf ks"
    and "ts_put A H c s cf k v = put A c s cf k v"
    and "ts_put_with_expiry A H c s cf k v t = put_with_expiry A c s cf k v t"
    and "ts_delete A H s cf k = delete A s cf k"
    and "ts_merge A H cp s cf k p = merge A cp s cf k p"
    and "ts_merge_with_expiry A H c s cf k v t = merge_with_expiry A c s cf k v t"
    and "ts_find_by_prefix A H dec c s cf k dir = find_by_prefix A dec c s cf k dir"
    and "ts_find_from A H dec c s cf k dir f env = find_from A dec c s cf k dir f env"
    by (simp_all add: assms raw it ts_get_def get_def ts_get_with_expiry_def get_with_expiry_def
        ts_exists_def exists_def ts_multiget_def multiget_def ts_multiget_with_expiry_def
        multiget_with_expiry_def ts_put_def put_def ts_put_with_expiry_def put_with_expiry_def
        ts_delete_def delete_def ts_merge_def merge_def ts_merge_with_expiry_def
        merge_with_expiry_def ts_find_by_prefix_def find_by_prefix_def ts_find_from_def find_from_def)
qed

section \<open>Properties\<close>

text \<open>
  C8: A transaction is all or nothing. When the closure of \<open>execute_transaction\<close> makes any sequence of
  writes within the transaction, each on any column family and with the \<open>?\<close> operator, then a success
  means that the database has changed by all of them in order, as the store's own operations would
  have done; on any error, of an encoding, a column family, the database or the commit, the database is
  what it was.
\<close>

theorem execute_transaction_atomic:
  assumes "txn_contract A M L dbv" and "lookup_ok M H"
    and "execute_transaction L (txn_script A H cv cp calls) w = (r, w1)"
  shows "dbv w1 = (case r of
      Inr _ \<Rightarrow> foldl (write_effect M cv cp) (dbv w) (map as_write calls)
    | Inl _ \<Rightarrow> dbv w)"
  by (rule execute_script_view [OF assms])

definition sample_txn_calls :: "(bytes, bytes) txn_call list" where
  "sample_txn_calls = [TPut ''users'' (KVec [1]) [20], TDelete ''users'' (KVec [2])]"

definition sample_txn_store :: cf_txn_store where
  "sample_txn_store = \<lparr>ts_cf_names = [''default'', ''users''], ts_path = ''db''\<rparr>"

abbreviation sample_lookup :: "(mem \<times> mem, string) cf_lookup" where
  "sample_lookup \<equiv> txn_get_cf_handle mem_txn_api sample_txn_store"

lemma execute_transaction_sample:
  "\<exists>w1. execute_transaction mem_txn_life
      (txn_script mem_txn_api sample_lookup raw_codec patch_codec sample_txn_calls)
      (sample_db, sample_db) = (Inr (), w1)"
  by (simp add: execute_transaction_def begin_transaction_def Let_def mem_txn_life_def sample_txn_calls_def
      in_txn_eqs ts_put_raw_def ts_delete_def target_by_def txn_get_cf_handle_def sample_txn_store_def
      mem_txn_simps lift_write_def mem_eval)

theorem execute_transaction_atomic_witness:
  "\<exists>w1. execute_transaction mem_txn_life
      (txn_script mem_txn_api sample_lookup raw_codec patch_codec sample_txn_calls)
      (sample_db, sample_db) = (Inr (), w1)
    \<and> mem_view (fst w1) ''users'' [1] = Some [20] \<and> mem_view (fst w1) ''users'' [2] = None"
proof -
  obtain w1 where w1: "execute_transaction mem_txn_life
      (txn_script mem_txn_api sample_lookup raw_codec patch_codec sample_txn_calls)
      (sample_db, sample_db) = (Inr (), w1)"
    using execute_transaction_sample by blast
  have "mem_view (fst w1) = foldl (write_effect mem_txn_meaning raw_codec patch_codec)
      (mem_view sample_db) (map as_write sample_txn_calls)"
    using execute_transaction_atomic [OF txn_contract_mem lookup_ok_txn [OF rocks_contract_mem_txn] w1]
    by simp
  with w1 show ?thesis
    by (auto simp: sample_txn_calls_def raw_codec_def upd_def)
qed

text \<open>
  A transaction reads its own writes, and only it does. After a typed write within the transaction
  a typed read of the same key within it returns the value, while the database still has what it had.
\<close>

theorem read_your_own_writes:
  assumes "txn_contract A M L dbv" and "lookup_ok M H" and "codec_ok c"
    and "put_in_txn_cf A H c w cf k v = (Inr (), w1)" and "txn_get_in_txn A H c w1 cf k = Inr x"
  shows "x = Some v \<and> dbv w1 = dbv w"
proof -
  have c: "rocks_contract A M \<and> lookup_ok M H" using assms(1,2) by (simp add: txn_contract_def)
  obtain bs where ser: "serialize_value c v = Inr bs" and put: "ts_put_raw A H w cf k bs = (Inr (), w1)"
    using assms(4) by (auto simp: in_txn_eqs prepare_def split: sum.splits)
  have "txn_get_in_txn A H c w1 cf k = and_then (ts_get_raw A H w1 cf k) (opt_try (deserialize_value c))"
    by (cases "target_by H w1 cf") (simp_all add: txn_get_in_txn_def ts_get_raw_def)
  with assms(5) obtain y where y: "ts_get_raw A H w1 cf k = Inr y" "opt_try (deserialize_value c) y = Inr x"
    by (auto simp: and_then_eq_Inr)
  have "y = Some bs" by (rule txn.read_after_write [OF c put y(1)])
  with y(2) ser assms(3) have "x = Some v" by (auto dest: codec_okD)
  moreover have "dbv w1 = dbv w"
    using txn_step_isolated [OF assms(1), of H c _ "TPut cf k v" w] assms(4) by simp
  ultimately show ?thesis by simp
qed

theorem read_your_own_writes_witness:
  "\<exists>w1. put_in_txn_cf mem_txn_api sample_lookup raw_codec (sample_db, sample_db) ''users'' (KVec [9]) [7]
       = (Inr (), w1)
     \<and> txn_get_in_txn mem_txn_api sample_lookup raw_codec w1 ''users'' (KVec [9]) = Inr (Some [7])
     \<and> mem_view (fst w1) = mem_view sample_db"
proof -
  note calc = put_in_txn_cf_def txn_get_in_txn_def target_by_def txn_get_cf_handle_def
    sample_txn_store_def mem_txn_simps lift_write_def mem_eval
  obtain w1 x where p: "put_in_txn_cf mem_txn_api sample_lookup raw_codec (sample_db, sample_db)
      ''users'' (KVec [9]) [7] = (Inr (), w1)"
    and g: "txn_get_in_txn mem_txn_api sample_lookup raw_codec w1 ''users'' (KVec [9]) = Inr x"
    by (simp add: calc) (simp add: mem_txn_api_def mem_eval)
  from read_your_own_writes [OF txn_contract_mem lookup_ok_txn [OF rocks_contract_mem_txn] codec_ok_raw p g]
  show ?thesis using p g by auto
qed



end
