(* ===== verification/Txn_Context.thy ===== *)
theory Txn_Context
  imports Txn_Store
begin

text \<open>
  \<open>src/tx/context.rs\<close>: the \<open>TransactionContext\<close> around one transaction of the pessimistic store.

  The context holds the transaction in a \<open>ManuallyDrop\<close>, so its memory is managed by hand. The calls
  that the context makes on the native transaction when it ends are recorded as a list of \<open>native\<close>
  events; \<open>Destroy\<close> is what dropping a \<open>Transaction\<close> value does. A list is \<open>well_used\<close> when the
  transaction is destroyed exactly once and not touched afterwards. The world \<open>'w\<close>, the interface \<open>A\<close>
  of the transaction, the lookup \<open>H\<close> and the calls \<open>L\<close> are those of \<open>Txn_Store\<close>.
\<close>

section \<open>The context\<close>

record txn_context =
  completed :: bool

definition ctx_new :: "'w txn_life \<Rightarrow> 'w \<Rightarrow> txn_context \<times> 'w" where
  "ctx_new L w = (let w1 = begin_transaction L w in (\<lparr>completed = False\<rparr>, w1))"

definition ctx_check_completed :: "txn_context \<Rightarrow> unit store_result" where
  "ctx_check_completed self =
     (if completed self then
        Inl (Other ''TransactionContext already completed (committed or rolled back)'')
      else Inr ())"

subsection \<open>Default column family\<close>

definition ctx_set ::
    "('w, 'h) rocks_api \<Rightarrow> ('w, 'h) cf_lookup \<Rightarrow> 'v codec \<Rightarrow> txn_context \<Rightarrow> 'w \<Rightarrow> key \<Rightarrow> 'v
     \<Rightarrow> unit store_result \<times> 'w" where
  "ctx_set A H c self txn key val =
     prepare (ctx_check_completed self) txn (\<lambda>_.
       put_in_txn_cf A H c txn DEFAULT_COLUMN_FAMILY_NAME key val)"

text \<open>A call of the transaction on the default column family.\<close>

definition on_default :: "'w effect \<Rightarrow> unit store_result \<times> 'w" where
  "on_default r = (case r of (x, w) \<Rightarrow> (map_err RocksDb x, w))"

definition ctx_set_raw ::
    "('w, 'h) rocks_api \<Rightarrow> txn_context \<Rightarrow> 'w \<Rightarrow> key \<Rightarrow> bytes \<Rightarrow> unit store_result \<times> 'w" where
  "ctx_set_raw A self txn key raw_val =
     prepare (ctx_check_completed self) txn (\<lambda>_.
     prepare (serialize_key key) txn (\<lambda>ser_key.
       on_default (api_put A txn DefaultCf ser_key raw_val)))"

definition ctx_set_with_expiry ::
    "('w, 'h) rocks_api \<Rightarrow> 'v codec \<Rightarrow> txn_context \<Rightarrow> 'w \<Rightarrow> key \<Rightarrow> 'v \<Rightarrow> u64
     \<Rightarrow> unit store_result \<times> 'w" where
  "ctx_set_with_expiry A c self txn key val t =
     prepare (ctx_check_completed self) txn (\<lambda>_.
     prepare (serialize_key key) txn (\<lambda>ser_key.
     prepare (vwe_from_value c t val) txn (\<lambda>vwe.
       on_default (api_put A txn DefaultCf ser_key (serialize_for_storage vwe)))))"

definition ctx_merge ::
    "('w, 'h) rocks_api \<Rightarrow> 'p merge_value codec \<Rightarrow> txn_context \<Rightarrow> 'w \<Rightarrow> key \<Rightarrow> 'p merge_value
     \<Rightarrow> unit store_result \<times> 'w" where
  "ctx_merge A c self txn key merge_val =
     prepare (ctx_check_completed self) txn (\<lambda>_.
     prepare (serialize_key key) txn (\<lambda>ser_key.
     prepare (serialize_value c merge_val) txn (\<lambda>ser_merge_op.
       on_default (api_merge A txn DefaultCf ser_key ser_merge_op))))"

definition ctx_merge_raw ::
    "('w, 'h) rocks_api \<Rightarrow> txn_context \<Rightarrow> 'w \<Rightarrow> key \<Rightarrow> bytes \<Rightarrow> unit store_result \<times> 'w" where
  "ctx_merge_raw A self txn key raw_merge_op =
     prepare (ctx_check_completed self) txn (\<lambda>_.
     prepare (serialize_key key) txn (\<lambda>ser_key.
       on_default (api_merge A txn DefaultCf ser_key raw_merge_op)))"

definition ctx_delete ::
    "('w, 'h) rocks_api \<Rightarrow> txn_context \<Rightarrow> 'w \<Rightarrow> key \<Rightarrow> unit store_result \<times> 'w" where
  "ctx_delete A self txn key =
     prepare (ctx_check_completed self) txn (\<lambda>_.
     prepare (serialize_key key) txn (\<lambda>ser_key.
       on_default (api_delete A txn DefaultCf ser_key)))"

definition ctx_get ::
    "('w, 'h) rocks_api \<Rightarrow> ('w, 'h) cf_lookup \<Rightarrow> 'v codec \<Rightarrow> txn_context \<Rightarrow> 'w \<Rightarrow> key
     \<Rightarrow> 'v option store_result" where
  "ctx_get A H c self txn key =
     and_then (ctx_check_completed self) (\<lambda>_.
       txn_get_in_txn A H c txn DEFAULT_COLUMN_FAMILY_NAME key)"

definition ctx_get_raw ::
    "('w, 'h) rocks_api \<Rightarrow> txn_context \<Rightarrow> 'w \<Rightarrow> key \<Rightarrow> bytes option store_result" where
  "ctx_get_raw A self txn key =
     and_then (ctx_check_completed self) (\<lambda>_.
     and_then (serialize_key key) (\<lambda>ser_key.
     and_then (map_err RocksDb (api_get A txn DefaultCf ser_key)) (\<lambda>opt_val.
       case opt_val of Some pinned_val \<Rightarrow> Inr (Some pinned_val) | None \<Rightarrow> Inr None)))"

definition ctx_get_with_expiry ::
    "('w, 'h) rocks_api \<Rightarrow> txn_context \<Rightarrow> 'w \<Rightarrow> key \<Rightarrow> value_with_expiry option store_result" where
  "ctx_get_with_expiry A self txn key =
     and_then (ctx_check_completed self) (\<lambda>_.
     and_then (ctx_get_raw A self txn key) (\<lambda>opt_raw. opt_try vwe_from_slice opt_raw))"

definition ctx_exists ::
    "('w, 'h) rocks_api \<Rightarrow> txn_context \<Rightarrow> 'w \<Rightarrow> key \<Rightarrow> bool store_result" where
  "ctx_exists A self txn key =
     and_then (ctx_check_completed self) (\<lambda>_.
     and_then (serialize_key key) (\<lambda>ser_key.
     and_then (map_err RocksDb (api_get A txn DefaultCf ser_key)) (\<lambda>opt_val.
       case opt_val of Some _ \<Rightarrow> Inr True | None \<Rightarrow> Inr False)))"

subsection \<open>Named column families\<close>

definition ctx_put_cf ::
    "('w, 'h) rocks_api \<Rightarrow> ('w, 'h) cf_lookup \<Rightarrow> 'v codec \<Rightarrow> txn_context \<Rightarrow> 'w \<Rightarrow> string \<Rightarrow> key \<Rightarrow> 'v
     \<Rightarrow> unit store_result \<times> 'w" where
  "ctx_put_cf A H c self txn cf_name key val =
     prepare (ctx_check_completed self) txn (\<lambda>_. put_in_txn_cf A H c txn cf_name key val)"

definition ctx_put_cf_raw ::
    "('w, 'h) rocks_api \<Rightarrow> ('w, 'h) cf_lookup \<Rightarrow> txn_context \<Rightarrow> 'w \<Rightarrow> string \<Rightarrow> key \<Rightarrow> bytes
     \<Rightarrow> unit store_result \<times> 'w" where
  "ctx_put_cf_raw A H self txn cf_name key raw_val =
     prepare (ctx_check_completed self) txn (\<lambda>_. put_raw_in_txn A H txn cf_name key raw_val)"

definition ctx_put_cf_with_expiry ::
    "('w, 'h) rocks_api \<Rightarrow> ('w, 'h) cf_lookup \<Rightarrow> 'v codec \<Rightarrow> txn_context \<Rightarrow> 'w \<Rightarrow> string \<Rightarrow> key \<Rightarrow> 'v \<Rightarrow> u64
     \<Rightarrow> unit store_result \<times> 'w" where
  "ctx_put_cf_with_expiry A H c self txn cf_name key val t =
     prepare (ctx_check_completed self) txn (\<lambda>_. put_with_expiry_in_txn A H c txn cf_name key val t)"

definition ctx_merge_cf ::
    "('w, 'h) rocks_api \<Rightarrow> ('w, 'h) cf_lookup \<Rightarrow> 'p merge_value codec \<Rightarrow> txn_context \<Rightarrow> 'w \<Rightarrow> string
     \<Rightarrow> key \<Rightarrow> 'p merge_value \<Rightarrow> unit store_result \<times> 'w" where
  "ctx_merge_cf A H c self txn cf_name key merge_val =
     prepare (ctx_check_completed self) txn (\<lambda>_. merge_in_txn A H c txn cf_name key merge_val)"

definition ctx_merge_cf_raw ::
    "('w, 'h) rocks_api \<Rightarrow> ('w, 'h) cf_lookup \<Rightarrow> txn_context \<Rightarrow> 'w \<Rightarrow> string \<Rightarrow> key \<Rightarrow> bytes
     \<Rightarrow> unit store_result \<times> 'w" where
  "ctx_merge_cf_raw A H self txn cf_name key raw_merge_op =
     prepare (ctx_check_completed self) txn (\<lambda>_. merge_raw_in_txn A H txn cf_name key raw_merge_op)"

definition ctx_delete_cf ::
    "('w, 'h) rocks_api \<Rightarrow> ('w, 'h) cf_lookup \<Rightarrow> txn_context \<Rightarrow> 'w \<Rightarrow> string \<Rightarrow> key
     \<Rightarrow> unit store_result \<times> 'w" where
  "ctx_delete_cf A H self txn cf_name key =
     prepare (ctx_check_completed self) txn (\<lambda>_. delete_in_txn A H txn cf_name key)"

definition ctx_get_cf ::
    "('w, 'h) rocks_api \<Rightarrow> ('w, 'h) cf_lookup \<Rightarrow> 'v codec \<Rightarrow> txn_context \<Rightarrow> 'w \<Rightarrow> string \<Rightarrow> key
     \<Rightarrow> 'v option store_result" where
  "ctx_get_cf A H c self txn cf_name key =
     and_then (ctx_check_completed self) (\<lambda>_. txn_get_in_txn A H c txn cf_name key)"

definition ctx_get_cf_raw ::
    "('w, 'h) rocks_api \<Rightarrow> ('w, 'h) cf_lookup \<Rightarrow> txn_context \<Rightarrow> 'w \<Rightarrow> string \<Rightarrow> key
     \<Rightarrow> bytes option store_result" where
  "ctx_get_cf_raw A H self txn cf_name key =
     and_then (ctx_check_completed self) (\<lambda>_. txn_get_raw_in_txn A H txn cf_name key)"

definition ctx_get_cf_with_expiry ::
    "('w, 'h) rocks_api \<Rightarrow> ('w, 'h) cf_lookup \<Rightarrow> txn_context \<Rightarrow> 'w \<Rightarrow> string \<Rightarrow> key
     \<Rightarrow> value_with_expiry option store_result" where
  "ctx_get_cf_with_expiry A H self txn cf_name key =
     and_then (ctx_check_completed self) (\<lambda>_. txn_get_with_expiry_in_txn A H txn cf_name key)"

definition ctx_exists_cf ::
    "('w, 'h) rocks_api \<Rightarrow> ('w, 'h) cf_lookup \<Rightarrow> txn_context \<Rightarrow> 'w \<Rightarrow> string \<Rightarrow> key \<Rightarrow> bool store_result" where
  "ctx_exists_cf A H self txn cf_name key =
     and_then (ctx_check_completed self) (\<lambda>_. txn_exists_in_txn A H txn cf_name key)"

subsection \<open>Iteration\<close>

definition ctx_iterate ::
    "('w, 'h) rocks_api \<Rightarrow> ('w, 'h) cf_lookup \<Rightarrow> txn_context \<Rightarrow> 'w \<Rightarrow> ('c, 'k, 'v) iter_config
     \<Rightarrow> ('c, 'k, 'v) iteration_result store_result \<times> 'c" where
  "ctx_iterate A H self txn cfg =
     prepare (ctx_check_completed self) (cfg_env cfg) (\<lambda>_.
       let general_iterator_factory =
             (\<lambda>mode. map_ok (\<lambda>target. api_iterator A txn target mode) (target_by H txn (cfg_cf_name cfg)));
           prefix_iterator_factory =
             (\<lambda>prefix_bytes. map_ok (\<lambda>target. api_prefix_iterator A txn target prefix_bytes)
                (target_by H txn (cfg_cf_name cfg)))
       in execute cfg general_iterator_factory prefix_iterator_factory)"

definition ctx_find_by_prefix ::
    "('w, 'h) rocks_api \<Rightarrow> ('w, 'h) cf_lookup \<Rightarrow> (bytes \<Rightarrow> (string, 'k) result) \<Rightarrow> 'v codec \<Rightarrow> txn_context
     \<Rightarrow> 'w \<Rightarrow> string \<Rightarrow> key \<Rightarrow> direction \<Rightarrow> ('k \<times> 'v) list store_result option" where
  "ctx_find_by_prefix A H dec c self txn cf_name prefix direction =
     map_option fst (collect_items ''find_by_prefix''
       (ctx_iterate A H self txn
         (new_deserializing cf_name (Some prefix) None (direction = Reverse) None
           (kv_deserializer dec c) ())))"

definition ctx_find_from ::
    "('w, 'h) rocks_api \<Rightarrow> ('w, 'h) cf_lookup \<Rightarrow> (bytes \<Rightarrow> (string, 'k) result) \<Rightarrow> 'v codec \<Rightarrow> txn_context
     \<Rightarrow> 'w \<Rightarrow> string \<Rightarrow> key \<Rightarrow> direction \<Rightarrow> 'c control \<Rightarrow> 'c \<Rightarrow> (('k \<times> 'v) list store_result \<times> 'c) option" where
  "ctx_find_from A H dec c self txn cf_name start_key direction control_fn env =
     collect_items ''find_from''
       (ctx_iterate A H self txn
         (new_deserializing cf_name None (Some start_key) (direction = Reverse) (Some control_fn)
           (kv_deserializer dec c) env))"

definition ctx_find_from_with_expire_val ::
    "('w, 'h) rocks_api \<Rightarrow> ('w, 'h) cf_lookup \<Rightarrow> (bytes \<Rightarrow> (string, 'k) result) \<Rightarrow> txn_context \<Rightarrow> 'w
     \<Rightarrow> string \<Rightarrow> key \<Rightarrow> bool \<Rightarrow> 'c control \<Rightarrow> 'c
     \<Rightarrow> ((string, ('k \<times> value_with_expiry) list) result \<times> 'c) option" where
  "ctx_find_from_with_expire_val A H dec self txn cf_name start reverse control_fn env =
     collect_items_short ''Expected DeserializedItems''
       (ctx_iterate A H self txn
         (new_deserializing cf_name None (Some start) reverse (Some control_fn)
           (kv_expiry_deserializer dec) env))"

text \<open>
  \<open>tx\<close> and \<open>tx_mut\<close> hand out the transaction itself: \<open>f\<close> is what the caller does with it.
\<close>

definition ctx_tx :: "txn_context \<Rightarrow> 'w \<Rightarrow> ('w \<Rightarrow> 'a) \<Rightarrow> 'a store_result" where
  "ctx_tx self w f = and_then (ctx_check_completed self) (\<lambda>_. Inr (f w))"

definition ctx_tx_mut :: "txn_context \<Rightarrow> 'w \<Rightarrow> ('w \<Rightarrow> 'a \<times> 'w) \<Rightarrow> 'a store_result \<times> 'w" where
  "ctx_tx_mut self w f =
     prepare (ctx_check_completed self) w (\<lambda>_. case f w of (a, w1) \<Rightarrow> (Inr a, w1))"

section \<open>Its end\<close>

datatype native = Commit | Rollback | Destroy

fun well_used :: "native list \<Rightarrow> bool" where
  "well_used [] = False"
| "well_used (Destroy # es) = (es = [])"
| "well_used (_ # es) = well_used es"

text \<open>
  The destructor. \<open>ptr::read\<close> takes the transaction out of the field whatever is in it; the value that
  was taken is destroyed at the end of the block.
\<close>

definition ctx_drop :: "'w txn_life \<Rightarrow> txn_context \<Rightarrow> 'w \<Rightarrow> 'w \<times> native list" where
  "ctx_drop L self w =
     (if \<not> completed self then (snd (life_rollback L w), [Rollback, Destroy]) else (w, []))"

text \<open>
  \<open>commit\<close> copies the transaction out of the field, and \<open>Transaction::commit\<close> consumes the copy. On an
  error the \<open>?\<close> returns before the flag is set, so the destructor of the context takes the same
  transaction once more.
\<close>

definition ctx_commit ::
    "'w txn_life \<Rightarrow> txn_context \<Rightarrow> 'w \<Rightarrow> unit store_result \<times> 'w \<times> native list" where
  "ctx_commit L self w =
     (case ctx_check_completed self of
        Inl e \<Rightarrow> (case ctx_drop L self w of (w1, es) \<Rightarrow> (Inl e, w1, es))
      | Inr _ \<Rightarrow>
          (case life_commit L w of
             (Inl e, w1) \<Rightarrow>
               (case ctx_drop L self w1 of
                  (w2, es) \<Rightarrow> (Inl (RocksDb e), w2, [Commit, Destroy] @ es))
           | (Inr _, w1) \<Rightarrow>
               (case ctx_drop L (self\<lparr>completed := True\<rparr>) w1 of
                  (w2, es) \<Rightarrow> (Inr (), w2, [Commit, Destroy] @ es))))"

text \<open>\<open>rollback\<close> borrows the transaction; once the flag is set, nothing destroys it.\<close>

definition ctx_rollback ::
    "'w txn_life \<Rightarrow> txn_context \<Rightarrow> 'w \<Rightarrow> unit store_result \<times> 'w \<times> native list" where
  "ctx_rollback L self w =
     (case ctx_check_completed self of
        Inl e \<Rightarrow> (case ctx_drop L self w of (w1, es) \<Rightarrow> (Inl e, w1, es))
      | Inr _ \<Rightarrow>
          (case life_rollback L w of
             (Inl e, w1) \<Rightarrow>
               (case ctx_drop L self w1 of
                  (w2, es) \<Rightarrow> (Inl (RocksDb e), w2, [Rollback] @ es))
           | (Inr _, w1) \<Rightarrow>
               (case ctx_drop L (self\<lparr>completed := True\<rparr>) w1 of
                  (w2, es) \<Rightarrow> (Inr (), w2, [Rollback] @ es))))"


section \<open>The life of a context\<close>

text \<open>
  A context is created, some of its methods are called, and it ends in one of three ways. The relation
  is over the context type and its methods, so that both kinds of context are instances.
\<close>

datatype ('c, 'w) stage = Live 'c 'w | Ended "native list"

inductive life ::
    "'c \<times> 'w \<Rightarrow> ('x \<Rightarrow> 'c \<Rightarrow> 'w \<Rightarrow> 'w) \<Rightarrow> ('c \<Rightarrow> 'w \<Rightarrow> native list) \<Rightarrow> ('c \<Rightarrow> 'w \<Rightarrow> native list)
     \<Rightarrow> ('c \<Rightarrow> 'w \<Rightarrow> native list) \<Rightarrow> ('c, 'w) stage \<Rightarrow> bool"
  for new and "call" and commits and rolls_back and drops where
  life_new: "life new call commits rolls_back drops (Live (fst new) (snd new))"
| life_call: "life new call commits rolls_back drops (Live c w) \<Longrightarrow>
     life new call commits rolls_back drops (Live c (call x c w))"
| life_commit: "life new call commits rolls_back drops (Live c w) \<Longrightarrow>
     life new call commits rolls_back drops (Ended (commits c w))"
| life_rollback: "life new call commits rolls_back drops (Live c w) \<Longrightarrow>
     life new call commits rolls_back drops (Ended (rolls_back c w))"
| life_drop: "life new call commits rolls_back drops (Live c w) \<Longrightarrow>
     life new call commits rolls_back drops (Ended (drops c w))"

text \<open>The writing methods of a context, as data.\<close>

datatype ('v, 'p) ctx_call =
    CxSet key 'v
  | CxSetRaw key bytes
  | CxSetWithExpiry key 'v u64
  | CxMerge key "'p merge_value"
  | CxMergeRaw key bytes
  | CxDelete key
  | CxCf "('v, 'p) txn_call"

fun ctx_cf_step ::
    "('w, 'h) rocks_api \<Rightarrow> ('w, 'h) cf_lookup \<Rightarrow> 'v codec \<Rightarrow> 'p merge_value codec \<Rightarrow> txn_context
     \<Rightarrow> ('v, 'p) txn_call \<Rightarrow> 'w \<Rightarrow> unit store_result \<times> 'w" where
  "ctx_cf_step A H cv cp self (TPut cf k v) w = ctx_put_cf A H cv self w cf k v"
| "ctx_cf_step A H cv cp self (TPutRaw cf k bs) w = ctx_put_cf_raw A H self w cf k bs"
| "ctx_cf_step A H cv cp self (TPutWithExpiry cf k v t) w = ctx_put_cf_with_expiry A H cv self w cf k v t"
| "ctx_cf_step A H cv cp self (TDelete cf k) w = ctx_delete_cf A H self w cf k"
| "ctx_cf_step A H cv cp self (TMerge cf k p) w = ctx_merge_cf A H cp self w cf k p"
| "ctx_cf_step A H cv cp self (TMergeRaw cf k bs) w = ctx_merge_cf_raw A H self w cf k bs"

fun ctx_step ::
    "('w, 'h) rocks_api \<Rightarrow> ('w, 'h) cf_lookup \<Rightarrow> 'v codec \<Rightarrow> 'p merge_value codec \<Rightarrow> txn_context
     \<Rightarrow> ('v, 'p) ctx_call \<Rightarrow> 'w \<Rightarrow> unit store_result \<times> 'w" where
  "ctx_step A H cv cp self (CxSet k v) w = ctx_set A H cv self w k v"
| "ctx_step A H cv cp self (CxSetRaw k bs) w = ctx_set_raw A self w k bs"
| "ctx_step A H cv cp self (CxSetWithExpiry k v t) w = ctx_set_with_expiry A cv self w k v t"
| "ctx_step A H cv cp self (CxMerge k p) w = ctx_merge A cp self w k p"
| "ctx_step A H cv cp self (CxMergeRaw k bs) w = ctx_merge_raw A self w k bs"
| "ctx_step A H cv cp self (CxDelete k) w = ctx_delete A self w k"
| "ctx_step A H cv cp self (CxCf x) w = ctx_cf_step A H cv cp self x w"

text \<open>The call within a transaction that a method stands for.\<close>

fun as_txn_call :: "('v, 'p) ctx_call \<Rightarrow> ('v, 'p) txn_call" where
  "as_txn_call (CxSet k v) = TPut DEFAULT_COLUMN_FAMILY_NAME k v"
| "as_txn_call (CxSetRaw k bs) = TPutRaw DEFAULT_COLUMN_FAMILY_NAME k bs"
| "as_txn_call (CxSetWithExpiry k v t) = TPutWithExpiry DEFAULT_COLUMN_FAMILY_NAME k v t"
| "as_txn_call (CxMerge k p) = TMerge DEFAULT_COLUMN_FAMILY_NAME k p"
| "as_txn_call (CxMergeRaw k bs) = TMergeRaw DEFAULT_COLUMN_FAMILY_NAME k bs"
| "as_txn_call (CxDelete k) = TDelete DEFAULT_COLUMN_FAMILY_NAME k"
| "as_txn_call (CxCf x) = x"

text \<open>A sequence of calls whose results the caller may ignore; the calls that reported success.\<close>

fun run_calls :: "('x \<Rightarrow> 'w \<Rightarrow> unit store_result \<times> 'w) \<Rightarrow> 'x list \<Rightarrow> 'w \<Rightarrow> 'x list \<times> 'w" where
  "run_calls step [] w = ([], w)"
| "run_calls step (x # xs) w =
     (case step x w of
        (Inl _, w1) \<Rightarrow> run_calls step xs w1
      | (Inr _, w1) \<Rightarrow> (case run_calls step xs w1 of (ys, w2) \<Rightarrow> (x # ys, w2)))"

section \<open>Lemmas\<close>

lemma target_by_default [simp]: "target_by H w DEFAULT_COLUMN_FAMILY_NAME = Inr DefaultCf"
  by (simp add: target_by_def)

lemma check_live: "\<not> completed self \<Longrightarrow> ctx_check_completed self = Inr ()"
  by (simp add: ctx_check_completed_def)

lemma on_default_write: "on_default (f DefaultCf) = write_on (Inr DefaultCf) w f"
  by (simp add: on_default_def write_on_def)

lemma ctx_step_eq:
  "\<not> completed self \<Longrightarrow> ctx_step A H cv cp self x w = txn_step A H cv cp (as_txn_call x) w"
proof (cases x)
  case (CxCf y)
  then show "\<not> completed self \<Longrightarrow> ?thesis"
    by (cases y) (simp_all add: check_live ctx_put_cf_def ctx_put_cf_raw_def
        ctx_put_cf_with_expiry_def ctx_merge_cf_def ctx_merge_cf_raw_def ctx_delete_cf_def)
qed (simp_all add: check_live ctx_set_def ctx_set_raw_def ctx_set_with_expiry_def ctx_merge_def
    ctx_merge_raw_def ctx_delete_def put_raw_in_txn_def put_with_expiry_in_txn_def merge_in_txn_def
    merge_raw_in_txn_def delete_in_txn_def on_default_def write_on_def)

lemma run_calls_view:
  assumes "\<And>x w. m_view M (snd (step x w)) = outcome (m_view M w) (fst (step x w)) (eff (m_view M w) x)"
  shows "m_view M (snd (run_calls step xs w)) = foldl eff (m_view M w) (fst (run_calls step xs w))"
proof (induction xs arbitrary: w)
  case (Cons x xs)
  obtain r w1 where s: "step x w = (r, w1)" by fastforce
  have v: "m_view M w1 = outcome (m_view M w) r (eff (m_view M w) x)" using assms [of x w] s by simp
  show ?case
    using Cons [of w1] s v by (cases r) (simp_all add: outcome_def case_prod_beta)
qed simp

lemma run_calls_isolated:
  assumes "\<And>x w. dbv (snd (step x w)) = dbv w"
  shows "dbv (snd (run_calls step xs w)) = dbv w"
proof (induction xs arbitrary: w)
  case (Cons x xs)
  obtain r w1 where s: "step x w = (r, w1)" by fastforce
  then have "dbv w1 = dbv w" using assms [of x w] by simp
  with Cons [of w1] s show ?case by (cases r) (simp_all add: case_prod_beta)
qed simp

lemma ctx_new_completed: "ctx_new L w = (c, w0) \<Longrightarrow> \<not> completed c \<and> w0 = life_begin L w"
  by (auto simp: ctx_new_def begin_transaction_def Let_def)

lemma ctx_run_view:
  assumes "txn_contract A M L dbv" and "lookup_ok M H" and "ctx_new L w = (c, w0)"
    and "run_calls (ctx_step A H cv cp c) calls w0 = (okc, w1)"
  shows "m_view M w1 = foldl (write_effect M cv cp) (dbv w) (map (as_write \<circ> as_txn_call) okc)"
    and "dbv w1 = dbv w"
proof -
  have c: "rocks_contract A M" "\<not> completed c" "w0 = life_begin L w"
    using assms(1) ctx_new_completed [OF assms(3)] by (simp_all add: txn_contract_def)
  have step: "m_view M (snd (ctx_step A H cv cp c x w)) = outcome (m_view M w)
      (fst (ctx_step A H cv cp c x w)) (write_effect M cv cp (m_view M w) ((as_write \<circ> as_txn_call) x))"
    for x w
    using txn_step_view [OF c(1) assms(2)] by (simp add: ctx_step_eq [OF c(2)])
  have "m_view M w1 = foldl (\<lambda>v x. write_effect M cv cp v ((as_write \<circ> as_txn_call) x)) (m_view M w0) okc"
    using run_calls_view [where step = "ctx_step A H cv cp c"
        and eff = "\<lambda>v x. write_effect M cv cp v ((as_write \<circ> as_txn_call) x)", OF step, of calls w0] assms(4)
    by simp
  moreover have "m_view M w0 = dbv w" using assms(1) c(3) by (simp add: txn_contract_def)
  ultimately show "m_view M w1 = foldl (write_effect M cv cp) (dbv w) (map (as_write \<circ> as_txn_call) okc)"
    by (simp add: foldl_map)
  have iso: "dbv (snd (ctx_step A H cv cp c x w)) = dbv w" for x w
    using txn_step_isolated [OF assms(1)] by (simp add: ctx_step_eq [OF c(2)])
  have "dbv w0 = dbv w" using assms(1) c(3) by (simp add: txn_contract_def)
  then show "dbv w1 = dbv w"
    using run_calls_isolated [where step = "ctx_step A H cv cp c" and dbv = dbv, OF iso, of calls w0] assms(4)
    by simp
qed


abbreviation ctx_life ::
    "('w, 'h) rocks_api \<Rightarrow> ('w, 'h) cf_lookup \<Rightarrow> 'w txn_life \<Rightarrow> 'v codec \<Rightarrow> 'p merge_value codec \<Rightarrow> 'w
     \<Rightarrow> (txn_context, 'w) stage \<Rightarrow> bool" where
  "ctx_life A H L cv cp w0 \<equiv>
     life (ctx_new L w0) (\<lambda>(x :: (_, _) ctx_call) c w. snd (ctx_step A H cv cp c x w))
       (\<lambda>c w. snd (snd (ctx_commit L c w))) (\<lambda>c w. snd (snd (ctx_rollback L c w)))
       (\<lambda>c w. snd (ctx_drop L c w))"

inductive_cases life_EndedE: "life new call commits rolls_back drops (Ended es)"

lemma life_live_const:
  "life new call commits rolls_back drops s \<Longrightarrow> s = Live c w \<Longrightarrow> c = fst new"
  by (induction arbitrary: c w rule: life.induct) auto

lemma ctx_commit_live:
  "\<not> completed c \<Longrightarrow> ctx_commit L c w =
     (case life_commit L w of
        (Inl e, w1) \<Rightarrow> (Inl (RocksDb e), snd (life_rollback L w1), [Commit, Destroy, Rollback, Destroy])
      | (Inr _, w1) \<Rightarrow> (Inr (), w1, [Commit, Destroy]))"
  by (simp add: ctx_commit_def check_live ctx_drop_def split: prod.splits sum.splits)

lemma ctx_rollback_live:
  "\<not> completed c \<Longrightarrow> ctx_rollback L c w =
     (case life_rollback L w of
        (Inl e, w1) \<Rightarrow> (Inl (RocksDb e), snd (life_rollback L w1), [Rollback, Rollback, Destroy])
      | (Inr _, w1) \<Rightarrow> (Inr (), w1, [Rollback]))"
  by (simp add: ctx_rollback_def check_live ctx_drop_def split: prod.splits sum.splits)

section \<open>Properties\<close>

text \<open>
  C33: A failed commit of a pessimistic context uses the transaction after it was destroyed. On any live
  context, when the database refuses the commit, the error is returned, but the destructor of the
  context then rolls back and destroys the transaction that the commit already destroyed.
\<close>

theorem failed_commit_double_destroy:
  assumes "\<not> completed c" and "life_commit L w = (Inl e, w1)"
  shows "fst (ctx_commit L c w) = Inl (RocksDb e)
    \<and> snd (snd (ctx_commit L c w)) = [Commit, Destroy, Rollback, Destroy]
    \<and> \<not> well_used (snd (snd (ctx_commit L c w)))"
  using assms by (simp add: ctx_commit_live)

definition refusing_life :: "(mem \<times> mem) txn_life" where
  "refusing_life = mem_txn_life\<lparr>life_commit := (\<lambda>w. (Inl ''Busy'', w))\<rparr>"

theorem failed_commit_double_destroy_witness:
  "snd (snd (ctx_commit refusing_life \<lparr>completed = False\<rparr> (sample_db, sample_db)))
     = [Commit, Destroy, Rollback, Destroy]"
  using failed_commit_double_destroy [of "\<lparr>completed = False\<rparr>" refusing_life
      "(sample_db, sample_db)" "''Busy''" "(sample_db, sample_db)"]
  by (simp add: refusing_life_def)

text \<open>
  The ways in which a pessimistic context can end. Whatever writing methods were called before, the native
  transaction sees one of five sequences of calls; it is destroyed exactly once and not used
  afterwards in all of them but two: the failed commit, which destroys it twice, and the rollback that
  succeeds, which never destroys it.
\<close>

theorem ctx_life_endings:
  assumes "ctx_life A H L cv cp w0 (Ended es)"
  shows "es \<in> {[Commit, Destroy], [Commit, Destroy, Rollback, Destroy], [Rollback],
      [Rollback, Rollback, Destroy], [Rollback, Destroy]}
    \<and> (well_used es \<longleftrightarrow> es \<noteq> [Commit, Destroy, Rollback, Destroy] \<and> es \<noteq> [Rollback])"
proof -
  have live: "\<not> completed c" if "ctx_life A H L cv cp w0 (Live c w)" for c w
    using life_live_const [OF that refl] by (simp add: ctx_new_def Let_def)
  obtain c w where lv: "ctx_life A H L cv cp w0 (Live c w)"
    and es: "es = snd (snd (ctx_commit L c w)) \<or> es = snd (snd (ctx_rollback L c w))
      \<or> es = snd (ctx_drop L c w)"
    using assms by (cases rule: life_EndedE) blast+
  from es live [OF lv] show ?thesis
    by (auto simp: ctx_commit_live ctx_rollback_live ctx_drop_def split: prod.splits sum.splits)
qed

theorem ctx_life_endings_witness:
  "[Rollback] \<in> {[Commit, Destroy], [Commit, Destroy, Rollback, Destroy], [Rollback],
      [Rollback, Rollback, Destroy], [Rollback, Destroy]}
   \<and> \<not> well_used [Rollback]"
proof -
  have "ctx_life mem_txn_api sample_lookup mem_txn_life raw_codec patch_codec (sample_db, sample_db)
      (Ended (snd (snd (ctx_rollback mem_txn_life (fst (ctx_new mem_txn_life (sample_db, sample_db)))
        (snd (ctx_new mem_txn_life (sample_db, sample_db)))))))"
    by (rule life_rollback [OF life_new])
  moreover have "snd (snd (ctx_rollback mem_txn_life (fst (ctx_new mem_txn_life (sample_db, sample_db)))
      (snd (ctx_new mem_txn_life (sample_db, sample_db))))) = [Rollback]"
    by (simp add: ctx_new_def Let_def begin_transaction_def mem_txn_life_def ctx_rollback_live)
  ultimately have "ctx_life mem_txn_api sample_lookup mem_txn_life raw_codec patch_codec
      (sample_db, sample_db) (Ended [Rollback])" by simp
  from ctx_life_endings [OF this] show ?thesis by simp
qed

text \<open>
  C21: Commit of a pessimistic context. After any sequence of its writing methods, whose errors the caller
  may ignore, a commit that succeeds leaves the database changed by exactly the calls that reported
  success, in order; and until then, and when the context is dropped instead, the database is what it
  was when the context was created.
\<close>

theorem ctx_commit_atomic:
  assumes "txn_contract A M L dbv" and "lookup_ok M H" and "ctx_new L w = (c, w0)"
    and "run_calls (ctx_step A H cv cp c) calls w0 = (okc, w1)"
  shows "(\<forall>w2 es. ctx_commit L c w1 = (Inr (), w2, es) \<longrightarrow>
      dbv w2 = foldl (write_effect M cv cp) (dbv w) (map (as_write \<circ> as_txn_call) okc))
    \<and> dbv w1 = dbv w \<and> dbv (fst (ctx_drop L c w1)) = dbv w"
proof -
  have live: "\<not> completed c" using ctx_new_completed [OF assms(3)] by simp
  note run = ctx_run_view [OF assms]
  have "dbv w2 = foldl (write_effect M cv cp) (dbv w) (map (as_write \<circ> as_txn_call) okc)"
    if "ctx_commit L c w1 = (Inr (), w2, es)" for w2 es
  proof -
    from that have "life_commit L w1 = (Inr (), w2)"
      by (auto simp: ctx_commit_live [OF live] split: prod.splits sum.splits)
    then have "dbv w2 = m_view M w1" using assms(1) unfolding txn_contract_def by blast
    then show ?thesis using run(1) by simp
  qed
  moreover have "dbv (fst (ctx_drop L c w1)) = dbv w"
    using run(2) assms(1) live by (simp add: ctx_drop_def txn_contract_def)
  ultimately show ?thesis using run(2) by blast
qed

definition sample_ctx_calls :: "(bytes, bytes) ctx_call list" where
  "sample_ctx_calls = [CxSet (KVec [1]) [20], CxCf (TPut ''nowhere'' (KVec [1]) [21]),
     CxCf (TDelete ''users'' (KVec [2]))]"

theorem ctx_commit_atomic_witness:
  "\<exists>w2. ctx_commit mem_txn_life \<lparr>completed = False\<rparr>
      (snd (run_calls (ctx_step mem_txn_api sample_lookup raw_codec patch_codec \<lparr>completed = False\<rparr>)
        sample_ctx_calls (sample_db, sample_db))) = (Inr (), w2, [Commit, Destroy])
    \<and> mem_view (fst w2) ''default'' [1] = Some [20] \<and> mem_view (fst w2) ''users'' [2] = None"
proof -
  define c where "c = \<lparr>completed = False\<rparr>"
  have new: "ctx_new mem_txn_life (sample_db, sample_db) = (c, (sample_db, sample_db))"
    by (simp add: ctx_new_def begin_transaction_def Let_def mem_txn_life_def c_def)
  have live: "\<not> completed c" by (simp add: c_def)
  obtain okc w1 where run: "run_calls (ctx_step mem_txn_api sample_lookup raw_codec patch_codec c)
      sample_ctx_calls (sample_db, sample_db) = (okc, w1)"
    using prod.exhaust by blast
  have "okc = [CxSet (KVec [1]) [20], CxCf (TDelete ''users'' (KVec [2]))]"
    using run by (simp add: sample_ctx_calls_def ctx_step_eq [OF live] in_txn_eqs ts_put_raw_def
        ts_delete_def target_by_def txn_get_cf_handle_def sample_txn_store_def mem_txn_simps
        lift_write_def mem_eval del: ctx_step.simps)
  moreover obtain w2 where co: "ctx_commit mem_txn_life c w1 = (Inr (), w2, [Commit, Destroy])"
    by (simp add: ctx_commit_live [OF live] mem_txn_life_def)
  moreover have "mem_view (fst w2) = foldl (write_effect mem_txn_meaning raw_codec patch_codec)
      (mem_view sample_db) (map (as_write \<circ> as_txn_call) okc)"
    using ctx_commit_atomic [OF txn_contract_mem lookup_ok_txn [OF rocks_contract_mem_txn] new run] co
    by simp
  ultimately show ?thesis
    using run unfolding c_def
    by (auto simp: raw_codec_def upd_def DEFAULT_COLUMN_FAMILY_NAME_def)
qed

end
