(* ===== verification/Typed_Store.thy ===== *)
theory Typed_Store
  imports Batch_Writer Txn_Context
begin

text \<open>
  Typing of the stores. The methods of the stores are generic in the value, and nothing in the
  database says which type the values of a column family have: a program is right only when it reads
  what it has written. Here a \<open>schema\<close> gives each column family what its rows are, plain values of a
  codec, containers with an expiry time, or anything; \<open>well_typed\<close> is the typing of a write, and the
  theorems say that programs of typed writes keep the schema and never fail to decode.
\<close>

section \<open>Schemas\<close>

datatype 'v cf_type = Untyped | Plain "'v codec" | Expiring "'v codec"

type_synonym 'v schema = "string \<Rightarrow> 'v cf_type"

fun cell_ok :: "'v cf_type \<Rightarrow> bytes \<Rightarrow> bool" where
  "cell_ok Untyped bs = True"
| "cell_ok (Plain c) bs = (case deserialize_value c bs of Inr _ \<Rightarrow> True | Inl _ \<Rightarrow> False)"
| "cell_ok (Expiring c) bs =
     (case vwe_from_slice bs of
        Inr w \<Rightarrow> (case vwe_get c w of Inr _ \<Rightarrow> True | Inl _ \<Rightarrow> False)
      | Inl _ \<Rightarrow> False)"

definition typed_view :: "'v schema \<Rightarrow> kv_view \<Rightarrow> bool" where
  "typed_view S w \<longleftrightarrow> (\<forall>cf k bs. w cf k = Some bs \<longrightarrow> cell_ok (S cf) bs)"

text \<open>An operand may be merged when the merge operator of the column family makes typed rows of it.\<close>

definition mergeable :: "('s, 'h) rocks_meaning \<Rightarrow> 'v schema \<Rightarrow> string \<Rightarrow> bytes \<Rightarrow> bytes \<Rightarrow> bool" where
  "mergeable M S cf k x \<longleftrightarrow>
     (\<forall>old bs. (\<forall>o1. old = Some o1 \<longrightarrow> cell_ok (S cf) o1) \<longrightarrow> m_merge M cf k old x = Some bs \<longrightarrow> cell_ok (S cf) bs)"

inductive well_typed ::
    "('s, 'h) rocks_meaning \<Rightarrow> 'v schema \<Rightarrow> 'p merge_value codec \<Rightarrow> 'v codec \<Rightarrow> ('v, 'p) write_call \<Rightarrow> bool"
  for M S cp cv where
  put: "S cf = Plain cv \<Longrightarrow> codec_ok cv \<Longrightarrow> well_typed M S cp cv (WPut cf k v)"
| put_untyped: "S cf = Untyped \<Longrightarrow> well_typed M S cp cv (WPut cf k v)"
| put_raw: "cell_ok (S cf) bs \<Longrightarrow> well_typed M S cp cv (WPutRaw cf k bs)"
| put_expiring: "S cf = Expiring cv \<Longrightarrow> codec_ok cv \<Longrightarrow> well_typed M S cp cv (WPutWithExpiry cf k v t)"
| put_expiring_untyped: "S cf = Untyped \<Longrightarrow> well_typed M S cp cv (WPutWithExpiry cf k v t)"
| deleted: "well_typed M S cp cv (WDelete cf k)"
| range_deleted: "well_typed M S cp cv (WDeleteRange cf a b)"
| merge: "(\<And>bs. codec_ser cp p = Inr bs \<Longrightarrow> mergeable M S cf (as_bytes k) bs) \<Longrightarrow>
     well_typed M S cp cv (WMerge cf k p)"
| merge_raw: "mergeable M S cf (as_bytes k) bs \<Longrightarrow> well_typed M S cp cv (WMergeRaw cf k bs)"
| merge_expiring: "(\<And>bs. codec_ser cv v = Inr bs \<Longrightarrow> mergeable M S cf (as_bytes k) (with_expiry t bs)) \<Longrightarrow>
     well_typed M S cp cv (WMergeWithExpiry cf k v t)"

text \<open>Programs: writes of the store one by one, or collected in a batch that was begun at any time.\<close>

inductive store_step ::
    "('s, 'h) rocks_api \<Rightarrow> ('s, 'h) rocks_meaning \<Rightarrow> 'v schema \<Rightarrow> 'p merge_value codec \<Rightarrow> 's \<Rightarrow> 's \<Rightarrow> bool"
  for A M S cp where
  direct: "well_typed M S cp cv x \<Longrightarrow> store_step A M S cp s (snd (run_write A cv cp s x))"
| batch: "target_of A s0 cf = Inr t \<Longrightarrow> \<forall>x \<in> set calls. well_typed M S cp cv (Batch_Writer.direct cf x) \<Longrightarrow>
     bw_commit A s (batch_steps A cv cp s0 (store_batch_writer cf) calls) = (r, s2, fin) \<Longrightarrow>
     store_step A M S cp s s2"

text \<open>Transactions: by a closure, or by a context that is committed or dropped after its calls.\<close>

inductive txn_store_step ::
    "('w, 'h) rocks_api \<Rightarrow> ('w, 'h) cf_lookup \<Rightarrow> 'w txn_life \<Rightarrow> ('w, 'h) rocks_meaning \<Rightarrow> 'v schema
     \<Rightarrow> 'p merge_value codec \<Rightarrow> 'w \<Rightarrow> 'w \<Rightarrow> bool"
  for A H L M S cp where
  closure: "\<forall>x \<in> set calls. well_typed M S cp cv (as_write x) \<Longrightarrow>
     execute_transaction L (txn_script A H cv cp calls) w = (r, w1) \<Longrightarrow> txn_store_step A H L M S cp w w1"
| context_committed: "ctx_new L w = (c, w0) \<Longrightarrow> \<forall>x \<in> set calls. well_typed M S cp cv (as_write (as_txn_call x)) \<Longrightarrow>
     run_calls (ctx_step A H cv cp c) calls w0 = (okc, w1) \<Longrightarrow> ctx_commit L c w1 = (r, w2, es) \<Longrightarrow>
     txn_store_step A H L M S cp w w2"
| context_dropped: "ctx_new L w = (c, w0) \<Longrightarrow> \<forall>x \<in> set calls. well_typed M S cp cv (as_write (as_txn_call x)) \<Longrightarrow>
     run_calls (ctx_step A H cv cp c) calls w0 = (okc, w1) \<Longrightarrow> txn_store_step A H L M S cp w (fst (ctx_drop L c w1))"

section \<open>Typed writes keep the schema\<close>

lemma typed_upd: "typed_view S w \<Longrightarrow> (\<And>bs. x = Some bs \<Longrightarrow> cell_ok (S cf) bs) \<Longrightarrow> typed_view S (upd w cf k x)"
  by (auto simp: typed_view_def upd_def)

lemma typed_clear: "typed_view S w \<Longrightarrow> typed_view S (clear_range w cf a b)"
  by (auto simp: typed_view_def clear_range_def)

lemma typed_merged: "typed_view S w \<Longrightarrow> mergeable M S cf k x \<Longrightarrow> typed_view S (merged M w cf k x)"
  unfolding merged_def by (rule typed_upd) (simp_all add: mergeable_def typed_view_def, blast)

lemma cell_written:
  assumes "codec_ok c" and "codec_ser c v = Inr bs"
  shows "cell_ok (Plain c) bs" and "cell_ok (Expiring c) (with_expiry t bs)"
proof -
  have "deserialize_value c bs = Inr v" using assms by (simp add: codec_ok_def deserialize_value_def)
  moreover have "with_expiry t bs = serialize_for_storage \<lparr>expire_time = t, raw_value = bs\<rparr>"
    by (simp add: with_expiry_def serialize_for_storage_def)
  ultimately show "cell_ok (Plain c) bs" and "cell_ok (Expiring c) (with_expiry t bs)"
    by (simp_all add: vwe_get_def)
qed

lemma typed_effect: "well_typed M S cp cv x \<Longrightarrow> typed_view S w \<Longrightarrow> typed_view S (write_effect M cv cp w x)"
proof (induction rule: well_typed.induct)
  case (put cf k v)
  then show ?case by (auto split: sum.splits intro: typed_upd cell_written(1) [of cv v, folded put(1)])
next
  case (put_expiring cf k v t)
  then show ?case by (auto split: sum.splits intro: typed_upd cell_written(2) [of cv v, folded put_expiring(1)])
qed (auto split: sum.splits intro: typed_upd typed_clear typed_merged)

text \<open>
  A component whose steps have the effect of sequences of typed writes keeps the schema, whatever
  else its steps do.
\<close>

locale typed_component =
  fixes view :: "'s \<Rightarrow> kv_view" and step :: "'s \<Rightarrow> 's \<Rightarrow> bool" and S :: "'v schema"
    and effect :: "kv_view \<Rightarrow> 'x \<Rightarrow> kv_view" and typed :: "'x \<Rightarrow> bool"
  assumes effect_typed: "typed x \<Longrightarrow> typed_view S w \<Longrightarrow> typed_view S (effect w x)"
    and step_effect: "step s s1 \<Longrightarrow> \<exists>xs. list_all typed xs \<and> view s1 = foldl effect (view s) xs"
begin

lemma typed_sequence: "list_all typed xs \<Longrightarrow> typed_view S w \<Longrightarrow> typed_view S (foldl effect w xs)"
  by (induction xs arbitrary: w) (auto intro: effect_typed)

lemma typed_step: "step s s1 \<Longrightarrow> typed_view S (view s) \<Longrightarrow> typed_view S (view s1)"
  using step_effect typed_sequence by metis

lemma typed_history: "step\<^sup>*\<^sup>* s s1 \<Longrightarrow> typed_view S (view s) \<Longrightarrow> typed_view S (view s1)"
  by (induction rule: rtranclp_induct) (auto intro: typed_step)

end

abbreviation typed_call ::
    "('s, 'h) rocks_meaning \<Rightarrow> 'v schema \<Rightarrow> 'p merge_value codec \<Rightarrow> 'v codec \<times> ('v, 'p) write_call \<Rightarrow> bool" where
  "typed_call M S cp \<equiv> \<lambda>(cv, x). well_typed M S cp cv x"

abbreviation call_effect ::
    "('s, 'h) rocks_meaning \<Rightarrow> 'p merge_value codec \<Rightarrow> kv_view \<Rightarrow> 'v codec \<times> ('v, 'p) write_call \<Rightarrow> kv_view" where
  "call_effect M cp \<equiv> \<lambda>w (cv, x). write_effect M cv cp w x"

lemma foldl_call_effect:
  "foldl (call_effect M cp) w (map (Pair cv) xs) = foldl (write_effect M cv cp) w xs"
  by (simp add: foldl_map)

lemma some_calls:
  "\<forall>x \<in> set xs. well_typed M S cp cv x \<Longrightarrow> w1 = foldl (write_effect M cv cp) w xs \<Longrightarrow>
     \<exists>ys. list_all (typed_call M S cp) ys \<and> w1 = foldl (call_effect M cp) w ys"
  by (rule exI [of _ "map (Pair cv) xs"]) (simp add: list_all_iff foldl_map)

lemma no_calls: "w1 = w \<Longrightarrow> \<exists>ys. list_all (typed_call M S cp) ys \<and> w1 = foldl (call_effect M cp) w ys"
  by (rule exI [of _ "[]"]) simp

lemma outcome_calls:
  assumes "\<forall>x \<in> set xs. well_typed M S cp cv x"
    and "w1 = (case r of Inr _ \<Rightarrow> foldl (write_effect M cv cp) w xs | Inl _ \<Rightarrow> w)"
  shows "\<exists>ys. list_all (typed_call M S cp) ys \<and> w1 = foldl (call_effect M cp) w ys"
proof (cases r)
  case (Inl e)
  with assms(2) show ?thesis by (intro no_calls) simp
next
  case (Inr u)
  with assms show ?thesis by (intro some_calls [where xs = xs]) simp_all
qed

interpretation typed_store: typed_component "m_view M" "\<lambda>s s1. rocks_contract A M \<and> store_step A M S cp s s1" S
    "call_effect M cp" "typed_call M S cp"
  for A :: "('s, 'h) rocks_api" and M and S :: "'v schema" and cp :: "'p merge_value codec"
proof
  show "typed_call M S cp x \<Longrightarrow> typed_view S w \<Longrightarrow> typed_view S (call_effect M cp w x)" for x w
    by (cases x) (simp add: typed_effect)
  fix s s1
  assume "rocks_contract A M \<and> store_step A M S cp s s1"
  then have c: "rocks_contract A M" and step: "store_step A M S cp s s1" by simp_all
  show "\<exists>xs. list_all (typed_call M S cp) xs \<and> m_view M s1 = foldl (call_effect M cp) (m_view M s) xs"
    using step
  proof cases
    case (direct cv x)
    show ?thesis
      using direct(2) run_write_view [OF c, of cv cp s x] unfolding outcome_def direct(1)
      by (intro outcome_calls [where xs = "[x]" and cv = cv and r = "fst (run_write A cv cp s x)"])
         (simp_all split: sum.split)
  next
    case (batch s0 cf t calls cv r fin)
    show ?thesis
      using batch(2) batch_commit_view [OF c batch(1,3)]
      by (intro outcome_calls [where xs = "map (Batch_Writer.direct cf) calls" and cv = cv]) simp_all
  qed
qed

lemma run_calls_subset: "run_calls step calls w = (okc, w1) \<Longrightarrow> set okc \<subseteq> set calls"
  by (induction calls arbitrary: w okc w1) (auto split: prod.splits sum.splits, blast+)

interpretation typed_txn_store: typed_component dbv
    "\<lambda>w w1. (txn_contract A M L dbv \<and> lookup_ok M H) \<and> txn_store_step A H L M S cp w w1" S
    "call_effect M cp" "typed_call M S cp"
  for A :: "('w, 'h) rocks_api" and M L dbv H and S :: "'v schema" and cp :: "'p merge_value codec"
proof
  show "typed_call M S cp x \<Longrightarrow> typed_view S w \<Longrightarrow> typed_view S (call_effect M cp w x)" for x w
    by (cases x) (simp add: typed_effect)
  fix w w'
  assume "(txn_contract A M L dbv \<and> lookup_ok M H) \<and> txn_store_step A H L M S cp w w'"
  then have c: "txn_contract A M L dbv" "lookup_ok M H" and step: "txn_store_step A H L M S cp w w'" by simp_all
  show "\<exists>xs. list_all (typed_call M S cp) xs \<and> dbv w' = foldl (call_effect M cp) (dbv w) xs"
    using step
  proof cases
    case (closure calls cv r)
    show ?thesis
      using closure(1) execute_script_view [OF c closure(2)]
      by (intro outcome_calls [where xs = "map as_write calls" and cv = cv]) simp_all
  next
    case (context_committed c0 w0 calls cv okc w1 r es)
    note run = ctx_run_view [OF c context_committed(1,3)]
    have live: "\<not> completed c0" using ctx_new_completed [OF context_committed(1)] by simp
    show ?thesis
    proof (cases "life_commit L w1")
      case (Pair cr w2)
      show ?thesis
      proof (cases cr)
        case (Inl e)
        with Pair context_committed(4) have "w' = snd (life_rollback L w2)"
          by (simp add: ctx_commit_live [OF live])
        moreover from Inl Pair c(1) have "dbv w2 = dbv w1" unfolding txn_contract_def by blast
        ultimately show ?thesis using run(2) c(1) by (intro no_calls) (simp add: txn_contract_def)
      next
        case (Inr u)
        with Pair context_committed(4) have "w' = w2" by (simp add: ctx_commit_live [OF live])
        moreover from Inr Pair c(1) have "dbv w2 = m_view M w1" unfolding txn_contract_def by blast
        ultimately show ?thesis
          using run(1) context_committed(2) run_calls_subset [OF context_committed(3)]
          by (intro some_calls [where xs = "map (as_write \<circ> as_txn_call) okc" and cv = cv]) auto
      qed
    qed
  next
    case (context_dropped c0 w0 calls cv okc w1)
    have "\<not> completed c0" using ctx_new_completed [OF context_dropped(2)] by simp
    with ctx_run_view(2) [OF c context_dropped(2,4)] c(1) context_dropped(1)
    show ?thesis by (intro no_calls) (simp add: ctx_drop_def txn_contract_def)
  qed
qed

section \<open>Reads of typed stores\<close>

fun decode_error :: "store_error \<Rightarrow> bool" where
  "decode_error (Deserialization _) = True"
| "decode_error _ = False"

definition decodes :: "'a store_result \<Rightarrow> bool" where
  "decodes r \<longleftrightarrow> (case r of Inl e \<Rightarrow> \<not> decode_error e | Inr _ \<Rightarrow> True)"

lemma decodes_simps [simp]: "decodes (Inr x)" "decodes (Inl e) \<longleftrightarrow> \<not> decode_error e" "decodes (map_err RocksDb r)"
  "decodes (map_err KeyDecoding q)"
  by (simp_all add: decodes_def) (cases r, simp_all, cases q, simp_all)

lemma decodes_target [simp]: "decodes (target_of A s cf)"
  by (cases "api_cf_handle A s cf") (simp_all add: target_of_def get_cf_handle_def)

lemma decodes_and_then: "decodes r \<Longrightarrow> (\<And>a. r = Inr a \<Longrightarrow> decodes (f a)) \<Longrightarrow> decodes (and_then r f)"
  by (cases r) (simp_all add: decodes_def)

lemma decodes_map_ok: "decodes r \<Longrightarrow> decodes (map_ok f r)"
  by (cases r) (simp_all add: decodes_def)

lemma decodes_opt_try: "(\<And>a. x = Some a \<Longrightarrow> decodes (f a)) \<Longrightarrow> decodes (opt_try f x)"
  by (cases x) (simp_all add: decodes_map_ok)

lemma decodes_collect: "\<forall>r \<in> set rs. decodes r \<Longrightarrow> decodes (collect_ok rs)"
  by (induction rs) (simp_all add: decodes_and_then)

lemma cell_plain: "cell_ok (Plain c) bs \<Longrightarrow> decodes (deserialize_value c bs)"
  by (cases "deserialize_value c bs") simp_all

lemma cell_expiring:
  "cell_ok (Expiring c) bs \<Longrightarrow> \<exists>w v. vwe_from_slice bs = Inr w \<and> vwe_get c w = Inr v"
  by (auto split: sum.splits)

lemma cell_expiring_decodes: "cell_ok (Expiring c) bs \<Longrightarrow> decodes (vwe_from_slice bs)"
  by (auto split: sum.splits)

lemma decodes_raw [simp]: "decodes (get_raw A s cf k)" "decodes (multiget_raw A s cf ks)"
  by (auto simp: get_raw_def multiget_raw_def intro!: decodes_and_then)

declare cell_ok.simps(2,3) [simp del]

lemma typed_cell: "typed_view S w \<Longrightarrow> S cf = T \<Longrightarrow> w cf k = Some bs \<Longrightarrow> cell_ok T bs"
  by (auto simp: typed_view_def)

text \<open>The reads of a database that keeps a schema.\<close>

lemma typed_get:
  assumes "rocks_contract A M" and "typed_view S (m_view M s)"
  shows "S cf = Plain c \<Longrightarrow> decodes (get A c s cf k)"
    and "S cf = Expiring c \<Longrightarrow> decodes (get_with_expiry A s cf k)"
    and "S cf = Expiring c \<Longrightarrow> get_with_expiry A s cf k = Inr (Some w) \<Longrightarrow> \<exists>v. vwe_get c w = Inr v"
proof -
  have cell: "cell_ok (S cf) bs" if "get_raw A s cf k = Inr (Some bs)" for bs
    using get_raw_view [OF assms(1) that] assms(2) by (simp add: typed_view_def)
  show "S cf = Plain c \<Longrightarrow> decodes (get A c s cf k)"
    unfolding get_eq_get_raw using cell by (intro decodes_and_then decodes_opt_try) (auto dest: cell_plain)
  show "S cf = Expiring c \<Longrightarrow> decodes (get_with_expiry A s cf k)"
    unfolding get_with_expiry_def using cell by (intro decodes_and_then decodes_opt_try) (auto dest: cell_expiring_decodes)
  assume "S cf = Expiring c" and "get_with_expiry A s cf k = Inr (Some w)"
  then show "\<exists>v. vwe_get c w = Inr v"
    using cell by (auto simp: get_with_expiry_def and_then_eq_Inr opt_try_eq_Inr dest!: cell_expiring)
qed

lemma typed_multiget:
  assumes "rocks_contract A M" and "typed_view S (m_view M s)"
  shows "S cf = Plain c \<Longrightarrow> decodes (multiget A c s cf ks)"
    and "S cf = Expiring c \<Longrightarrow> decodes (multiget_with_expiry A s cf ks)"
proof -
  assume plain: "S cf = Plain c"
  have "decodes (case r of Inl _ \<Rightarrow> Inr None | Inr x \<Rightarrow> opt_try (deserialize_value c) x)"
    if t: "target_of A s cf = Inr t" and r: "r \<in> set (api_multi_get A s t bs)" for t bs r
  proof (cases r)
    case (Inr x)
    obtain k where "x = m_view M s cf k"
      using contract_multi_get [OF assms(1), of s t bs] r Inr target_of_name [OF assms(1) t]
      by (fastforce simp: list_all2_conv_all_nth in_set_conv_nth)
    then show ?thesis
      using Inr by (auto intro!: decodes_opt_try cell_plain dest: typed_cell [OF assms(2) plain])
  qed simp
  then show "decodes (multiget A c s cf ks)"
    by (auto simp: multiget_def intro!: decodes_and_then decodes_collect)
next
  assume "S cf = Expiring c"
  then have "decodes (opt_try vwe_from_slice (m_view M s cf k))" for k
    by (intro decodes_opt_try cell_expiring_decodes [of c]) (rule typed_cell [OF assms(2)])
  then show "decodes (multiget_with_expiry A s cf ks)"
    using multiget_raw_view [OF assms(1), of s cf ks]
    by (auto simp: multiget_with_expiry_def intro!: decodes_and_then decodes_collect)
qed

lemma gather_decodes:
  assumes "\<And>k v env. (k, v) \<in> set rows \<Longrightarrow> decodes (fst (de env k v))"
  shows "decodes (fst (gather ctl de (map Inr rows) env n))"
  using assms
proof (induction rows arbitrary: env n)
  case (Cons r rows)
  obtain k v where r: "r = (k, v)" by fastforce
  have IH: "decodes (fst (gather ctl de (map Inr rows) env n))" for env n
    using Cons by simp
  have de: "\<not> decode_error e" if "fst (de env k v) = Inl e" for env e
    using Cons.prems [of k v env] r that by simp
  show ?case
    using IH r by (auto simp: decodes_map_ok case_prod_beta dest: de
        split: iteration_control_decision.split sum.split prod.split)
qed simp

lemma rows_decode:
  assumes "typed_view S w" and "is_rows (w cf) rs" and "(k, v) \<in> set rs"
  shows "S cf = Plain c \<Longrightarrow> decodes (fst (kv_deserializer dec c env k v))"
    and "S cf = Expiring c \<Longrightarrow> decodes (fst (kv_expiry_deserializer dec env k v))"
proof -
  have "distinct (map fst rs)"
    using assms(2) by (simp add: is_rows_def strict_sorted_iff)
  then have "cell_ok (S cf) v"
    using assms map_of_is_SomeI [of rs k v] by (simp add: typed_view_def is_rows_def)
  then show "S cf = Plain c \<Longrightarrow> decodes (fst (kv_deserializer dec c env k v))"
    and "S cf = Expiring c \<Longrightarrow> decodes (fst (kv_expiry_deserializer dec env k v))"
    by (auto simp: kv_deserializer_def kv_expiry_deserializer_def deserialize_kv_def deserialize_kv_expiry_def
        deserialize_key_def intro!: decodes_and_then dest: cell_plain cell_expiring_decodes)
qed

text \<open>The searches, when the database gives its rows without an error.\<close>

lemma typed_find_by_prefix:
  assumes "rocks_contract A M" and "iter_contract A M" and "typed_view S (m_view M s)"
    and "target_of A s cf = Inr t" and "api_prefix_iterator A s t (as_bytes p) = map Inr rows" and "S cf = Plain c"
  shows "\<exists>r. find_by_prefix A dec c s cf p dir = Some r \<and> decodes r"
proof -
  obtain rs where rs: "is_rows (m_view M s cf) rs"
    and find: "find_by_prefix A dec c s cf p dir
      = Some (collect_ok (map (\<lambda>r. deserialize_kv dec c (fst r) (snd r)) (filter (\<lambda>r. has_prefix (as_bytes p) (fst r)) rs)))"
    using find_by_prefix_rows [where dec = dec and c = c and dir = dir, OF assms(1,2,4,5)] by blast
  have "decodes (deserialize_kv dec c k v)" if "(k, v) \<in> set rs" for k v
    using rows_decode(1) [OF assms(3) rs that assms(6)] by (simp add: kv_deserializer_def)
  then have "decodes (collect_ok (map (\<lambda>r. deserialize_kv dec c (fst r) (snd r))
      (filter (\<lambda>r. has_prefix (as_bytes p) (fst r)) rs)))"
    by (intro decodes_collect) auto
  with find show ?thesis by blast
qed

lemma typed_find_from:
  assumes "rocks_contract A M" and "iter_contract A M" and "typed_view S (m_view M s)"
    and "target_of A s cf = Inr t" and "api_iterator A s t (IterFrom (as_bytes k) dir) = map Inr rows" and "S cf = Plain c"
  shows "\<exists>r env1. find_from A dec c s cf k dir f env = Some (r, env1) \<and> decodes r"
proof -
  obtain rs where rs: "is_rows (m_view M s cf) rs"
    and find: "find_from A dec c s cf k dir f env
      = Some (gather (Some f) (kv_deserializer dec c) (map Inr (rows_from (IterFrom (as_bytes k) dir) rs)) env 0)"
    using find_from_rows [where dec = dec and c = c and f = f and env = env, OF assms(1,2,4,5)] by blast
  have "decodes (fst (gather (Some f) (kv_deserializer dec c) (map Inr (rows_from (IterFrom (as_bytes k) dir) rs)) env 0))"
    by (rule gather_decodes, rule rows_decode(1) [OF assms(3) rs _ assms(6)]) (cases dir, auto)
  with find show ?thesis by (metis prod.collapse)
qed

lemma typed_in_txn:
  assumes "rocks_contract A M" and "typed_view S (m_view M w)" and "S cf = Plain c"
  shows "decodes (txn_get_in_txn A (txn_get_cf_handle A self) c w cf k)"
proof -
  let ?H = "txn_get_cf_handle A self"
  have "decodes (target_by ?H w cf)"
    by (auto simp: target_by_def txn_get_cf_handle_def handle_not_found_def ok_or_def intro!: decodes_and_then split: option.split)
  moreover have "x = m_view M w cf (as_bytes k)"
    if "target_by ?H w cf = Inr t" and "api_get A w t (as_bytes k) = Inr x" for t x
    using contract_get [OF assms(1) that(2)] target_by_name [OF lookup_ok_txn [OF assms(1)] that(1)] by simp
  ultimately show ?thesis
    by (fastforce simp: txn_get_in_txn_def intro!: decodes_and_then decodes_opt_try cell_plain
        intro: typed_cell [OF assms(2,3)])
qed

section \<open>Properties\<close>


definition two_families :: mem where
  "two_families = (\<lambda>cf. if cf \<in> {''default'', ''users''} then Some [] else None)"

definition two_types :: "bytes schema" where
  "two_types = (\<lambda>cf. if cf = ''users'' then Expiring raw_codec else Plain raw_codec)"




end
