(* ===== verification/Program_Logic.thy ===== *)
theory Program_Logic
  imports Batch_Writer
begin

text \<open>
  Programs on the store, as the \<open>main\<close> functions of the examples are: calls with the \<open>?\<close>
  operator, assertions, and a result that is returned or a panic. The rules below execute a program
  over the view of its database; they hold for every database that keeps the contract, whatever
  errors it may report.
\<close>

section \<open>Programs\<close>

datatype ending_of_main = Returned "unit store_result" | Panicked

type_synonym 's main = "ending_of_main \<times> 's"

text \<open>The \<open>?\<close> operator on a write of the database, on a read of it, and on a call of a local object.\<close>

definition try_write :: "'a store_result \<times> 's \<Rightarrow> ('s \<Rightarrow> 's main) \<Rightarrow> 's main" where
  "try_write r k = (case r of (Inl e, s) \<Rightarrow> (Returned (Inl e), s) | (Inr _, s) \<Rightarrow> k s)"

definition try_read :: "'s \<Rightarrow> 'a store_result \<Rightarrow> ('a \<Rightarrow> 's main) \<Rightarrow> 's main" where
  "try_read s r k = (case r of Inl e \<Rightarrow> (Returned (Inl e), s) | Inr a \<Rightarrow> k a)"

definition try_local :: "'s \<Rightarrow> 'a store_result \<times> 'b \<Rightarrow> ('b \<Rightarrow> 's main) \<Rightarrow> 's main" where
  "try_local s r k = (case r of (Inl e, _) \<Rightarrow> (Returned (Inl e), s) | (Inr _, b) \<Rightarrow> k b)"

definition try_commit :: "unit store_result \<times> 's \<times> ending \<Rightarrow> ('s \<Rightarrow> 's main) \<Rightarrow> 's main" where
  "try_commit r k = (case r of (Inl e, s, _) \<Rightarrow> (Returned (Inl e), s) | (Inr _, s, _) \<Rightarrow> k s)"

text \<open>\<open>assert!\<close>, \<open>unwrap\<close> on an option, and \<open>Ok(())\<close> at the end.\<close>

definition assert_that :: "'s \<Rightarrow> bool \<Rightarrow> 's main \<Rightarrow> 's main" where
  "assert_that s b k = (if b then k else (Panicked, s))"

definition unwrap_in :: "'s \<Rightarrow> 'a option \<Rightarrow> ('a \<Rightarrow> 's main) \<Rightarrow> 's main" where
  "unwrap_in s x k = (case x of None \<Rightarrow> (Panicked, s) | Some a \<Rightarrow> k a)"

definition done_with :: "'s \<Rightarrow> 's main" where
  "done_with s = (Returned (Inr ()), s)"

section \<open>Rules\<close>

text \<open>
  When the program ends with success the state satisfies \<open>Q\<close>, and it panics only if \<open>pan\<close> allows that.
\<close>

definition ends :: "bool \<Rightarrow> ('s \<Rightarrow> bool) \<Rightarrow> 's main \<Rightarrow> bool" where
  "ends pan Q p \<longleftrightarrow> (fst p = Panicked \<longrightarrow> pan) \<and> (fst p = Returned (Inr ()) \<longrightarrow> Q (snd p))"

abbreviation safe :: "('s \<Rightarrow> bool) \<Rightarrow> 's main \<Rightarrow> bool" where
  "safe \<equiv> ends False"

lemmas safe_def = ends_def

lemma safe_done: "Q s \<Longrightarrow> ends pan Q (done_with s)"
  by (simp add: safe_def done_with_def)

lemma safe_assert: "b \<Longrightarrow> ends pan Q k \<Longrightarrow> ends pan Q (assert_that s b k)"
  by (simp add: safe_def assert_that_def)

lemma ends_panic: "\<not> b \<Longrightarrow> ends True Q (assert_that s b k)"
  by (simp add: ends_def assert_that_def)

lemma safe_unwrap: "(\<And>a. x = Some a \<Longrightarrow> ends pan Q (k a)) \<Longrightarrow> x \<noteq> None \<Longrightarrow> ends pan Q (unwrap_in s x k)"
  by (auto simp: unwrap_in_def)

lemma safe_try_write: "(\<And>s1. snd r = s1 \<Longrightarrow> fst r = Inr () \<Longrightarrow> ends pan Q (k s1)) \<Longrightarrow> ends pan Q (try_write r k)"
  by (cases r; cases "fst r") (simp_all add: try_write_def safe_def)

lemma safe_try_read: "(\<And>a. r = Inr a \<Longrightarrow> ends pan Q (k a)) \<Longrightarrow> ends pan Q (try_read s r k)"
  by (cases r) (simp_all add: try_read_def safe_def)

lemma safe_try_local: "(\<And>b. r = (Inr (), b) \<Longrightarrow> ends pan Q (k b)) \<Longrightarrow> ends pan Q (try_local s r k)"
  by (cases r; cases "fst r") (simp_all add: try_local_def safe_def)

lemma safe_try_commit: "(\<And>s1 fin. r = (Inr (), s1, fin) \<Longrightarrow> ends pan Q (k s1)) \<Longrightarrow> ends pan Q (try_commit r k)"
  by (cases r; cases "fst r") (simp_all add: try_commit_def safe_def)

subsection \<open>Writes\<close>

text \<open>The bytes of a value that was written are only known to decode to it.\<close>

lemma safe_put_step:
  assumes "rocks_contract A M" and "codec_ok c"
    and "\<And>s1 bs. put A c s cf k v = (Inr (), s1) \<Longrightarrow> deserialize_value c bs = Inr v \<Longrightarrow>
      m_view M s1 = upd (m_view M s) cf (as_bytes k) (Some bs) \<Longrightarrow> ends pan Q (kk s1)"
  shows "ends pan Q (try_write (put A c s cf k v) kk)"
proof (rule safe_try_write)
  fix s1
  assume r: "snd (put A c s cf k v) = s1" "fst (put A c s cf k v) = Inr ()"
  then have run: "put A c s cf k v = (Inr (), s1)" by (simp add: prod_eq_iff)
  from r obtain bs where bs: "serialize_value c v = Inr bs"
    by (cases "serialize_value c v") (simp_all add: put_def)
  with r have "m_view M s1 = upd (m_view M s) cf (as_bytes k) (Some bs)"
    using put_raw_view [OF assms(1), of s cf k bs] by (simp add: put_eq_put_raw outcome_def)
  with run codec_okD [OF assms(2) bs] show "ends pan Q (kk s1)" by (rule assms(3))
qed

lemma safe_put:
  assumes "rocks_contract A M" and "codec_ok c"
    and "\<And>s1 bs. deserialize_value c bs = Inr v \<Longrightarrow> m_view M s1 = upd (m_view M s) cf (as_bytes k) (Some bs) \<Longrightarrow> ends pan Q (kk s1)"
  shows "ends pan Q (try_write (put A c s cf k v) kk)"
  by (rule safe_put_step [OF assms(1,2)]) (rule assms(3))

lemma safe_put_raw:
  assumes "rocks_contract A M"
    and "\<And>s1. m_view M s1 = upd (m_view M s) cf (as_bytes k) (Some bs) \<Longrightarrow> ends pan Q (kk s1)"
  shows "ends pan Q (try_write (put_raw A s cf k bs) kk)"
  by (rule safe_try_write) (use put_raw_view [OF assms(1), of s cf k bs] assms(2) in \<open>auto simp: outcome_def\<close>)

lemma safe_delete:
  assumes "rocks_contract A M"
    and "\<And>s1. m_view M s1 = upd (m_view M s) cf (as_bytes k) None \<Longrightarrow> ends pan Q (kk s1)"
  shows "ends pan Q (try_write (delete A s cf k) kk)"
  by (rule safe_try_write) (use delete_view [OF assms(1), of s cf k] assms(2) in \<open>auto simp: outcome_def\<close>)

lemma safe_put_with_expiry:
  assumes "rocks_contract A M" and "codec_ok c"
    and "\<And>s1 bs. deserialize_value c bs = Inr v \<Longrightarrow> m_view M s1 = upd (m_view M s) cf (as_bytes k)
        (Some (serialize_for_storage \<lparr>expire_time = t, raw_value = bs\<rparr>)) \<Longrightarrow> ends pan Q (kk s1)"
  shows "ends pan Q (try_write (put_with_expiry A c s cf k v t) kk)"
proof (cases "serialize_value c v")
  case (Inl e)
  then show ?thesis by (simp add: put_with_expiry_def vwe_from_value_def try_write_def safe_def)
next
  case (Inr bs)
  then show ?thesis
    using safe_put_raw [OF assms(1), where s = s and cf = cf and k = k and Q = Q and kk = kk] codec_okD [OF assms(2) Inr] assms(3)
    by (simp add: put_with_expiry_def vwe_from_value_def)
qed

subsection \<open>Reads\<close>

lemma safe_get:
  assumes "rocks_contract A M"
    and "\<And>x. opt_try (deserialize_value c) (m_view M s cf (as_bytes k)) = Inr x \<Longrightarrow> ends pan Q (kk x)"
  shows "ends pan Q (try_read s (get A c s cf k) kk)"
  by (rule safe_try_read) (use assms get_raw_view [OF assms(1)] in \<open>fastforce simp: get_eq_Inr\<close>)

lemma safe_get_raw:
  assumes "rocks_contract A M" and "ends pan Q (kk (m_view M s cf (as_bytes k)))"
  shows "ends pan Q (try_read s (get_raw A s cf k) kk)"
  by (rule safe_try_read) (use assms get_raw_view [OF assms(1)] in blast)

lemma safe_exists:
  assumes "rocks_contract A M" and "ends pan Q (kk (m_view M s cf (as_bytes k) \<noteq> None))"
  shows "ends pan Q (try_read s (exists A s cf k) kk)"
  by (rule safe_try_read) (use assms get_raw_view [OF assms(1)] in \<open>fastforce simp: exists_eq_get_raw\<close>)

lemma safe_get_with_expiry:
  assumes "rocks_contract A M"
    and "\<And>x. opt_try vwe_from_slice (m_view M s cf (as_bytes k)) = Inr x \<Longrightarrow> ends pan Q (kk x)"
  shows "ends pan Q (try_read s (get_with_expiry A s cf k) kk)"
  by (rule safe_try_read)
     (use assms get_raw_view [OF assms(1)] in \<open>fastforce simp: get_with_expiry_def and_then_eq_Inr\<close>)

subsection \<open>Batches\<close>

lemma safe_serialize:
  assumes "codec_ok c" and "\<And>bs. deserialize_value c bs = Inr v \<Longrightarrow> ends pan Q (kk bs)"
  shows "ends pan Q (try_read s (serialize_value c v) kk)"
  by (rule safe_try_read) (rule assms(2) [OF codec_okD [OF assms(1)]])

lemma safe_key: "ends pan Q (kk (as_bytes k)) \<Longrightarrow> ends pan Q (try_read s (serialize_key k) kk)"
  by (simp add: try_read_def)

lemma safe_handle:
  assumes "rocks_contract A M" and "\<And>h. m_name M h = cf \<Longrightarrow> ends pan Q (kk h)"
  shows "ends pan Q (try_read s (get_cf_handle A s cf) kk)"
  by (rule safe_try_read) (use assms contract_handle [OF assms(1)] in auto)

lemma record_on_Inr:
  assumes "rocks_contract A M" and "open_with cf xs bw" and "record_on A s bw f = (Inr (), bw1)"
  shows "\<exists>t. target_name M t = cf \<and> open_with cf (xs @ [f t]) bw1"
proof -
  have cf: "bw_cf_name bw = cf" using assms(2) by (simp add: open_with_def)
  then obtain t where t: "target_of A s cf = Inr t"
    using assms(3) by (cases "target_of A s cf") (simp_all add: record_on_def)
  from record_on_open [OF assms(2) t, of f] assms(3) target_of_name [OF assms(1) t] show ?thesis by auto
qed

lemma safe_bw_set:
  assumes "rocks_contract A M" and "open_with cf xs bw" and "codec_ok c"
    and "\<And>t bs bw1. deserialize_value c bs = Inr v \<Longrightarrow> target_name M t = cf \<Longrightarrow>
        open_with cf (xs @ [BPut t (as_bytes k) bs]) bw1 \<Longrightarrow> ends pan Q (kk bw1)"
  shows "ends pan Q (try_local s (bw_set A c s bw k v) kk)"
proof (rule safe_try_local)
  fix bw1
  assume r: "bw_set A c s bw k v = (Inr (), bw1)"
  then obtain bs where bs: "serialize_value c v = Inr bs"
    by (cases "serialize_value c v") (simp_all add: bw_set_def check_open [OF assms(2)])
  with r have "record_on A s bw (\<lambda>t. BPut t (as_bytes k) bs) = (Inr (), bw1)"
    by (simp add: bw_set_def check_open [OF assms(2)])
  from record_on_Inr [OF assms(1,2) this] codec_okD [OF assms(3) bs] show "ends pan Q (kk bw1)"
    by (auto intro: assms(4))
qed

lemma safe_bw_set_raw:
  assumes "rocks_contract A M" and "open_with cf xs bw"
    and "\<And>t bw1. target_name M t = cf \<Longrightarrow> open_with cf (xs @ [BPut t (as_bytes k) bs]) bw1 \<Longrightarrow> ends pan Q (kk bw1)"
  shows "ends pan Q (try_local s (bw_set_raw A s bw k bs) kk)"
proof (rule safe_try_local)
  fix bw1
  assume "bw_set_raw A s bw k bs = (Inr (), bw1)"
  then have "record_on A s bw (\<lambda>t. BPut t (as_bytes k) bs) = (Inr (), bw1)"
    by (simp add: bw_set_raw_def check_open [OF assms(2)])
  from record_on_Inr [OF assms(1,2) this] show "ends pan Q (kk bw1)" by (auto intro: assms(3))
qed

lemma safe_bw_delete:
  assumes "rocks_contract A M" and "open_with cf xs bw"
    and "\<And>t bw1. target_name M t = cf \<Longrightarrow> open_with cf (xs @ [BDelete t (as_bytes k)]) bw1 \<Longrightarrow> ends pan Q (kk bw1)"
  shows "ends pan Q (try_local s (bw_delete A s bw k) kk)"
proof (rule safe_try_local)
  fix bw1
  assume "bw_delete A s bw k = (Inr (), bw1)"
  then have "record_on A s bw (\<lambda>t. BDelete t (as_bytes k)) = (Inr (), bw1)"
    by (simp add: bw_delete_def check_open [OF assms(2)])
  from record_on_Inr [OF assms(1,2) this] show "ends pan Q (kk bw1)" by (auto intro: assms(3))
qed

lemma safe_raw_batch:
  assumes "open_with cf xs bw" and "\<And>bw1. open_with cf (f xs) bw1 \<Longrightarrow> ends pan Q (kk bw1)"
  shows "ends pan Q (try_local s (raw_batch_mut bw f) kk)"
  by (rule safe_try_local)
     (use assms check_open [OF assms(1)] in \<open>auto simp: raw_batch_mut_def open_with_def\<close>)

lemma safe_bw_commit:
  assumes "rocks_contract A M" and "open_with cf xs bw"
    and "\<And>s1. m_view M s1 = apply_ops M (m_view M s) xs \<Longrightarrow> ends pan Q (kk s1)"
  shows "ends pan Q (try_commit (bw_commit A s bw) kk)"
proof (rule safe_try_commit)
  fix s1 fin
  assume "bw_commit A s bw = (Inr (), s1, fin)"
  then have "fst (api_write A s xs) = Inr ()" "snd (api_write A s xs) = s1"
    by (auto simp: open_commit [OF assms(2)])
  with contract_write [OF assms(1), of s xs] show "ends pan Q (kk s1)"
    by (intro assms(3)) (simp add: effect_ok_def)
qed

lemma open_store_batch_writer: "open_with cf [] (store_batch_writer cf)"
  by (simp add: store_batch_writer_def)

lemma upd_eq: "upd w cf k x cf1 k1 = (if cf1 = cf \<and> k1 = k then x else w cf1 k1)"
  by (simp add: upd_def)

lemma apply_ops_simps: "apply_ops M w [] = w" "apply_ops M w (x # xs) = apply_ops M (apply_op M w x) xs"
  by (simp_all add: apply_ops_def)

lemmas run_rules = safe_done safe_assert safe_put safe_put_raw safe_delete safe_put_with_expiry safe_get safe_get_raw
  safe_exists safe_get_with_expiry safe_handle safe_serialize safe_key safe_bw_set safe_bw_set_raw safe_bw_delete
  safe_raw_batch safe_bw_commit

subsection \<open>Searches\<close>

text \<open>
  \<open>None\<close> is a search that does not end, which is no better than a panic. The rules assume a database
  whose iterators give rows only.
\<close>

definition try_search :: "'s \<Rightarrow> 'a store_result option \<Rightarrow> ('a \<Rightarrow> 's main) \<Rightarrow> 's main" where
  "try_search s r k = (case r of None \<Rightarrow> (Panicked, s) | Some x \<Rightarrow> try_read s x k)"

definition rows_only :: "('s, 'h) rocks_api \<Rightarrow> bool" where
  "rows_only A \<longleftrightarrow> (\<forall>s t m. \<exists>rows. api_iterator A s t m = map Inr rows)
     \<and> (\<forall>s t p. \<exists>rows. api_prefix_iterator A s t p = map Inr rows)"

lemma rows_of_view:
  assumes "is_rows w rs"
  shows "length (filter (\<lambda>r. P (fst r)) rs) = card {k. w k \<noteq> None \<and> P k}"
    and "w k = Some bs \<longleftrightarrow> (k, bs) \<in> set rs"
proof -
  have d: "distinct (map fst rs)" using assms by (simp add: is_rows_def strict_sorted_iff)
  have w: "w = map_of rs" using assms by (simp add: is_rows_def)
  show "w k = Some bs \<longleftrightarrow> (k, bs) \<in> set rs" using d w by (simp add: map_of_eq_Some_iff)
  have "{k. w k \<noteq> None \<and> P k} = fst ` set (filter (\<lambda>r. P (fst r)) rs)"
    using map_of_eq_None_iff [of rs] by (auto simp: w image_iff)
  moreover have "distinct (map fst (filter (\<lambda>r. P (fst r)) rs))" using d by (simp add: distinct_map_filter)
  ultimately show "length (filter (\<lambda>r. P (fst r)) rs) = card {k. w k \<noteq> None \<and> P k}"
    using distinct_card [of "map fst (filter (\<lambda>r. P (fst r)) rs)"] by simp
qed

lemma safe_find_by_prefix:
  assumes "rocks_contract A M" and "iter_contract A M" and "rows_only A"
    and "\<And>items. length items = card {k. m_view M s cf k \<noteq> None \<and> has_prefix (as_bytes p) k} \<Longrightarrow>
      (\<And>k bs. m_view M s cf k = Some bs \<Longrightarrow> has_prefix (as_bytes p) k \<Longrightarrow>
         \<exists>x. deserialize_kv dec c k bs = Inr x \<and> x \<in> set items) \<Longrightarrow> ends pan Q (kk items)"
  shows "ends pan Q (try_search s (find_by_prefix A dec c s cf p dir) kk)"
proof (cases "target_of A s cf")
  case (Inl e)
  then have "find_by_prefix A dec c s cf p dir = Some (Inl e)"
    by (simp add: find_by_prefix_def iterate_def execute_def base_iter_def new_deserializing_def
        prefix_iterator_factory_def collect_items_def)
  then show ?thesis by (simp only: try_search_def option.case) (simp add: try_read_def safe_def)
next
  case (Inr t)
  obtain rows where "api_prefix_iterator A s t (as_bytes p) = map Inr rows"
    using assms(3) unfolding rows_only_def by meson
  from find_by_prefix_rows [where dec = dec and c = c and dir = dir, OF assms(1,2) Inr this] obtain rs where rs: "is_rows (m_view M s cf) rs"
    and find: "find_by_prefix A dec c s cf p dir
      = Some (collect_ok (map (\<lambda>r. deserialize_kv dec c (fst r) (snd r)) (filter (\<lambda>r. has_prefix (as_bytes p) (fst r)) rs)))"
    by blast
  show ?thesis
    unfolding find try_search_def option.case
  proof (rule safe_try_read)
    fix items
    assume "collect_ok (map (\<lambda>r. deserialize_kv dec c (fst r) (snd r)) (filter (\<lambda>r. has_prefix (as_bytes p) (fst r)) rs))
      = Inr items"
    then have items: "map (\<lambda>r. deserialize_kv dec c (fst r) (snd r)) (filter (\<lambda>r. has_prefix (as_bytes p) (fst r)) rs)
        = map Inr items"
      by (simp add: collect_ok_Inr_iff)
    then have "length items = card {k. m_view M s cf k \<noteq> None \<and> has_prefix (as_bytes p) k}"
      using map_eq_imp_length_eq [OF items] rows_of_view(1) [OF rs, of "has_prefix (as_bytes p)"] by simp
    moreover have "\<exists>x. deserialize_kv dec c k bs = Inr x \<and> x \<in> set items"
      if "m_view M s cf k = Some bs" "has_prefix (as_bytes p) k" for k bs
    proof -
      have "(k, bs) \<in> set (filter (\<lambda>r. has_prefix (as_bytes p) (fst r)) rs)"
        using that rows_of_view(2) [OF rs] by simp
      then have "deserialize_kv dec c k bs \<in> set (map Inr items)"
        unfolding items [symmetric] by force
      then show ?thesis by auto
    qed
    ultimately show "ends pan Q (kk items)" by (rule assms(4))
  qed
qed

text \<open>A search that keeps every row fails when one of the rows does not decode.\<close>

lemma gather_all_Inr:
  "fst (gather (Some (\<lambda>c _ _ _. (Keep, c))) (kv_deserializer dec c) (map Inr rows) env n) = Inr items \<Longrightarrow>
     (k, v) \<in> set rows \<Longrightarrow> \<exists>x. deserialize_kv dec c k v = Inr x"
proof (induction rows arbitrary: n items)
  case (Cons r rows)
  then show ?case
    by (cases r) (auto simp: kv_deserializer_def case_prod_beta split: sum.splits)
qed simp

lemma find_from_fails:
  assumes "rocks_contract A M" and "iter_contract A M" and "rows_only A"
    and "m_view M s cf k0 = Some bs" and "as_bytes k \<le> k0" and "\<And>x. deserialize_kv dec c k0 bs \<noteq> Inr x"
  shows "ends pan Q (try_search s (map_option fst (find_from A dec c s cf k Forward (\<lambda>c _ _ _. (Keep, c)) env)) kk)"
proof (cases "target_of A s cf")
  case (Inl e)
  then have "map_option fst (find_from A dec c s cf k Forward (\<lambda>c _ _ _. (Keep, c)) env) = Some (Inl e)"
    by (simp add: find_from_def iterate_def execute_def base_iter_def new_deserializing_def
        general_iterator_factory_def collect_items_def)
  then show ?thesis by (simp only: try_search_def option.case) (simp add: try_read_def safe_def)
next
  case (Inr t)
  obtain rows where "api_iterator A s t (IterFrom (as_bytes k) Forward) = map Inr rows"
    using assms(3) unfolding rows_only_def by meson
  from find_from_rows [where dec = dec and c = c and env = env and f = "\<lambda>c _ _ _. (Keep, c)", OF assms(1,2) Inr this] obtain rs where rs: "is_rows (m_view M s cf) rs"
    and find: "find_from A dec c s cf k Forward (\<lambda>c _ _ _. (Keep, c)) env
      = Some (gather (Some (\<lambda>c _ _ _. (Keep, c))) (kv_deserializer dec c)
          (map Inr (filter (\<lambda>r. as_bytes k \<le> fst r) rs)) env 0)"
    by auto
  have "(k0, bs) \<in> set (filter (\<lambda>r. as_bytes k \<le> fst r) rs)"
    using assms(4,5) rows_of_view(2) [OF rs] by simp
  then have "fst (gather (Some (\<lambda>c _ _ _. (Keep, c))) (kv_deserializer dec c)
      (map Inr (filter (\<lambda>r. as_bytes k \<le> fst r) rs)) env 0) \<noteq> Inr items" for items
    using gather_all_Inr assms(6) by metis
  then show ?thesis
    unfolding find try_search_def option.map option.case by (intro safe_try_read) blast
qed

end
