(* ===== verification/Opt_Context.thy ===== *)
theory Opt_Context
  imports Txn_Context
begin

text \<open>
  \<open>src/tx/optimistic_context.rs\<close>: the \<open>OptimisticTransactionContext\<close>. It is the context of
  \<open>Txn_Context\<close> over an optimistic transaction, written anew in the source: its methods call the
  transaction directly, the methods with a column family name look the handle up in every case, the
  default family included, and its end takes the transaction out of the \<open>ManuallyDrop\<close> before it uses
  it. The world, the interfaces and the relation \<open>life\<close> are those of \<open>Txn_Context\<close>.
\<close>

section \<open>The context\<close>

record opt_context =
  opt_completed :: bool

text \<open>\<open>L\<close> with the snapshot flag is the family of calls for transactions begun with these options.\<close>

definition opt_new :: "(bool \<Rightarrow> 'w txn_life) \<Rightarrow> bool \<Rightarrow> 'w \<Rightarrow> opt_context \<times> 'w" where
  "opt_new L with_snapshot w = (\<lparr>opt_completed = False\<rparr>, life_begin (L with_snapshot) w)"

definition transaction_context :: "(bool \<Rightarrow> 'w txn_life) \<Rightarrow> 'w \<Rightarrow> opt_context \<times> 'w" where
  "transaction_context L w = opt_new L True w"

definition blind_transaction_context :: "(bool \<Rightarrow> 'w txn_life) \<Rightarrow> 'w \<Rightarrow> opt_context \<times> 'w" where
  "blind_transaction_context L w = opt_new L False w"

definition opt_check_completed :: "opt_context \<Rightarrow> unit store_result" where
  "opt_check_completed self =
     (if opt_completed self then
        Inl (Other ''OptimisticTransactionContext already completed (committed or rolled back)'')
      else Inr ())"

subsection \<open>Default column family\<close>

definition opt_set ::
    "('w, 'h) rocks_api \<Rightarrow> 'v codec \<Rightarrow> opt_context \<Rightarrow> 'w \<Rightarrow> key \<Rightarrow> 'v \<Rightarrow> unit store_result \<times> 'w" where
  "opt_set A c self txn key val =
     prepare (opt_check_completed self) txn (\<lambda>_.
     prepare (serialize_key key) txn (\<lambda>ser_key.
     prepare (serialize_value c val) txn (\<lambda>ser_val.
       on_default (api_put A txn DefaultCf ser_key ser_val))))"

definition opt_set_raw ::
    "('w, 'h) rocks_api \<Rightarrow> opt_context \<Rightarrow> 'w \<Rightarrow> key \<Rightarrow> bytes \<Rightarrow> unit store_result \<times> 'w" where
  "opt_set_raw A self txn key raw_val =
     prepare (opt_check_completed self) txn (\<lambda>_.
     prepare (serialize_key key) txn (\<lambda>ser_key.
       on_default (api_put A txn DefaultCf ser_key raw_val)))"

definition opt_set_with_expiry ::
    "('w, 'h) rocks_api \<Rightarrow> 'v codec \<Rightarrow> opt_context \<Rightarrow> 'w \<Rightarrow> key \<Rightarrow> 'v \<Rightarrow> u64
     \<Rightarrow> unit store_result \<times> 'w" where
  "opt_set_with_expiry A c self txn key val t =
     prepare (opt_check_completed self) txn (\<lambda>_.
     prepare (serialize_key key) txn (\<lambda>ser_key.
     prepare (vwe_from_value c t val) txn (\<lambda>vwe.
       on_default (api_put A txn DefaultCf ser_key (serialize_for_storage vwe)))))"

definition opt_merge ::
    "('w, 'h) rocks_api \<Rightarrow> 'p merge_value codec \<Rightarrow> opt_context \<Rightarrow> 'w \<Rightarrow> key \<Rightarrow> 'p merge_value
     \<Rightarrow> unit store_result \<times> 'w" where
  "opt_merge A c self txn key merge_val =
     prepare (opt_check_completed self) txn (\<lambda>_.
     prepare (serialize_key key) txn (\<lambda>ser_key.
     prepare (serialize_value c merge_val) txn (\<lambda>ser_merge_op.
       on_default (api_merge A txn DefaultCf ser_key ser_merge_op))))"

definition opt_merge_raw ::
    "('w, 'h) rocks_api \<Rightarrow> opt_context \<Rightarrow> 'w \<Rightarrow> key \<Rightarrow> bytes \<Rightarrow> unit store_result \<times> 'w" where
  "opt_merge_raw A self txn key raw_merge_op =
     prepare (opt_check_completed self) txn (\<lambda>_.
     prepare (serialize_key key) txn (\<lambda>ser_key.
       on_default (api_merge A txn DefaultCf ser_key raw_merge_op)))"

definition opt_delete ::
    "('w, 'h) rocks_api \<Rightarrow> opt_context \<Rightarrow> 'w \<Rightarrow> key \<Rightarrow> unit store_result \<times> 'w" where
  "opt_delete A self txn key =
     prepare (opt_check_completed self) txn (\<lambda>_.
     prepare (serialize_key key) txn (\<lambda>ser_key.
       on_default (api_delete A txn DefaultCf ser_key)))"

definition opt_get ::
    "('w, 'h) rocks_api \<Rightarrow> 'v codec \<Rightarrow> opt_context \<Rightarrow> 'w \<Rightarrow> key \<Rightarrow> 'v option store_result" where
  "opt_get A c self txn key =
     and_then (opt_check_completed self) (\<lambda>_.
     and_then (serialize_key key) (\<lambda>ser_key.
     and_then (map_err RocksDb (api_get A txn DefaultCf ser_key)) (\<lambda>opt_val.
       case opt_val of
         Some pinned_val \<Rightarrow> map_ok Some (deserialize_value c pinned_val)
       | None \<Rightarrow> Inr None)))"

definition opt_get_raw ::
    "('w, 'h) rocks_api \<Rightarrow> opt_context \<Rightarrow> 'w \<Rightarrow> key \<Rightarrow> bytes option store_result" where
  "opt_get_raw A self txn key =
     and_then (opt_check_completed self) (\<lambda>_.
     and_then (serialize_key key) (\<lambda>ser_key.
       map_err RocksDb (api_get A txn DefaultCf ser_key)))"

definition opt_get_with_expiry ::
    "('w, 'h) rocks_api \<Rightarrow> opt_context \<Rightarrow> 'w \<Rightarrow> key \<Rightarrow> value_with_expiry option store_result" where
  "opt_get_with_expiry A self txn key =
     and_then (opt_get_raw A self txn key) (\<lambda>opt_bytes. opt_try vwe_from_slice opt_bytes)"

definition opt_exists ::
    "('w, 'h) rocks_api \<Rightarrow> opt_context \<Rightarrow> 'w \<Rightarrow> key \<Rightarrow> bool store_result" where
  "opt_exists A self txn key =
     and_then (opt_check_completed self) (\<lambda>_.
     and_then (serialize_key key) (\<lambda>ser_key.
       map_err RocksDb (map_ok (\<lambda>x. x \<noteq> None) (api_get A txn DefaultCf ser_key))))"

subsection \<open>Named column families\<close>

text \<open>A call of the transaction on a handle.\<close>

definition on_handle :: "'w effect \<Rightarrow> unit store_result \<times> 'w" where
  "on_handle r = (case r of (x, w) \<Rightarrow> (map_err RocksDb x, w))"

definition opt_put_cf ::
    "('w, 'h) rocks_api \<Rightarrow> ('w, 'h) cf_lookup \<Rightarrow> 'v codec \<Rightarrow> opt_context \<Rightarrow> 'w \<Rightarrow> string \<Rightarrow> key \<Rightarrow> 'v
     \<Rightarrow> unit store_result \<times> 'w" where
  "opt_put_cf A H c self txn cf_name key val =
     prepare (opt_check_completed self) txn (\<lambda>_.
     prepare (H txn cf_name) txn (\<lambda>handle.
     prepare (serialize_key key) txn (\<lambda>ser_key.
     prepare (serialize_value c val) txn (\<lambda>ser_val.
       on_handle (api_put A txn (Cf handle) ser_key ser_val)))))"

definition opt_put_cf_raw ::
    "('w, 'h) rocks_api \<Rightarrow> ('w, 'h) cf_lookup \<Rightarrow> opt_context \<Rightarrow> 'w \<Rightarrow> string \<Rightarrow> key \<Rightarrow> bytes
     \<Rightarrow> unit store_result \<times> 'w" where
  "opt_put_cf_raw A H self txn cf_name key raw_val =
     prepare (opt_check_completed self) txn (\<lambda>_.
     prepare (H txn cf_name) txn (\<lambda>handle.
     prepare (serialize_key key) txn (\<lambda>ser_key.
       on_handle (api_put A txn (Cf handle) ser_key raw_val))))"

definition opt_put_cf_with_expiry ::
    "('w, 'h) rocks_api \<Rightarrow> ('w, 'h) cf_lookup \<Rightarrow> 'v codec \<Rightarrow> opt_context \<Rightarrow> 'w \<Rightarrow> string \<Rightarrow> key \<Rightarrow> 'v \<Rightarrow> u64
     \<Rightarrow> unit store_result \<times> 'w" where
  "opt_put_cf_with_expiry A H c self txn cf_name key val t =
     prepare (opt_check_completed self) txn (\<lambda>_.
     prepare (vwe_from_value c t val) txn (\<lambda>vwe.
       opt_put_cf_raw A H self txn cf_name key (serialize_for_storage vwe)))"

definition opt_merge_cf ::
    "('w, 'h) rocks_api \<Rightarrow> ('w, 'h) cf_lookup \<Rightarrow> 'p merge_value codec \<Rightarrow> opt_context \<Rightarrow> 'w \<Rightarrow> string
     \<Rightarrow> key \<Rightarrow> 'p merge_value \<Rightarrow> unit store_result \<times> 'w" where
  "opt_merge_cf A H c self txn cf_name key merge_val =
     prepare (opt_check_completed self) txn (\<lambda>_.
     prepare (H txn cf_name) txn (\<lambda>handle.
     prepare (serialize_key key) txn (\<lambda>ser_key.
     prepare (serialize_value c merge_val) txn (\<lambda>ser_merge_op.
       on_handle (api_merge A txn (Cf handle) ser_key ser_merge_op)))))"

definition opt_merge_cf_raw ::
    "('w, 'h) rocks_api \<Rightarrow> ('w, 'h) cf_lookup \<Rightarrow> opt_context \<Rightarrow> 'w \<Rightarrow> string \<Rightarrow> key \<Rightarrow> bytes
     \<Rightarrow> unit store_result \<times> 'w" where
  "opt_merge_cf_raw A H self txn cf_name key raw_merge_op =
     prepare (opt_check_completed self) txn (\<lambda>_.
     prepare (H txn cf_name) txn (\<lambda>handle.
     prepare (serialize_key key) txn (\<lambda>ser_key.
       on_handle (api_merge A txn (Cf handle) ser_key raw_merge_op))))"

definition opt_delete_cf ::
    "('w, 'h) rocks_api \<Rightarrow> ('w, 'h) cf_lookup \<Rightarrow> opt_context \<Rightarrow> 'w \<Rightarrow> string \<Rightarrow> key
     \<Rightarrow> unit store_result \<times> 'w" where
  "opt_delete_cf A H self txn cf_name key =
     prepare (opt_check_completed self) txn (\<lambda>_.
     prepare (H txn cf_name) txn (\<lambda>handle.
     prepare (serialize_key key) txn (\<lambda>ser_key.
       on_handle (api_delete A txn (Cf handle) ser_key))))"

definition opt_get_cf ::
    "('w, 'h) rocks_api \<Rightarrow> ('w, 'h) cf_lookup \<Rightarrow> 'v codec \<Rightarrow> opt_context \<Rightarrow> 'w \<Rightarrow> string \<Rightarrow> key
     \<Rightarrow> 'v option store_result" where
  "opt_get_cf A H c self txn cf_name key =
     and_then (opt_check_completed self) (\<lambda>_.
     and_then (H txn cf_name) (\<lambda>handle.
     and_then (serialize_key key) (\<lambda>ser_key.
     and_then (map_err RocksDb (api_get A txn (Cf handle) ser_key)) (\<lambda>opt_val.
       case opt_val of
         Some pinned_val \<Rightarrow> map_ok Some (deserialize_value c pinned_val)
       | None \<Rightarrow> Inr None))))"

definition opt_get_cf_raw ::
    "('w, 'h) rocks_api \<Rightarrow> ('w, 'h) cf_lookup \<Rightarrow> opt_context \<Rightarrow> 'w \<Rightarrow> string \<Rightarrow> key
     \<Rightarrow> bytes option store_result" where
  "opt_get_cf_raw A H self txn cf_name key =
     and_then (opt_check_completed self) (\<lambda>_.
     and_then (H txn cf_name) (\<lambda>handle.
     and_then (serialize_key key) (\<lambda>ser_key.
       map_err RocksDb (api_get A txn (Cf handle) ser_key))))"

definition opt_get_cf_with_expiry ::
    "('w, 'h) rocks_api \<Rightarrow> ('w, 'h) cf_lookup \<Rightarrow> opt_context \<Rightarrow> 'w \<Rightarrow> string \<Rightarrow> key
     \<Rightarrow> value_with_expiry option store_result" where
  "opt_get_cf_with_expiry A H self txn cf_name key =
     and_then (opt_get_cf_raw A H self txn cf_name key) (\<lambda>opt_bytes. opt_try vwe_from_slice opt_bytes)"

definition opt_exists_cf ::
    "('w, 'h) rocks_api \<Rightarrow> ('w, 'h) cf_lookup \<Rightarrow> opt_context \<Rightarrow> 'w \<Rightarrow> string \<Rightarrow> key \<Rightarrow> bool store_result" where
  "opt_exists_cf A H self txn cf_name key =
     and_then (opt_check_completed self) (\<lambda>_.
     and_then (H txn cf_name) (\<lambda>handle.
     and_then (serialize_key key) (\<lambda>ser_key.
       map_err RocksDb (map_ok (\<lambda>x. x \<noteq> None) (api_get A txn (Cf handle) ser_key)))))"

subsection \<open>Iteration\<close>

definition opt_iterate ::
    "('w, 'h) rocks_api \<Rightarrow> ('w, 'h) cf_lookup \<Rightarrow> opt_context \<Rightarrow> 'w \<Rightarrow> ('c, 'k, 'v) iter_config
     \<Rightarrow> ('c, 'k, 'v) iteration_result store_result \<times> 'c" where
  "opt_iterate A H self txn cfg =
     prepare (opt_check_completed self) (cfg_env cfg) (\<lambda>_.
       let general_iterator_factory =
             (\<lambda>mode. map_ok (\<lambda>target. api_iterator A txn target mode) (target_by H txn (cfg_cf_name cfg)));
           prefix_iterator_factory =
             (\<lambda>prefix_bytes. map_ok (\<lambda>target. api_prefix_iterator A txn target prefix_bytes)
                (target_by H txn (cfg_cf_name cfg)))
       in execute cfg general_iterator_factory prefix_iterator_factory)"

definition opt_find_by_prefix ::
    "('w, 'h) rocks_api \<Rightarrow> ('w, 'h) cf_lookup \<Rightarrow> (bytes \<Rightarrow> (string, 'k) result) \<Rightarrow> 'v codec \<Rightarrow> opt_context
     \<Rightarrow> 'w \<Rightarrow> string \<Rightarrow> key \<Rightarrow> direction \<Rightarrow> ('k \<times> 'v) list store_result option" where
  "opt_find_by_prefix A H dec c self txn cf_name prefix direction =
     map_option fst (collect_items ''find_by_prefix''
       (opt_iterate A H self txn
         (new_deserializing cf_name (Some prefix) None (direction = Reverse) None
           (kv_deserializer dec c) ())))"

definition opt_find_from ::
    "('w, 'h) rocks_api \<Rightarrow> ('w, 'h) cf_lookup \<Rightarrow> (bytes \<Rightarrow> (string, 'k) result) \<Rightarrow> 'v codec \<Rightarrow> opt_context
     \<Rightarrow> 'w \<Rightarrow> string \<Rightarrow> key \<Rightarrow> direction \<Rightarrow> 'c control \<Rightarrow> 'c \<Rightarrow> (('k \<times> 'v) list store_result \<times> 'c) option" where
  "opt_find_from A H dec c self txn cf_name start_key direction control_fn env =
     collect_items ''find_from''
       (opt_iterate A H self txn
         (new_deserializing cf_name None (Some start_key) (direction = Reverse) (Some control_fn)
           (kv_deserializer dec c) env))"

definition opt_find_from_with_expire_val ::
    "('w, 'h) rocks_api \<Rightarrow> ('w, 'h) cf_lookup \<Rightarrow> (bytes \<Rightarrow> (string, 'k) result) \<Rightarrow> opt_context \<Rightarrow> 'w
     \<Rightarrow> string \<Rightarrow> key \<Rightarrow> bool \<Rightarrow> 'c control \<Rightarrow> 'c
     \<Rightarrow> ((string, ('k \<times> value_with_expiry) list) result \<times> 'c) option" where
  "opt_find_from_with_expire_val A H dec self txn cf_name start reverse control_fn env =
     collect_items_short ''Expected DeserializedItems''
       (opt_iterate A H self txn
         (new_deserializing cf_name None (Some start) reverse (Some control_fn)
           (kv_expiry_deserializer dec) env))"

text \<open>
  \<open>tx\<close> and \<open>tx_mut\<close> hand out the transaction itself: \<open>f\<close> is what the caller does with it.
\<close>

definition opt_tx :: "opt_context \<Rightarrow> 'w \<Rightarrow> ('w \<Rightarrow> 'a) \<Rightarrow> 'a store_result" where
  "opt_tx self w f = and_then (opt_check_completed self) (\<lambda>_. Inr (f w))"

definition opt_tx_mut :: "opt_context \<Rightarrow> 'w \<Rightarrow> ('w \<Rightarrow> 'a \<times> 'w) \<Rightarrow> 'a store_result \<times> 'w" where
  "opt_tx_mut self w f =
     prepare (opt_check_completed self) w (\<lambda>_. case f w of (a, w1) \<Rightarrow> (Inr a, w1))"

section \<open>Its end\<close>

text \<open>
  Every way out first takes the transaction and sets the flag, so the destructor has nothing left to do;
  the value that was taken is destroyed by \<open>Transaction::commit\<close>, or at the end of the method.
\<close>

definition opt_drop :: "'w txn_life \<Rightarrow> opt_context \<Rightarrow> 'w \<Rightarrow> 'w \<times> native list" where
  "opt_drop L self w =
     (if \<not> opt_completed self then (snd (life_rollback L w), [Rollback, Destroy]) else (w, []))"

definition opt_commit ::
    "'w txn_life \<Rightarrow> opt_context \<Rightarrow> 'w \<Rightarrow> unit store_result \<times> 'w \<times> native list" where
  "opt_commit L self w =
     (case opt_check_completed self of
        Inl e \<Rightarrow> (case opt_drop L self w of (w1, es) \<Rightarrow> (Inl e, w1, es))
      | Inr _ \<Rightarrow>
          (let self1 = self\<lparr>opt_completed := True\<rparr> in
           case life_commit L w of
             (r, w1) \<Rightarrow>
               (case opt_drop L self1 w1 of
                  (w2, es) \<Rightarrow> (map_err RocksDb r, w2, [Commit, Destroy] @ es))))"

definition opt_rollback ::
    "'w txn_life \<Rightarrow> opt_context \<Rightarrow> 'w \<Rightarrow> unit store_result \<times> 'w \<times> native list" where
  "opt_rollback L self w =
     (case opt_check_completed self of
        Inl e \<Rightarrow> (case opt_drop L self w of (w1, es) \<Rightarrow> (Inl e, w1, es))
      | Inr _ \<Rightarrow>
          (let self1 = self\<lparr>opt_completed := True\<rparr> in
           case life_rollback L w of
             (r, w1) \<Rightarrow>
               (case opt_drop L self1 w1 of
                  (w2, es) \<Rightarrow> (map_err RocksDb r, w2, [Rollback, Destroy] @ es))))"


section \<open>The writing methods as data\<close>

fun opt_cf_step ::
    "('w, 'h) rocks_api \<Rightarrow> ('w, 'h) cf_lookup \<Rightarrow> 'v codec \<Rightarrow> 'p merge_value codec \<Rightarrow> opt_context
     \<Rightarrow> ('v, 'p) txn_call \<Rightarrow> 'w \<Rightarrow> unit store_result \<times> 'w" where
  "opt_cf_step A H cv cp self (TPut cf k v) w = opt_put_cf A H cv self w cf k v"
| "opt_cf_step A H cv cp self (TPutRaw cf k bs) w = opt_put_cf_raw A H self w cf k bs"
| "opt_cf_step A H cv cp self (TPutWithExpiry cf k v t) w = opt_put_cf_with_expiry A H cv self w cf k v t"
| "opt_cf_step A H cv cp self (TDelete cf k) w = opt_delete_cf A H self w cf k"
| "opt_cf_step A H cv cp self (TMerge cf k p) w = opt_merge_cf A H cp self w cf k p"
| "opt_cf_step A H cv cp self (TMergeRaw cf k bs) w = opt_merge_cf_raw A H self w cf k bs"

fun opt_step ::
    "('w, 'h) rocks_api \<Rightarrow> ('w, 'h) cf_lookup \<Rightarrow> 'v codec \<Rightarrow> 'p merge_value codec \<Rightarrow> opt_context
     \<Rightarrow> ('v, 'p) ctx_call \<Rightarrow> 'w \<Rightarrow> unit store_result \<times> 'w" where
  "opt_step A H cv cp self (CxSet k v) w = opt_set A cv self w k v"
| "opt_step A H cv cp self (CxSetRaw k bs) w = opt_set_raw A self w k bs"
| "opt_step A H cv cp self (CxSetWithExpiry k v t) w = opt_set_with_expiry A cv self w k v t"
| "opt_step A H cv cp self (CxMerge k p) w = opt_merge A cp self w k p"
| "opt_step A H cv cp self (CxMergeRaw k bs) w = opt_merge_raw A self w k bs"
| "opt_step A H cv cp self (CxDelete k) w = opt_delete A self w k"
| "opt_step A H cv cp self (CxCf x) w = opt_cf_step A H cv cp self x w"

section \<open>Lemmas\<close>

lemma opt_check_live: "\<not> opt_completed self \<Longrightarrow> opt_check_completed self = Inr ()"
  by (simp add: opt_check_completed_def)

lemma on_handle_write:
  "prepare (H w cf) w (\<lambda>h. on_handle (f (Cf h))) = write_on (map_ok Cf (H w cf)) w f"
  by (cases "H w cf") (simp_all add: write_on_def on_handle_def)

lemma opt_raw_eqs:
  assumes "\<not> opt_completed self"
  shows "opt_put_cf_raw A H self w cf k bs
      = write_on (map_ok Cf (H w cf)) w (\<lambda>t. api_put A w t (as_bytes k) bs)"
    and "opt_merge_cf_raw A H self w cf k bs
      = write_on (map_ok Cf (H w cf)) w (\<lambda>t. api_merge A w t (as_bytes k) bs)"
    and "opt_delete_cf A H self w cf k
      = write_on (map_ok Cf (H w cf)) w (\<lambda>t. api_delete A w t (as_bytes k))"
  using assms
  by (simp_all add: opt_put_cf_raw_def opt_merge_cf_raw_def opt_delete_cf_def opt_check_live
      on_handle_write [of H w cf "\<lambda>t. api_put A w t (as_bytes k) bs"]
      on_handle_write [of H w cf "\<lambda>t. api_merge A w t (as_bytes k) bs"]
      on_handle_write [of H w cf "\<lambda>t. api_delete A w t (as_bytes k)"])

lemma opt_typed_eqs:
  assumes "\<not> opt_completed self"
  shows "opt_put_cf A H c self w cf k v = (case H w cf of
        Inl e \<Rightarrow> (Inl e, w)
      | Inr h \<Rightarrow> prepare (serialize_value c v) w (opt_put_cf_raw A H self w cf k))"
    and "opt_merge_cf A H cp self w cf k p = (case H w cf of
        Inl e \<Rightarrow> (Inl e, w)
      | Inr h \<Rightarrow> prepare (serialize_value cp p) w (opt_merge_cf_raw A H self w cf k))"
    and "opt_put_cf_with_expiry A H c self w cf k v t
      = prepare (vwe_from_value c t v) w (\<lambda>vwe. opt_put_cf_raw A H self w cf k (serialize_for_storage vwe))"
  using assms
  by (simp_all add: opt_put_cf_def opt_merge_cf_def opt_put_cf_with_expiry_def opt_check_live
      opt_put_cf_raw_def [abs_def] opt_merge_cf_raw_def [abs_def] prepare_def split: sum.splits)

lemma write_on_handle_view:
  assumes "lookup_ok M H"
    and "\<And>t. target_name M t = cf \<Longrightarrow> effect_ok A M w (call t) v"
  shows "m_view M (snd (write_on (map_ok Cf (H w cf)) w call))
    = outcome (m_view M w) (fst (write_on (map_ok Cf (H w cf)) w call)) v"
  unfolding outcome_def
  by (rule write_on_effect, rule assms(2)) (use assms(1) in \<open>auto simp: lookup_ok_def\<close>)

lemma opt_put_cf_raw_view:
  assumes "rocks_contract A M" and "lookup_ok M H" and "\<not> opt_completed self"
  shows "m_view M (snd (opt_put_cf_raw A H self w cf k bs))
    = outcome (m_view M w) (fst (opt_put_cf_raw A H self w cf k bs))
        (upd (m_view M w) cf (as_bytes k) (Some bs))"
  unfolding opt_raw_eqs [OF assms(3)]
  by (rule write_on_handle_view [OF assms(2)]) (auto intro: contract_put [OF assms(1)])

lemma opt_merge_cf_raw_view:
  assumes "rocks_contract A M" and "lookup_ok M H" and "\<not> opt_completed self"
  shows "m_view M (snd (opt_merge_cf_raw A H self w cf k bs))
    = outcome (m_view M w) (fst (opt_merge_cf_raw A H self w cf k bs))
        (merged M (m_view M w) cf (as_bytes k) bs)"
  unfolding opt_raw_eqs [OF assms(3)] merged_def
  by (rule write_on_handle_view [OF assms(2)]) (auto intro: contract_merge [OF assms(1)])

lemma opt_delete_cf_view:
  assumes "rocks_contract A M" and "lookup_ok M H" and "\<not> opt_completed self"
  shows "m_view M (snd (opt_delete_cf A H self w cf k))
    = outcome (m_view M w) (fst (opt_delete_cf A H self w cf k)) (upd (m_view M w) cf (as_bytes k) None)"
  unfolding opt_raw_eqs [OF assms(3)]
  by (rule write_on_handle_view [OF assms(2)]) (auto intro: contract_delete [OF assms(1)])

text \<open>On the default column family the methods are those of the pessimistic context.\<close>

lemma opt_default_eqs:
  assumes "\<not> opt_completed self"
  shows "opt_set A c self w k v = put_in_txn_cf A H c w DEFAULT_COLUMN_FAMILY_NAME k v"
    and "opt_set_raw A self w k bs = put_raw_in_txn A H w DEFAULT_COLUMN_FAMILY_NAME k bs"
    and "opt_set_with_expiry A c self w k v t
      = put_with_expiry_in_txn A H c w DEFAULT_COLUMN_FAMILY_NAME k v t"
    and "opt_merge A cp self w k p = merge_in_txn A H cp w DEFAULT_COLUMN_FAMILY_NAME k p"
    and "opt_merge_raw A self w k bs = merge_raw_in_txn A H w DEFAULT_COLUMN_FAMILY_NAME k bs"
    and "opt_delete A self w k = delete_in_txn A H w DEFAULT_COLUMN_FAMILY_NAME k"
  using assms
  by (simp_all add: opt_check_live opt_set_def opt_set_raw_def opt_set_with_expiry_def opt_merge_def
      opt_merge_raw_def opt_delete_def put_in_txn_cf_def put_raw_in_txn_def put_with_expiry_in_txn_def
      merge_in_txn_def merge_raw_in_txn_def delete_in_txn_def on_default_def write_on_def)

lemma opt_cf_step_view:
  assumes "rocks_contract A M" and "lookup_ok M H" and "\<not> opt_completed self"
  shows "m_view M (snd (opt_cf_step A H cv cp self x w))
    = outcome (m_view M w) (fst (opt_cf_step A H cv cp self x w))
        (write_effect M cv cp (m_view M w) (as_write x))"
  by (cases x)
     (auto simp: opt_typed_eqs [OF assms(3)] serialize_value_def vwe_from_value_def
       serialize_for_storage_def with_expiry_def opt_put_cf_raw_view [OF assms]
       opt_merge_cf_raw_view [OF assms] opt_delete_cf_view [OF assms] outcome_def split: sum.splits)

lemma opt_step_default:
  "\<not> opt_completed self \<Longrightarrow> \<forall>y. x \<noteq> CxCf y \<Longrightarrow>
     opt_step A H cv cp self x w = txn_step A H cv cp (as_txn_call x) w"
  by (cases x) (auto simp: opt_default_eqs [where H = H])

lemma opt_step_view:
  assumes "rocks_contract A M" and "lookup_ok M H" and "\<not> opt_completed self"
  shows "m_view M (snd (opt_step A H cv cp self x w))
    = outcome (m_view M w) (fst (opt_step A H cv cp self x w))
        (write_effect M cv cp (m_view M w) (as_write (as_txn_call x)))"
proof (cases "\<exists>y. x = CxCf y")
  case True
  then show ?thesis using opt_cf_step_view [OF assms] by auto
next
  case False
  then have eq: "opt_step A H cv cp self x w = txn_step A H cv cp (as_txn_call x) w"
    by (intro opt_step_default assms(3)) blast
  show ?thesis unfolding eq by (rule txn_step_view [OF assms(1,2)])
qed

lemma opt_step_isolated:
  assumes "txn_contract A M L dbv" and "\<not> opt_completed self"
  shows "dbv (snd (opt_step A H cv cp self x w)) = dbv w"
proof (cases "\<exists>y. x = CxCf y")
  case True
  then obtain y where x: "x = CxCf y" by blast
  have raw: "dbv (snd (opt_put_cf_raw A H self w cf k bs)) = dbv w"
    "dbv (snd (opt_merge_cf_raw A H self w cf k bs)) = dbv w"
    "dbv (snd (opt_delete_cf A H self w cf k)) = dbv w" for cf k bs
    using assms(1) unfolding opt_raw_eqs [OF assms(2)] txn_contract_def
    by (auto intro!: write_on_keeps)
  show ?thesis
    unfolding x by (cases y) (auto simp: opt_typed_eqs [OF assms(2)] raw prepare_def split: sum.splits)
next
  case False
  then have eq: "opt_step A H cv cp self x w = txn_step A H cv cp (as_txn_call x) w"
    by (intro opt_step_default assms(2)) blast
  show ?thesis unfolding eq by (rule txn_step_isolated [OF assms(1)])
qed

lemma opt_run_view:
  assumes "txn_contract A M (L snapshot) dbv" and "lookup_ok M H" and "opt_new L snapshot w = (c, w0)"
    and "run_calls (opt_step A H cv cp c) calls w0 = (okc, w1)"
  shows "m_view M w1 = foldl (write_effect M cv cp) (dbv w) (map (as_write \<circ> as_txn_call) okc)"
    and "dbv w1 = dbv w"
proof -
  have c: "rocks_contract A M" "\<not> opt_completed c" "w0 = life_begin (L snapshot) w"
    using assms(1,3) by (auto simp: txn_contract_def opt_new_def)
  have step: "m_view M (snd (opt_step A H cv cp c x w)) = outcome (m_view M w)
      (fst (opt_step A H cv cp c x w)) (write_effect M cv cp (m_view M w) ((as_write \<circ> as_txn_call) x))"
    for x w
    using opt_step_view [OF c(1) assms(2) c(2)] by simp
  have "m_view M w1 = foldl (\<lambda>v x. write_effect M cv cp v ((as_write \<circ> as_txn_call) x)) (m_view M w0) okc"
    using run_calls_view [where step = "opt_step A H cv cp c"
        and eff = "\<lambda>v x. write_effect M cv cp v ((as_write \<circ> as_txn_call) x)", OF step, of calls w0] assms(4)
    by simp
  moreover have "m_view M w0 = dbv w" using assms(1) c(3) by (simp add: txn_contract_def)
  ultimately show "m_view M w1 = foldl (write_effect M cv cp) (dbv w) (map (as_write \<circ> as_txn_call) okc)"
    by (simp add: foldl_map)
  have "dbv w0 = dbv w" using assms(1) c(3) by (simp add: txn_contract_def)
  then show "dbv w1 = dbv w"
    using run_calls_isolated [where step = "opt_step A H cv cp c" and dbv = dbv,
        OF opt_step_isolated [OF assms(1) c(2)], of calls w0] assms(4)
    by simp
qed

lemma opt_commit_live:
  "\<not> opt_completed c \<Longrightarrow> opt_commit L c w
     = (map_err RocksDb (fst (life_commit L w)), snd (life_commit L w), [Commit, Destroy])"
  by (simp add: opt_commit_def opt_check_live opt_drop_def Let_def split: prod.splits)

lemma opt_rollback_live:
  "\<not> opt_completed c \<Longrightarrow> opt_rollback L c w
     = (map_err RocksDb (fst (life_rollback L w)), snd (life_rollback L w), [Rollback, Destroy])"
  by (simp add: opt_rollback_def opt_check_live opt_drop_def Let_def split: prod.splits)

abbreviation opt_life ::
    "('w, 'h) rocks_api \<Rightarrow> ('w, 'h) cf_lookup \<Rightarrow> (bool \<Rightarrow> 'w txn_life) \<Rightarrow> bool \<Rightarrow> 'v codec
     \<Rightarrow> 'p merge_value codec \<Rightarrow> 'w \<Rightarrow> (opt_context, 'w) stage \<Rightarrow> bool" where
  "opt_life A H L snapshot cv cp w0 \<equiv>
     life (opt_new L snapshot w0) (\<lambda>(x :: (_, _) ctx_call) c w. snd (opt_step A H cv cp c x w))
       (\<lambda>c w. snd (snd (opt_commit (L snapshot) c w))) (\<lambda>c w. snd (snd (opt_rollback (L snapshot) c w)))
       (\<lambda>c w. snd (opt_drop (L snapshot) c w))"

section \<open>Properties\<close>

text \<open>
  C20: An optimistic context never misuses its transaction. Whatever writing methods are called on it and
  however it ends, by a commit that succeeds or fails, a rollback that succeeds or fails, or by being dropped,
  the native transaction is destroyed exactly once and not used afterwards.
\<close>

theorem opt_life_well_used:
  assumes "opt_life A H L snapshot cv cp w0 (Ended es)"
  shows "well_used es"
proof -
  have live: "\<not> opt_completed c" if "opt_life A H L snapshot cv cp w0 (Live c w)" for c w
    using life_live_const [OF that refl] by (simp add: opt_new_def)
  obtain c w where lv: "opt_life A H L snapshot cv cp w0 (Live c w)"
    and es: "es = snd (snd (opt_commit (L snapshot) c w)) \<or> es = snd (snd (opt_rollback (L snapshot) c w))
      \<or> es = snd (opt_drop (L snapshot) c w)"
    using assms by (cases rule: life_EndedE) blast+
  from es live [OF lv] show ?thesis
    by (auto simp: opt_commit_live opt_rollback_live opt_drop_def)
qed

theorem opt_life_well_used_witness:
  "well_used (snd (snd (opt_commit refusing_life (fst (opt_new (\<lambda>_. refusing_life) True (sample_db, sample_db)))
     (snd (opt_new (\<lambda>_. refusing_life) True (sample_db, sample_db))))))"
proof -
  have "opt_life mem_txn_api sample_lookup (\<lambda>_. refusing_life) True raw_codec patch_codec
      (sample_db, sample_db)
      (Ended (snd (snd (opt_commit refusing_life (fst (opt_new (\<lambda>_. refusing_life) True (sample_db, sample_db)))
        (snd (opt_new (\<lambda>_. refusing_life) True (sample_db, sample_db)))))))"
    by (rule life_commit [OF life_new])
  from opt_life_well_used [OF this] show ?thesis .
qed

text \<open>
  C7: An optimistic context is all or nothing. After any sequence of its writing methods, whose errors the
  caller may ignore, a commit that succeeds changes the database by exactly the calls that reported
  success, in order; a commit that reports a conflict, a rollback and a drop leave the database as it
  was when the context was created.
\<close>

theorem opt_commit_atomic:
  assumes "txn_contract A M (L snapshot) dbv" and "lookup_ok M H" and "opt_new L snapshot w = (c, w0)"
    and "run_calls (opt_step A H cv cp c) calls w0 = (okc, w1)"
  shows "dbv (fst (snd (opt_commit (L snapshot) c w1)))
      = (case fst (opt_commit (L snapshot) c w1) of
           Inr _ \<Rightarrow> foldl (write_effect M cv cp) (dbv w) (map (as_write \<circ> as_txn_call) okc)
         | Inl _ \<Rightarrow> dbv w)
    \<and> dbv (fst (snd (opt_rollback (L snapshot) c w1))) = dbv w
    \<and> dbv (fst (opt_drop (L snapshot) c w1)) = dbv w"
proof -
  have live: "\<not> opt_completed c" using assms(3) by (auto simp: opt_new_def)
  note run = opt_run_view [OF assms]
  obtain r w2 where co: "life_commit (L snapshot) w1 = (r, w2)" by fastforce
  have db: "dbv w2 = (case r of Inr _ \<Rightarrow> m_view M w1 | Inl _ \<Rightarrow> dbv w1)"
    using assms(1) co unfolding txn_contract_def by (auto split: sum.splits)
  have "dbv (fst (snd (opt_commit (L snapshot) c w1)))
      = (case fst (opt_commit (L snapshot) c w1) of
           Inr _ \<Rightarrow> foldl (write_effect M cv cp) (dbv w) (map (as_write \<circ> as_txn_call) okc)
         | Inl _ \<Rightarrow> dbv w)"
    using db run by (cases r) (simp_all add: opt_commit_live [OF live] co)
  moreover have "dbv (snd (life_rollback (L snapshot) w1)) = dbv w"
    using assms(1) run(2) by (simp add: txn_contract_def)
  ultimately show ?thesis
    using live by (simp add: opt_rollback_live opt_drop_def)
qed

theorem opt_commit_atomic_witness:
  "\<exists>okc w1. run_calls (opt_step mem_txn_api sample_lookup raw_codec patch_codec \<lparr>opt_completed = False\<rparr>)
       sample_ctx_calls (sample_db, sample_db) = (okc, w1)
     \<and> mem_view (fst (fst (snd (opt_rollback mem_txn_life \<lparr>opt_completed = False\<rparr> w1)))) = mem_view sample_db"
proof -
  define c where "c = \<lparr>opt_completed = False\<rparr>"
  have new: "opt_new (\<lambda>_. mem_txn_life) True (sample_db, sample_db) = (c, (sample_db, sample_db))"
    by (simp add: opt_new_def mem_txn_life_def c_def)
  obtain okc w1 where run: "run_calls (opt_step mem_txn_api sample_lookup raw_codec patch_codec c)
      sample_ctx_calls (sample_db, sample_db) = (okc, w1)"
    using prod.exhaust by blast
  from opt_commit_atomic [OF txn_contract_mem lookup_ok_txn [OF rocks_contract_mem_txn] new run] run
  show ?thesis unfolding c_def by auto
qed

text \<open>
  The default column family by name. Where the list of column families does not name the default
  family, which the database opens anyway, a write to it by name is refused by an optimistic context and
  accepted by a pessimistic one, where it is the write to the default family.
\<close>

theorem default_by_name:
  assumes "DEFAULT_COLUMN_FAMILY_NAME \<notin> set (ts_cf_names st)" and "\<not> opt_completed oc" and "\<not> completed pc"
  shows "opt_put_cf A (optimistic_get_cf_handle A st) c oc w DEFAULT_COLUMN_FAMILY_NAME k v
      = (Inl (UnknownCf DEFAULT_COLUMN_FAMILY_NAME), w)
    \<and> ctx_put_cf A (txn_get_cf_handle A st) c pc w DEFAULT_COLUMN_FAMILY_NAME k v
      = ctx_set A (txn_get_cf_handle A st) c pc w k v"
  using assms
  by (simp add: opt_put_cf_def opt_check_live optimistic_get_cf_handle_def ctx_put_cf_def ctx_set_def)

theorem default_by_name_witness:
  "opt_put_cf mem_txn_api (optimistic_get_cf_handle mem_txn_api \<lparr>ts_cf_names = [''users''], ts_path = ''db''\<rparr>)
     raw_codec \<lparr>opt_completed = False\<rparr> (sample_db, sample_db) ''default'' (KVec [1]) [2]
   = (Inl (UnknownCf ''default''), (sample_db, sample_db))"
  using default_by_name [of "\<lparr>ts_cf_names = [''users''], ts_path = ''db''\<rparr>" "\<lparr>opt_completed = False\<rparr>"
      "\<lparr>completed = False\<rparr>" mem_txn_api raw_codec "(sample_db, sample_db)" "KVec [1]" "[2]"]
  by (simp add: DEFAULT_COLUMN_FAMILY_NAME_def)

end
