(* ===== verification/Default_Stores.thy ===== *)
theory Default_Stores
  imports Opt_Context Batch_Writer
begin

text \<open>
  The three stores for the default column family, which implement the trait \<open>DefaultCFOperations\<close>:
  \<open>RocksDbStore\<close> (\<open>src/store.rs\<close>, names \<open>ds_\<close>), \<open>RocksDbTxnStore\<close> (\<open>src/tx/tx_store.rs\<close>, \<open>dt_\<close>) and
  \<open>RocksDbOptimisticTxnStore\<close> (\<open>src/tx/optimistic_tx_store.rs\<close>, \<open>dp_\<close>). Each wraps the store for column
  families of the same kind; \<open>RocksDbTxnStore\<close> calls the database itself for most operations. The trait
  is the locale \<open>default_operations\<close>; the three stores are interpreted in it.
\<close>

section \<open>RocksDbStore\<close>

definition ds_get ::
    "('s, 'h) rocks_api \<Rightarrow> 'v codec \<Rightarrow> 's \<Rightarrow> key \<Rightarrow> 'v option store_result" where
  "ds_get A c s key = get A c s DEFAULT_COLUMN_FAMILY_NAME key"

definition ds_get_raw ::
    "('s, 'h) rocks_api \<Rightarrow> 's \<Rightarrow> key \<Rightarrow> bytes option store_result" where
  "ds_get_raw A s key = get_raw A s DEFAULT_COLUMN_FAMILY_NAME key"

definition ds_get_with_expiry ::
    "('s, 'h) rocks_api \<Rightarrow> 's \<Rightarrow> key \<Rightarrow> value_with_expiry option store_result" where
  "ds_get_with_expiry A s key = get_with_expiry A s DEFAULT_COLUMN_FAMILY_NAME key"

definition ds_exists ::
    "('s, 'h) rocks_api \<Rightarrow> 's \<Rightarrow> key \<Rightarrow> bool store_result" where
  "ds_exists A s key = exists A s DEFAULT_COLUMN_FAMILY_NAME key"

definition ds_multiget ::
    "('s, 'h) rocks_api \<Rightarrow> 'v codec \<Rightarrow> 's \<Rightarrow> key list \<Rightarrow> 'v option list store_result" where
  "ds_multiget A c s keys = multiget A c s DEFAULT_COLUMN_FAMILY_NAME keys"

definition ds_multiget_raw ::
    "('s, 'h) rocks_api \<Rightarrow> 's \<Rightarrow> key list \<Rightarrow> bytes option list store_result" where
  "ds_multiget_raw A s keys = multiget_raw A s DEFAULT_COLUMN_FAMILY_NAME keys"

definition ds_multiget_with_expiry ::
    "('s, 'h) rocks_api \<Rightarrow> 's \<Rightarrow> key list \<Rightarrow> value_with_expiry option list store_result" where
  "ds_multiget_with_expiry A s keys = multiget_with_expiry A s DEFAULT_COLUMN_FAMILY_NAME keys"

definition ds_put ::
    "('s, 'h) rocks_api \<Rightarrow> 'v codec \<Rightarrow> 's \<Rightarrow> key \<Rightarrow> 'v \<Rightarrow> unit store_result \<times> 's" where
  "ds_put A c s key val = put A c s DEFAULT_COLUMN_FAMILY_NAME key val"

definition ds_put_raw ::
    "('s, 'h) rocks_api \<Rightarrow> 's \<Rightarrow> key \<Rightarrow> bytes \<Rightarrow> unit store_result \<times> 's" where
  "ds_put_raw A s key raw_val = put_raw A s DEFAULT_COLUMN_FAMILY_NAME key raw_val"

definition ds_put_with_expiry ::
    "('s, 'h) rocks_api \<Rightarrow> 'v codec \<Rightarrow> 's \<Rightarrow> key \<Rightarrow> 'v \<Rightarrow> u64 \<Rightarrow> unit store_result \<times> 's" where
  "ds_put_with_expiry A c s key val t = put_with_expiry A c s DEFAULT_COLUMN_FAMILY_NAME key val t"

definition ds_merge ::
    "('s, 'h) rocks_api \<Rightarrow> 'p merge_value codec \<Rightarrow> 's \<Rightarrow> key \<Rightarrow> 'p merge_value
     \<Rightarrow> unit store_result \<times> 's" where
  "ds_merge A c s key merge_value = merge A c s DEFAULT_COLUMN_FAMILY_NAME key merge_value"

definition ds_merge_raw ::
    "('s, 'h) rocks_api \<Rightarrow> 's \<Rightarrow> key \<Rightarrow> bytes \<Rightarrow> unit store_result \<times> 's" where
  "ds_merge_raw A s key raw_merge_op = merge_raw A s DEFAULT_COLUMN_FAMILY_NAME key raw_merge_op"

definition ds_merge_with_expiry ::
    "('s, 'h) rocks_api \<Rightarrow> 'v codec \<Rightarrow> 's \<Rightarrow> string \<Rightarrow> key \<Rightarrow> 'v \<Rightarrow> u64 \<Rightarrow> unit store_result \<times> 's" where
  "ds_merge_with_expiry A c s cf_name key val t = merge_with_expiry A c s cf_name key val t"

definition ds_delete ::
    "('s, 'h) rocks_api \<Rightarrow> 's \<Rightarrow> key \<Rightarrow> unit store_result \<times> 's" where
  "ds_delete A s key = delete A s DEFAULT_COLUMN_FAMILY_NAME key"

definition ds_delete_range ::
    "('s, 'h) rocks_api \<Rightarrow> 's \<Rightarrow> key \<Rightarrow> key \<Rightarrow> unit store_result \<times> 's" where
  "ds_delete_range A s start_key end_key = delete_range A s DEFAULT_COLUMN_FAMILY_NAME start_key end_key"

definition ds_iterate ::
    "('s, 'h) rocks_api \<Rightarrow> 's \<Rightarrow> ('c, 'k, 'v) iter_config
     \<Rightarrow> ('c, 'k, 'v) iteration_result store_result \<times> 'c" where
  "ds_iterate A s cfg = iterate A s cfg"

definition ds_find_by_prefix ::
    "('s, 'h) rocks_api \<Rightarrow> (bytes \<Rightarrow> (string, 'k) result) \<Rightarrow> 'v codec \<Rightarrow> 's \<Rightarrow> key \<Rightarrow> direction
     \<Rightarrow> ('k \<times> 'v) list store_result option" where
  "ds_find_by_prefix A dec c s prefix direction = find_by_prefix A dec c s DEFAULT_COLUMN_FAMILY_NAME prefix direction"

definition ds_find_from ::
    "('s, 'h) rocks_api \<Rightarrow> (bytes \<Rightarrow> (string, 'k) result) \<Rightarrow> 'v codec \<Rightarrow> 's \<Rightarrow> key \<Rightarrow> direction
     \<Rightarrow> 'c control \<Rightarrow> 'c \<Rightarrow> (('k \<times> 'v) list store_result \<times> 'c) option" where
  "ds_find_from A dec c s start_key direction control_fn env = find_from A dec c s DEFAULT_COLUMN_FAMILY_NAME start_key direction control_fn env"

definition ds_find_from_with_expire_val ::
    "('s, 'h) rocks_api \<Rightarrow> (bytes \<Rightarrow> (string, 'k) result) \<Rightarrow> 's \<Rightarrow> key \<Rightarrow> bool \<Rightarrow> 'c control \<Rightarrow> 'c
     \<Rightarrow> ((string, ('k \<times> value_with_expiry) list) result \<times> 'c) option" where
  "ds_find_from_with_expire_val A dec s start reverse control_fn env = find_from_with_expire_val A dec s DEFAULT_COLUMN_FAMILY_NAME start reverse control_fn env"

definition ds_find_by_prefix_with_expire_val ::
    "('s, 'h) rocks_api \<Rightarrow> (bytes \<Rightarrow> (string, 'k) result) \<Rightarrow> 's \<Rightarrow> key \<Rightarrow> bool \<Rightarrow> 'c control \<Rightarrow> 'c
     \<Rightarrow> ((string, ('k \<times> value_with_expiry) list) result \<times> 'c) option" where
  "ds_find_by_prefix_with_expire_val A dec s start reverse control_fn env = find_by_prefix_with_expire_val A dec s DEFAULT_COLUMN_FAMILY_NAME start reverse control_fn env"

definition ds_batch_writer :: "'h batch_writer" where
  "ds_batch_writer = store_batch_writer DEFAULT_COLUMN_FAMILY_NAME"

text \<open>A batch that the caller fills by himself.\<close>

definition ds_write_batch :: "'h batch_op list" where
  "ds_write_batch = []"

definition ds_write :: "('s, 'h) rocks_api \<Rightarrow> 's \<Rightarrow> 'h batch_op list \<Rightarrow> unit store_result \<times> 's" where
  "ds_write A s batch = (case api_write A s batch of (r, s1) \<Rightarrow> (map_err RocksDb r, s1))"

section \<open>RocksDbOptimisticTxnStore\<close>

text \<open>\<open>H\<close> is the lookup of the wrapped store, \<open>optimistic_get_cf_handle\<close>.\<close>

definition dp_get ::
    "('s, 'h) rocks_api \<Rightarrow> ('s, 'h) cf_lookup \<Rightarrow> 'v codec \<Rightarrow> 's \<Rightarrow> key \<Rightarrow> 'v option store_result" where
  "dp_get A H c s key = ts_get A H c s DEFAULT_COLUMN_FAMILY_NAME key"

definition dp_get_raw ::
    "('s, 'h) rocks_api \<Rightarrow> ('s, 'h) cf_lookup \<Rightarrow> 's \<Rightarrow> key \<Rightarrow> bytes option store_result" where
  "dp_get_raw A H s key = ts_get_raw A H s DEFAULT_COLUMN_FAMILY_NAME key"

definition dp_get_with_expiry ::
    "('s, 'h) rocks_api \<Rightarrow> ('s, 'h) cf_lookup \<Rightarrow> 's \<Rightarrow> key \<Rightarrow> value_with_expiry option store_result" where
  "dp_get_with_expiry A H s key = ts_get_with_expiry A H s DEFAULT_COLUMN_FAMILY_NAME key"

definition dp_exists ::
    "('s, 'h) rocks_api \<Rightarrow> ('s, 'h) cf_lookup \<Rightarrow> 's \<Rightarrow> key \<Rightarrow> bool store_result" where
  "dp_exists A H s key = ts_exists A H s DEFAULT_COLUMN_FAMILY_NAME key"

definition dp_multiget ::
    "('s, 'h) rocks_api \<Rightarrow> ('s, 'h) cf_lookup \<Rightarrow> 'v codec \<Rightarrow> 's \<Rightarrow> key list
     \<Rightarrow> 'v option list store_result" where
  "dp_multiget A H c s keys = ts_multiget A H c s DEFAULT_COLUMN_FAMILY_NAME keys"

definition dp_multiget_raw ::
    "('s, 'h) rocks_api \<Rightarrow> ('s, 'h) cf_lookup \<Rightarrow> 's \<Rightarrow> key list \<Rightarrow> bytes option list store_result" where
  "dp_multiget_raw A H s keys = ts_multiget_raw A H s DEFAULT_COLUMN_FAMILY_NAME keys"

definition dp_multiget_with_expiry ::
    "('s, 'h) rocks_api \<Rightarrow> ('s, 'h) cf_lookup \<Rightarrow> 's \<Rightarrow> key list
     \<Rightarrow> value_with_expiry option list store_result" where
  "dp_multiget_with_expiry A H s keys = ts_multiget_with_expiry A H s DEFAULT_COLUMN_FAMILY_NAME keys"

definition dp_put ::
    "('s, 'h) rocks_api \<Rightarrow> ('s, 'h) cf_lookup \<Rightarrow> 'v codec \<Rightarrow> 's \<Rightarrow> key \<Rightarrow> 'v
     \<Rightarrow> unit store_result \<times> 's" where
  "dp_put A H c s key val = ts_put A H c s DEFAULT_COLUMN_FAMILY_NAME key val"

definition dp_put_raw ::
    "('s, 'h) rocks_api \<Rightarrow> ('s, 'h) cf_lookup \<Rightarrow> 's \<Rightarrow> key \<Rightarrow> bytes \<Rightarrow> unit store_result \<times> 's" where
  "dp_put_raw A H s key raw_val = ts_put_raw A H s DEFAULT_COLUMN_FAMILY_NAME key raw_val"

definition dp_put_with_expiry ::
    "('s, 'h) rocks_api \<Rightarrow> ('s, 'h) cf_lookup \<Rightarrow> 'v codec \<Rightarrow> 's \<Rightarrow> key \<Rightarrow> 'v \<Rightarrow> u64
     \<Rightarrow> unit store_result \<times> 's" where
  "dp_put_with_expiry A H c s key val t = ts_put_with_expiry A H c s DEFAULT_COLUMN_FAMILY_NAME key val t"

definition dp_merge ::
    "('s, 'h) rocks_api \<Rightarrow> ('s, 'h) cf_lookup \<Rightarrow> 'p merge_value codec \<Rightarrow> 's \<Rightarrow> key \<Rightarrow> 'p merge_value
     \<Rightarrow> unit store_result \<times> 's" where
  "dp_merge A H c s key merge_value = ts_merge A H c s DEFAULT_COLUMN_FAMILY_NAME key merge_value"

definition dp_merge_raw ::
    "('s, 'h) rocks_api \<Rightarrow> ('s, 'h) cf_lookup \<Rightarrow> 's \<Rightarrow> key \<Rightarrow> bytes \<Rightarrow> unit store_result \<times> 's" where
  "dp_merge_raw A H s key raw_merge_op = ts_merge_raw A H s DEFAULT_COLUMN_FAMILY_NAME key raw_merge_op"

definition dp_merge_with_expiry ::
    "('s, 'h) rocks_api \<Rightarrow> ('s, 'h) cf_lookup \<Rightarrow> 'v codec \<Rightarrow> 's \<Rightarrow> string \<Rightarrow> key \<Rightarrow> 'v \<Rightarrow> u64
     \<Rightarrow> unit store_result \<times> 's" where
  "dp_merge_with_expiry A H c s cf_name key val t = ts_merge_with_expiry A H c s cf_name key val t"

definition dp_delete ::
    "('s, 'h) rocks_api \<Rightarrow> ('s, 'h) cf_lookup \<Rightarrow> 's \<Rightarrow> key \<Rightarrow> unit store_result \<times> 's" where
  "dp_delete A H s key = ts_delete A H s DEFAULT_COLUMN_FAMILY_NAME key"

definition dp_delete_range :: "'s \<Rightarrow> key \<Rightarrow> key \<Rightarrow> unit store_result \<times> 's" where
  "dp_delete_range s start_key end_key = ts_delete_range s DEFAULT_COLUMN_FAMILY_NAME start_key end_key"

definition dp_iterate ::
    "('s, 'h) rocks_api \<Rightarrow> ('s, 'h) cf_lookup \<Rightarrow> 's \<Rightarrow> ('c, 'k, 'v) iter_config
     \<Rightarrow> ('c, 'k, 'v) iteration_result store_result \<times> 'c" where
  "dp_iterate A H s cfg = ts_iterate A H s cfg"

definition dp_find_by_prefix ::
    "('s, 'h) rocks_api \<Rightarrow> ('s, 'h) cf_lookup \<Rightarrow> (bytes \<Rightarrow> (string, 'k) result) \<Rightarrow> 'v codec \<Rightarrow> 's
     \<Rightarrow> key \<Rightarrow> direction \<Rightarrow> ('k \<times> 'v) list store_result option" where
  "dp_find_by_prefix A H dec c s prefix direction = ts_find_by_prefix A H dec c s DEFAULT_COLUMN_FAMILY_NAME prefix direction"

definition dp_find_from ::
    "('s, 'h) rocks_api \<Rightarrow> ('s, 'h) cf_lookup \<Rightarrow> (bytes \<Rightarrow> (string, 'k) result) \<Rightarrow> 'v codec \<Rightarrow> 's
     \<Rightarrow> key \<Rightarrow> direction \<Rightarrow> 'c control \<Rightarrow> 'c \<Rightarrow> (('k \<times> 'v) list store_result \<times> 'c) option" where
  "dp_find_from A H dec c s start_key direction control_fn env = ts_find_from A H dec c s DEFAULT_COLUMN_FAMILY_NAME start_key direction control_fn env"

definition dp_find_from_with_expire_val ::
    "('s, 'h) rocks_api \<Rightarrow> ('s, 'h) cf_lookup \<Rightarrow> (bytes \<Rightarrow> (string, 'k) result) \<Rightarrow> 's \<Rightarrow> key \<Rightarrow> bool
     \<Rightarrow> 'c control \<Rightarrow> 'c \<Rightarrow> ((string, ('k \<times> value_with_expiry) list) result \<times> 'c) option" where
  "dp_find_from_with_expire_val A H dec s start reverse control_fn env = ts_find_from_with_expire_val A H dec s DEFAULT_COLUMN_FAMILY_NAME start reverse control_fn env"

definition dp_find_by_prefix_with_expire_val ::
    "('s, 'h) rocks_api \<Rightarrow> ('s, 'h) cf_lookup \<Rightarrow> (bytes \<Rightarrow> (string, 'k) result) \<Rightarrow> 's \<Rightarrow> key \<Rightarrow> bool
     \<Rightarrow> 'c control \<Rightarrow> 'c \<Rightarrow> ((string, ('k \<times> value_with_expiry) list) result \<times> 'c) option" where
  "dp_find_by_prefix_with_expire_val A H dec s start reverse control_fn env = ts_find_by_prefix_with_expire_val A H dec s DEFAULT_COLUMN_FAMILY_NAME start reverse control_fn env"

definition dp_transaction_context :: "(bool \<Rightarrow> 'w txn_life) \<Rightarrow> 'w \<Rightarrow> opt_context \<times> 'w" where
  "dp_transaction_context L w = transaction_context L w"

definition dp_blind_transaction_context :: "(bool \<Rightarrow> 'w txn_life) \<Rightarrow> 'w \<Rightarrow> opt_context \<times> 'w" where
  "dp_blind_transaction_context L w = blind_transaction_context L w"

section \<open>RocksDbTxnStore\<close>

text \<open>These operations call the \<open>TransactionDB\<close> directly, on the default column family.\<close>

definition dt_get :: "('s, 'h) rocks_api \<Rightarrow> 'v codec \<Rightarrow> 's \<Rightarrow> key \<Rightarrow> 'v option store_result" where
  "dt_get A c s key =
     and_then (serialize_key key) (\<lambda>ser_key.
     and_then (map_err RocksDb (api_get A s DefaultCf ser_key)) (\<lambda>opt.
       case opt of
         Some v \<Rightarrow> map_ok Some (deserialize_value c v)
       | None \<Rightarrow> Inr None))"

definition dt_get_raw :: "('s, 'h) rocks_api \<Rightarrow> 's \<Rightarrow> key \<Rightarrow> bytes option store_result" where
  "dt_get_raw A s key =
     and_then (serialize_key key) (\<lambda>ser_key.
       map_err RocksDb (api_get A s DefaultCf ser_key))"

definition dt_get_with_expiry ::
    "('s, 'h) rocks_api \<Rightarrow> 's \<Rightarrow> key \<Rightarrow> value_with_expiry option store_result" where
  "dt_get_with_expiry A s key =
     and_then (dt_get_raw A s key) (\<lambda>opt_bytes. opt_try vwe_from_slice opt_bytes)"

definition dt_exists :: "('s, 'h) rocks_api \<Rightarrow> 's \<Rightarrow> key \<Rightarrow> bool store_result" where
  "dt_exists A s key =
     and_then (serialize_key key) (\<lambda>ser_key.
       map_err RocksDb (map_ok (\<lambda>x. x \<noteq> None) (api_get A s DefaultCf ser_key)))"

definition dt_multiget ::
    "('s, 'h) rocks_api \<Rightarrow> 'v codec \<Rightarrow> 's \<Rightarrow> key list \<Rightarrow> 'v option list store_result" where
  "dt_multiget A c s keys =
     (if keys = [] then Inr []
      else
        and_then (collect_ok (map serialize_key keys)) (\<lambda>ser_keys.
          collect_ok
            (map (\<lambda>res_opt_dbvec.
               case res_opt_dbvec of
                 Inl _ \<Rightarrow> Inr None
               | Inr opt_dbvec \<Rightarrow> opt_try (deserialize_value c) opt_dbvec)
             (api_multi_get A s DefaultCf ser_keys))))"

definition dt_multiget_raw ::
    "('s, 'h) rocks_api \<Rightarrow> 's \<Rightarrow> key list \<Rightarrow> bytes option list store_result" where
  "dt_multiget_raw A s keys =
     (if keys = [] then Inr []
      else
        and_then (collect_ok (map serialize_key keys)) (\<lambda>ser_keys.
          map_err RocksDb (collect_ok (api_multi_get A s DefaultCf ser_keys))))"

definition dt_multiget_with_expiry ::
    "('s, 'h) rocks_api \<Rightarrow> 's \<Rightarrow> key list \<Rightarrow> value_with_expiry option list store_result" where
  "dt_multiget_with_expiry A s keys =
     and_then (dt_multiget_raw A s keys) (\<lambda>raw_results.
       collect_ok (map (opt_try vwe_from_slice) raw_results))"

definition dt_put ::
    "('s, 'h) rocks_api \<Rightarrow> 'v codec \<Rightarrow> 's \<Rightarrow> key \<Rightarrow> 'v \<Rightarrow> unit store_result \<times> 's" where
  "dt_put A c s key val =
     prepare (serialize_key key) s (\<lambda>ser_key.
     prepare (serialize_value c val) s (\<lambda>ser_val.
       case api_put A s DefaultCf ser_key ser_val of (r, s1) \<Rightarrow> (map_err RocksDb r, s1)))"

definition dt_put_raw ::
    "('s, 'h) rocks_api \<Rightarrow> 's \<Rightarrow> key \<Rightarrow> bytes \<Rightarrow> unit store_result \<times> 's" where
  "dt_put_raw A s key raw_val =
     prepare (serialize_key key) s (\<lambda>ser_key.
       case api_put A s DefaultCf ser_key raw_val of (r, s1) \<Rightarrow> (map_err RocksDb r, s1))"

definition dt_put_with_expiry ::
    "('s, 'h) rocks_api \<Rightarrow> 'v codec \<Rightarrow> 's \<Rightarrow> key \<Rightarrow> 'v \<Rightarrow> u64 \<Rightarrow> unit store_result \<times> 's" where
  "dt_put_with_expiry A c s key val t =
     prepare (vwe_from_value c t val) s (\<lambda>vwe. dt_put_raw A s key (serialize_for_storage vwe))"

definition dt_merge ::
    "('s, 'h) rocks_api \<Rightarrow> 'p merge_value codec \<Rightarrow> 's \<Rightarrow> key \<Rightarrow> 'p merge_value
     \<Rightarrow> unit store_result \<times> 's" where
  "dt_merge A c s key merge_value =
     prepare (serialize_key key) s (\<lambda>ser_key.
     prepare (serialize_value c merge_value) s (\<lambda>ser_merge_op.
       case api_merge A s DefaultCf ser_key ser_merge_op of (r, s1) \<Rightarrow> (map_err RocksDb r, s1)))"

definition dt_merge_raw ::
    "('s, 'h) rocks_api \<Rightarrow> 's \<Rightarrow> key \<Rightarrow> bytes \<Rightarrow> unit store_result \<times> 's" where
  "dt_merge_raw A s key raw_merge_op =
     prepare (serialize_key key) s (\<lambda>ser_key.
       case api_merge A s DefaultCf ser_key raw_merge_op of (r, s1) \<Rightarrow> (map_err RocksDb r, s1))"

definition dt_delete :: "('s, 'h) rocks_api \<Rightarrow> 's \<Rightarrow> key \<Rightarrow> unit store_result \<times> 's" where
  "dt_delete A s key =
     prepare (serialize_key key) s (\<lambda>ser_key.
       case api_delete A s DefaultCf ser_key of (r, s1) \<Rightarrow> (map_err RocksDb r, s1))"

text \<open>The others go to the wrapped store, whose lookup \<open>H\<close> is \<open>txn_get_cf_handle\<close>.\<close>

definition dt_merge_with_expiry ::
    "('s, 'h) rocks_api \<Rightarrow> ('s, 'h) cf_lookup \<Rightarrow> 'v codec \<Rightarrow> 's \<Rightarrow> string \<Rightarrow> key \<Rightarrow> 'v \<Rightarrow> u64
     \<Rightarrow> unit store_result \<times> 's" where
  "dt_merge_with_expiry A H c s cf_name key val t = ts_merge_with_expiry A H c s cf_name key val t"

definition dt_delete_range :: "'s \<Rightarrow> key \<Rightarrow> key \<Rightarrow> unit store_result \<times> 's" where
  "dt_delete_range s start_key end_key = ts_delete_range s DEFAULT_COLUMN_FAMILY_NAME start_key end_key"

definition dt_iterate ::
    "('s, 'h) rocks_api \<Rightarrow> ('s, 'h) cf_lookup \<Rightarrow> 's \<Rightarrow> ('c, 'k, 'v) iter_config
     \<Rightarrow> ('c, 'k, 'v) iteration_result store_result \<times> 'c" where
  "dt_iterate A H s cfg = ts_iterate A H s cfg"

definition dt_find_by_prefix ::
    "('s, 'h) rocks_api \<Rightarrow> ('s, 'h) cf_lookup \<Rightarrow> (bytes \<Rightarrow> (string, 'k) result) \<Rightarrow> 'v codec \<Rightarrow> 's
     \<Rightarrow> key \<Rightarrow> direction \<Rightarrow> ('k \<times> 'v) list store_result option" where
  "dt_find_by_prefix A H dec c s prefix direction = ts_find_by_prefix A H dec c s DEFAULT_COLUMN_FAMILY_NAME prefix direction"

definition dt_find_from ::
    "('s, 'h) rocks_api \<Rightarrow> ('s, 'h) cf_lookup \<Rightarrow> (bytes \<Rightarrow> (string, 'k) result) \<Rightarrow> 'v codec \<Rightarrow> 's
     \<Rightarrow> key \<Rightarrow> direction \<Rightarrow> 'c control \<Rightarrow> 'c \<Rightarrow> (('k \<times> 'v) list store_result \<times> 'c) option" where
  "dt_find_from A H dec c s start_key direction control_fn env = ts_find_from A H dec c s DEFAULT_COLUMN_FAMILY_NAME start_key direction control_fn env"

definition dt_find_from_with_expire_val ::
    "('s, 'h) rocks_api \<Rightarrow> ('s, 'h) cf_lookup \<Rightarrow> (bytes \<Rightarrow> (string, 'k) result) \<Rightarrow> 's \<Rightarrow> key \<Rightarrow> bool
     \<Rightarrow> 'c control \<Rightarrow> 'c \<Rightarrow> ((string, ('k \<times> value_with_expiry) list) result \<times> 'c) option" where
  "dt_find_from_with_expire_val A H dec s start reverse control_fn env = ts_find_from_with_expire_val A H dec s DEFAULT_COLUMN_FAMILY_NAME start reverse control_fn env"

definition dt_find_by_prefix_with_expire_val ::
    "('s, 'h) rocks_api \<Rightarrow> ('s, 'h) cf_lookup \<Rightarrow> (bytes \<Rightarrow> (string, 'k) result) \<Rightarrow> 's \<Rightarrow> key \<Rightarrow> bool
     \<Rightarrow> 'c control \<Rightarrow> 'c \<Rightarrow> ((string, ('k \<times> value_with_expiry) list) result \<times> 'c) option" where
  "dt_find_by_prefix_with_expire_val A H dec s start reverse control_fn env = ts_find_by_prefix_with_expire_val A H dec s DEFAULT_COLUMN_FAMILY_NAME start reverse control_fn env"

definition dt_begin_transaction :: "'w txn_life \<Rightarrow> 'w \<Rightarrow> 'w" where
  "dt_begin_transaction L w = begin_transaction L w"

definition dt_execute_transaction ::
    "'w txn_life \<Rightarrow> ('w \<Rightarrow> 'a store_result \<times> 'w) \<Rightarrow> 'w \<Rightarrow> 'a store_result \<times> 'w" where
  "dt_execute_transaction L operation w = execute_transaction L operation w"

definition dt_transaction_context :: "'w txn_life \<Rightarrow> 'w \<Rightarrow> txn_context \<times> 'w" where
  "dt_transaction_context L w = ctx_new L w"

section \<open>Lemmas\<close>

subsection \<open>On the default family the three stores are one\<close>

lemma iterate_default:
  "cfg_cf_name cfg = DEFAULT_COLUMN_FAMILY_NAME \<Longrightarrow> ts_iterate A H s cfg = iterate A s cfg"
  by (simp add: ts_iterate_def iterate_def Let_def general_iterator_factory_def [abs_def]
      prefix_iterator_factory_def [abs_def])

lemma raw_default:
  "ts_get_raw A H s DEFAULT_COLUMN_FAMILY_NAME k = get_raw A s DEFAULT_COLUMN_FAMILY_NAME k"
  "ts_multiget_raw A H s DEFAULT_COLUMN_FAMILY_NAME ks = multiget_raw A s DEFAULT_COLUMN_FAMILY_NAME ks"
  "ts_put_raw A H s DEFAULT_COLUMN_FAMILY_NAME k bs = put_raw A s DEFAULT_COLUMN_FAMILY_NAME k bs"
  "ts_merge_raw A H s DEFAULT_COLUMN_FAMILY_NAME k bs = merge_raw A s DEFAULT_COLUMN_FAMILY_NAME k bs"
  "dt_get_raw A s k = get_raw A s DEFAULT_COLUMN_FAMILY_NAME k"
  "dt_multiget_raw A s ks = multiget_raw A s DEFAULT_COLUMN_FAMILY_NAME ks"
  "dt_put_raw A s k bs = put_raw A s DEFAULT_COLUMN_FAMILY_NAME k bs"
  "dt_merge_raw A s k bs = merge_raw A s DEFAULT_COLUMN_FAMILY_NAME k bs"
  by (simp_all add: ts_get_raw_def get_raw_def ts_multiget_raw_def multiget_raw_def ts_put_raw_def
      put_raw_def ts_merge_raw_def merge_raw_def dt_get_raw_def dt_multiget_raw_def dt_put_raw_def
      dt_merge_raw_def write_on_def)

lemma dp_reads:
  "dp_get A H c s k = ds_get A c s k"
  "dp_get_raw A H s k = ds_get_raw A s k"
  "dp_get_with_expiry A H s k = ds_get_with_expiry A s k"
  "dp_exists A H s k = ds_exists A s k"
  "dp_multiget A H c s ks = ds_multiget A c s ks"
  "dp_multiget_raw A H s ks = ds_multiget_raw A s ks"
  "dp_multiget_with_expiry A H s ks = ds_multiget_with_expiry A s ks"
  by (simp_all add: dp_get_def ds_get_def ts_get_def get_def dp_get_raw_def ds_get_raw_def raw_default
      dp_get_with_expiry_def ds_get_with_expiry_def ts_get_with_expiry_def get_with_expiry_def
      dp_exists_def ds_exists_def ts_exists_def exists_def dp_multiget_def ds_multiget_def
      ts_multiget_def multiget_def dp_multiget_raw_def ds_multiget_raw_def
      dp_multiget_with_expiry_def ds_multiget_with_expiry_def ts_multiget_with_expiry_def
      multiget_with_expiry_def)

lemma dt_reads:
  "dt_get A c s k = ds_get A c s k"
  "dt_get_raw A s k = ds_get_raw A s k"
  "dt_get_with_expiry A s k = ds_get_with_expiry A s k"
  "dt_exists A s k = ds_exists A s k"
  "dt_multiget A c s ks = ds_multiget A c s ks"
  "dt_multiget_raw A s ks = ds_multiget_raw A s ks"
  "dt_multiget_with_expiry A s ks = ds_multiget_with_expiry A s ks"
  by (simp_all add: dt_get_def opt_try_def [abs_def, symmetric] ds_get_def get_def ds_get_raw_def raw_default
      dt_get_with_expiry_def ds_get_with_expiry_def get_with_expiry_def dt_exists_def ds_exists_def exists_def
      dt_multiget_def ds_multiget_def multiget_def ds_multiget_raw_def dt_multiget_with_expiry_def
      ds_multiget_with_expiry_def multiget_with_expiry_def)
     (auto simp: opt_try_def intro!: arg_cong [where f = "and_then x" for x] split: option.split)

lemma dp_writes:
  "dp_put A H c s k v = ds_put A c s k v"
  "dp_put_raw A H s k bs = ds_put_raw A s k bs"
  "dp_put_with_expiry A H c s k v t = ds_put_with_expiry A c s k v t"
  "dp_merge A H cp s k p = ds_merge A cp s k p"
  "dp_merge_raw A H s k bs = ds_merge_raw A s k bs"
  "dp_delete A H s k = ds_delete A s k"
  by (simp_all add: dp_put_def ds_put_def ts_put_def put_def dp_put_raw_def ds_put_raw_def raw_default
      dp_put_with_expiry_def ds_put_with_expiry_def ts_put_with_expiry_def put_with_expiry_def
      dp_merge_def ds_merge_def ts_merge_def merge_def dp_merge_raw_def ds_merge_raw_def
      dp_delete_def ds_delete_def ts_delete_def delete_def)

lemma dt_writes:
  "dt_put A c s k v = ds_put A c s k v"
  "dt_put_raw A s k bs = ds_put_raw A s k bs"
  "dt_put_with_expiry A c s k v t = ds_put_with_expiry A c s k v t"
  "dt_merge A cp s k p = ds_merge A cp s k p"
  "dt_merge_raw A s k bs = ds_merge_raw A s k bs"
  "dt_delete A s k = ds_delete A s k"
  by (simp_all add: dt_put_def ds_put_def put_def ds_put_raw_def raw_default dt_put_with_expiry_def
      ds_put_with_expiry_def put_with_expiry_def dt_merge_def ds_merge_def merge_def ds_merge_raw_def
      dt_delete_def ds_delete_def delete_def write_on_def)

lemma finds_agree:
  "dp_find_by_prefix A H dec c s k dir = ds_find_by_prefix A dec c s k dir"
  "dt_find_by_prefix A H dec c s k dir = ds_find_by_prefix A dec c s k dir"
  "dp_find_from A H dec c s k dir f env = ds_find_from A dec c s k dir f env"
  "dt_find_from A H dec c s k dir f env = ds_find_from A dec c s k dir f env"
  by (simp_all add: dp_find_by_prefix_def dt_find_by_prefix_def ds_find_by_prefix_def dp_find_from_def
      dt_find_from_def ds_find_from_def ts_find_by_prefix_def find_by_prefix_def ts_find_from_def
      find_from_def iterate_default new_deserializing_def)

subsection \<open>The writes of the trait\<close>

datatype ('v, 'p) default_call =
    DPut key 'v
  | DPutRaw key bytes
  | DPutWithExpiry key 'v u64
  | DDelete key
  | DDeleteRange key key
  | DMerge key "'p merge_value"
  | DMergeRaw key bytes
  | DMergeWithExpiry string key 'v u64

datatype store_kind = PlainStore | PessimisticStore | OptimisticStore

text \<open>The call as the three stores run it.\<close>

fun run_default ::
    "store_kind \<Rightarrow> ('s, 'h) rocks_api \<Rightarrow> ('s, 'h) cf_lookup \<Rightarrow> 'v codec \<Rightarrow> 'p merge_value codec \<Rightarrow> 's
     \<Rightarrow> ('v, 'p) default_call \<Rightarrow> unit store_result \<times> 's" where
  "run_default PlainStore A H cv cp s (DPut k v) = ds_put A cv s k v"
| "run_default PlainStore A H cv cp s (DPutRaw k bs) = ds_put_raw A s k bs"
| "run_default PlainStore A H cv cp s (DPutWithExpiry k v t) = ds_put_with_expiry A cv s k v t"
| "run_default PlainStore A H cv cp s (DDelete k) = ds_delete A s k"
| "run_default PlainStore A H cv cp s (DDeleteRange a b) = ds_delete_range A s a b"
| "run_default PlainStore A H cv cp s (DMerge k p) = ds_merge A cp s k p"
| "run_default PlainStore A H cv cp s (DMergeRaw k bs) = ds_merge_raw A s k bs"
| "run_default PlainStore A H cv cp s (DMergeWithExpiry cf k v t) = ds_merge_with_expiry A cv s cf k v t"
| "run_default PessimisticStore A H cv cp s (DPut k v) = dt_put A cv s k v"
| "run_default PessimisticStore A H cv cp s (DPutRaw k bs) = dt_put_raw A s k bs"
| "run_default PessimisticStore A H cv cp s (DPutWithExpiry k v t) = dt_put_with_expiry A cv s k v t"
| "run_default PessimisticStore A H cv cp s (DDelete k) = dt_delete A s k"
| "run_default PessimisticStore A H cv cp s (DDeleteRange a b) = dt_delete_range s a b"
| "run_default PessimisticStore A H cv cp s (DMerge k p) = dt_merge A cp s k p"
| "run_default PessimisticStore A H cv cp s (DMergeRaw k bs) = dt_merge_raw A s k bs"
| "run_default PessimisticStore A H cv cp s (DMergeWithExpiry cf k v t) = dt_merge_with_expiry A H cv s cf k v t"
| "run_default OptimisticStore A H cv cp s (DPut k v) = dp_put A H cv s k v"
| "run_default OptimisticStore A H cv cp s (DPutRaw k bs) = dp_put_raw A H s k bs"
| "run_default OptimisticStore A H cv cp s (DPutWithExpiry k v t) = dp_put_with_expiry A H cv s k v t"
| "run_default OptimisticStore A H cv cp s (DDelete k) = dp_delete A H s k"
| "run_default OptimisticStore A H cv cp s (DDeleteRange a b) = dp_delete_range s a b"
| "run_default OptimisticStore A H cv cp s (DMerge k p) = dp_merge A H cp s k p"
| "run_default OptimisticStore A H cv cp s (DMergeRaw k bs) = dp_merge_raw A H s k bs"
| "run_default OptimisticStore A H cv cp s (DMergeWithExpiry cf k v t) = dp_merge_with_expiry A H cv s cf k v t"

text \<open>What it is meant to do: all but the last on the default family.\<close>

fun on_families :: "('v, 'p) default_call \<Rightarrow> ('v, 'p) write_call" where
  "on_families (DPut k v) = WPut DEFAULT_COLUMN_FAMILY_NAME k v"
| "on_families (DPutRaw k bs) = WPutRaw DEFAULT_COLUMN_FAMILY_NAME k bs"
| "on_families (DPutWithExpiry k v t) = WPutWithExpiry DEFAULT_COLUMN_FAMILY_NAME k v t"
| "on_families (DDelete k) = WDelete DEFAULT_COLUMN_FAMILY_NAME k"
| "on_families (DDeleteRange a b) = WDeleteRange DEFAULT_COLUMN_FAMILY_NAME a b"
| "on_families (DMerge k p) = WMerge DEFAULT_COLUMN_FAMILY_NAME k p"
| "on_families (DMergeRaw k bs) = WMergeRaw DEFAULT_COLUMN_FAMILY_NAME k bs"
| "on_families (DMergeWithExpiry cf k v t) = WMergeWithExpiry cf k v t"

lemma run_plain: "run_default PlainStore A H cv cp s d = run_write A cv cp s (on_families d)"
  by (cases d) (simp_all add: ds_put_def ds_put_raw_def ds_put_with_expiry_def ds_delete_def
      ds_delete_range_def ds_merge_def ds_merge_raw_def ds_merge_with_expiry_def)

lemma run_other:
  assumes "kind \<noteq> PlainStore"
  shows "run_default kind A H cv cp s d =
    (case d of
       DDeleteRange a b \<Rightarrow> ts_delete_range s DEFAULT_COLUMN_FAMILY_NAME a b
     | DMergeWithExpiry cf k v t \<Rightarrow> ts_merge_with_expiry A H cv s cf k v t
     | _ \<Rightarrow> run_default PlainStore A H cv cp s d)"
  using assms
  by (cases kind; cases d)
     (simp_all add: dp_writes dt_writes dp_delete_range_def dt_delete_range_def dp_merge_with_expiry_def
        dt_merge_with_expiry_def)

lemma ts_merge_with_expiry_view:
  assumes "rocks_contract A M" and "lookup_ok M H"
  shows "m_view M (snd (ts_merge_with_expiry A H cv s cf k v t))
    = outcome (m_view M s) (fst (ts_merge_with_expiry A H cv s cf k v t))
        (write_effect M cv cp (m_view M s) (WMergeWithExpiry cf k v t))"
proof (cases "vwe_from_value cv t v")
  case (Inl e)
  then show ?thesis by (simp add: ts_merge_with_expiry_def outcome_def)
next
  case (Inr vwe)
  then have "write_effect M cv cp (m_view M s) (WMergeWithExpiry cf k v t)
      = merged M (m_view M s) cf (as_bytes k) (serialize_for_storage vwe)"
    by (auto simp: vwe_from_value_eq_Inr serialize_for_storage_def with_expiry_def serialize_value_def
        split: sum.splits)
  then show ?thesis
    using ts_merge_raw_view [OF assms, of s cf k "serialize_for_storage vwe"]
    by (simp add: ts_merge_with_expiry_def Inr)
qed

lemma run_default_view:
  assumes "rocks_contract A M" and "lookup_ok M H"
  shows "m_view M (snd (run_default kind A H cv cp s d))
    = outcome (m_view M s) (fst (run_default kind A H cv cp s d))
        (write_effect M cv cp (m_view M s) (on_families d))"
proof (cases "kind = PlainStore")
  case True
  then show ?thesis by (simp add: run_plain run_write_view [OF assms(1)])
next
  case False
  have plain: "m_view M (snd (run_default PlainStore A H cv cp s d))
      = outcome (m_view M s) (fst (run_default PlainStore A H cv cp s d))
          (write_effect M cv cp (m_view M s) (on_families d))"
    unfolding run_plain by (rule run_write_view [OF assms(1)])
  show ?thesis
  proof (cases d)
    case (DDeleteRange a b)
    then show ?thesis by (simp add: run_other [OF False] ts_delete_range_def outcome_def)
  next
    case (DMergeWithExpiry cf k v t)
    then show ?thesis
      using ts_merge_with_expiry_view [OF assms] by (simp add: run_other [OF False])
  qed (use plain in \<open>simp_all only: run_other [OF False] default_call.case\<close>)
qed

section \<open>The contract of the trait\<close>

text \<open>
  What a client of \<open>DefaultCFOperations\<close> relies on: the contract of \<open>CFOperations\<close> with the family
  fixed, and that the other families are left alone.
\<close>

locale default_operations =
  fixes valid :: bool
    and view :: "'s \<Rightarrow> kv_view"
    and fetch :: "'s \<Rightarrow> key \<Rightarrow> bytes option store_result"
    and assign :: "'s \<Rightarrow> key \<Rightarrow> bytes \<Rightarrow> unit store_result \<times> 's"
    and erase :: "'s \<Rightarrow> key \<Rightarrow> unit store_result \<times> 's"
  assumes read_default: "valid \<Longrightarrow> fetch s k = Inr x \<Longrightarrow> x = view s DEFAULT_COLUMN_FAMILY_NAME (as_bytes k)"
    and write_default: "valid \<Longrightarrow> view (snd (assign s k bs))
          = outcome (view s) (fst (assign s k bs))
              (upd (view s) DEFAULT_COLUMN_FAMILY_NAME (as_bytes k) (Some bs))"
    and erase_default: "valid \<Longrightarrow> view (snd (erase s k))
          = outcome (view s) (fst (erase s k)) (upd (view s) DEFAULT_COLUMN_FAMILY_NAME (as_bytes k) None)"
begin

lemma fetch_assigned:
  "valid \<Longrightarrow> assign s k bs = (Inr (), s1) \<Longrightarrow> fetch s1 k = Inr x \<Longrightarrow> x = Some bs"
  using write_default [of s k bs] read_default [of s1 k x] by (simp add: outcome_def)

lemma fetch_erased:
  "valid \<Longrightarrow> erase s k = (Inr (), s1) \<Longrightarrow> fetch s1 k = Inr x \<Longrightarrow> x = None"
  using erase_default [of s k] read_default [of s1 k x] by (simp add: outcome_def)

text \<open>A write, a removal of the same key and a read: whatever was there is gone.\<close>

lemma assign_then_erase:
  assumes "valid" and "assign s k bs = (Inr (), s1)" and "erase s1 k = (Inr (), s2)"
  shows "view s2 = upd (view s) DEFAULT_COLUMN_FAMILY_NAME (as_bytes k) None"
  using write_default [OF assms(1), of s k bs] erase_default [OF assms(1), of s1 k] assms(2,3)
  by (simp add: outcome_def upd_def fun_eq_iff)

end

text \<open>Any store of the trait for named families gives one for the default family.\<close>

sublocale cf_operations \<subseteq> dflt: default_operations valid view
  "\<lambda>s. fetch s DEFAULT_COLUMN_FAMILY_NAME" "\<lambda>s. assign s DEFAULT_COLUMN_FAMILY_NAME"
  "\<lambda>s. erase s DEFAULT_COLUMN_FAMILY_NAME"
  by unfold_locales (simp_all add: read_view write_view remove_view)

interpretation plain: default_operations "rocks_contract A M" "m_view M" "ds_get_raw A" "ds_put_raw A"
    "ds_delete A"
  for A :: "('s, 'h) rocks_api" and M
  unfolding ds_get_raw_def [abs_def] ds_put_raw_def [abs_def] ds_delete_def [abs_def]
  by (rule store.dflt.default_operations_axioms)

interpretation optim: default_operations "rocks_contract A M \<and> lookup_ok M H" "m_view M"
    "dp_get_raw A H" "dp_put_raw A H" "dp_delete A H"
  for A :: "('s, 'h) rocks_api" and M H
  unfolding dp_get_raw_def [abs_def] dp_put_raw_def [abs_def] dp_delete_def [abs_def]
  by (rule txn.dflt.default_operations_axioms)

interpretation pessim: default_operations "rocks_contract A M" "m_view M" "dt_get_raw A" "dt_put_raw A"
    "dt_delete A"
  for A :: "('s, 'h) rocks_api" and M
  unfolding dt_reads [abs_def] dt_writes [abs_def]
  by (rule plain.default_operations_axioms)

section \<open>Properties\<close>

text \<open>
  The three stores for the default family are interchangeable. On the same database every read,
  every search, and every write but \<open>delete_range\<close> and \<open>merge_with_expiry\<close> gives the same result and
  the same state in all three, although one of them bypasses the store that it wraps.
\<close>

theorem default_stores_agree:
  "(dt_get A c s k = ds_get A c s k \<and> dp_get A H c s k = ds_get A c s k)
   \<and> (dt_get_with_expiry A s k = ds_get_with_expiry A s k \<and> dp_get_with_expiry A H s k = ds_get_with_expiry A s k)
   \<and> (dt_exists A s k = ds_exists A s k \<and> dp_exists A H s k = ds_exists A s k)
   \<and> (dt_multiget A c s ks = ds_multiget A c s ks \<and> dp_multiget A H c s ks = ds_multiget A c s ks)
   \<and> (dt_multiget_with_expiry A s ks = ds_multiget_with_expiry A s ks
      \<and> dp_multiget_with_expiry A H s ks = ds_multiget_with_expiry A s ks)
   \<and> (dt_put A c s k v = ds_put A c s k v \<and> dp_put A H c s k v = ds_put A c s k v)
   \<and> (dt_put_with_expiry A c s k v t = ds_put_with_expiry A c s k v t
      \<and> dp_put_with_expiry A H c s k v t = ds_put_with_expiry A c s k v t)
   \<and> (dt_merge A cp s k p = ds_merge A cp s k p \<and> dp_merge A H cp s k p = ds_merge A cp s k p)
   \<and> (dt_delete A s k = ds_delete A s k \<and> dp_delete A H s k = ds_delete A s k)
   \<and> (dt_find_by_prefix A H dec c s k dir = ds_find_by_prefix A dec c s k dir
      \<and> dp_find_by_prefix A H dec c s k dir = ds_find_by_prefix A dec c s k dir)
   \<and> (dt_find_from A H dec c s k dir f env = ds_find_from A dec c s k dir f env
      \<and> dp_find_from A H dec c s k dir f env = ds_find_from A dec c s k dir f env)"
  by (simp only: dt_reads dp_reads dt_writes dp_writes finds_agree simp_thms)

text \<open>
  C5: The writes of the three default stores refine those of the column family store. A write that
  reports success changes the view as the same write on the default family is meant to, and one that
  reports an error changes nothing. The exception is \<open>merge_with_expiry\<close>: it goes to whatever family the
  caller names, so that a store for the default family changes another family.
\<close>

theorem default_writes_refine:
  assumes "rocks_contract A M" and "lookup_ok M H"
  shows "m_view M (snd (run_default kind A H cv cp s d))
      = (case fst (run_default kind A H cv cp s d) of
           Inr _ \<Rightarrow> write_effect M cv cp (m_view M s) (on_families d)
         | Inl _ \<Rightarrow> m_view M s)
    \<and> (\<forall>cf. cf \<noteq> DEFAULT_COLUMN_FAMILY_NAME \<and> (\<forall>k v t. d \<noteq> DMergeWithExpiry cf k v t)
         \<longrightarrow> m_view M (snd (run_default kind A H cv cp s d)) cf = m_view M s cf)"
proof -
  have "write_effect M cv cp w (on_families d) cf = w cf"
    if "cf \<noteq> DEFAULT_COLUMN_FAMILY_NAME" and "\<forall>k v t. d \<noteq> DMergeWithExpiry cf k v t" for cf and w :: kv_view
    using that by (cases d) (auto simp: upd_def merged_def clear_range_def split: sum.split)
  then show ?thesis
    using run_default_view [OF assms, of kind cv cp s d] by (auto simp: outcome_def split: sum.split)
qed

theorem default_writes_refine_witness:
  "m_view mem_meaning (snd (run_default OptimisticStore mem_api (optimistic_get_cf_handle mem_api sample_txn_store)
       raw_codec patch_codec sample_db (DMergeWithExpiry ''users'' (KVec [9]) [7] 1)))
     = merged mem_meaning (mem_view sample_db) ''users'' [9] (with_expiry 1 [7])"
proof -
  let ?H = "optimistic_get_cf_handle mem_api sample_txn_store"
  have ok: "fst (run_default OptimisticStore mem_api ?H raw_codec patch_codec sample_db
      (DMergeWithExpiry ''users'' (KVec [9]) [7] 1)) = Inr ()"
    by (simp add: dp_merge_with_expiry_def ts_merge_with_expiry_def vwe_from_value_def ts_merge_raw_def
        target_by_def optimistic_get_cf_handle_def sample_txn_store_def mem_eval)
  show ?thesis
    using default_writes_refine [OF rocks_contract_mem lookup_ok_optimistic [OF rocks_contract_mem],
        of OptimisticStore sample_txn_store raw_codec patch_codec sample_db
           "DMergeWithExpiry ''users'' (KVec [9]) [7] 1", THEN conjunct1, unfolded ok]
    by (simp add: raw_codec_def del: run_default.simps)
qed

end
