(* ===== verification/Dao.thy ===== *)
theory Dao
  imports Default_Stores "HOL-Library.Sublist"
begin

text \<open>
  \<open>src/macros.rs\<close>: the macros that generate the bodies of data access functions. A macro expands to a
  method call on whatever store it is given, so its model takes that method; keys are passed by
  reference. A macro for a named family is the macro for the default one over the method with the name
  filled in, but is a definition of its own, as in the source.

  Three macros are left out because they expand to calls that the crate does not have:
  \<open>generate_dao_put_in_txn\<close> and \<open>generate_dao_put_with_expiry_in_txn\<close> (the module \<open>tx\<close> has no such functions)
  and \<open>generate_dao_remove\<close> (the stores have \<open>delete\<close>, not \<open>remove\<close>).
\<close>

section \<open>One record\<close>

definition dao_get :: "(key \<Rightarrow> 'r) \<Rightarrow> key \<Rightarrow> 'r" where
  "dao_get store_get key = store_get (KRef key)"

definition dao_put :: "(key \<Rightarrow> 'v \<Rightarrow> 'r) \<Rightarrow> key \<Rightarrow> 'v \<Rightarrow> 'r" where
  "dao_put store_put key record = store_put (KRef key) record"

definition dao_get_with_expiry :: "(key \<Rightarrow> 'r) \<Rightarrow> key \<Rightarrow> 'r" where
  "dao_get_with_expiry store_get_with_expiry key = store_get_with_expiry (KRef key)"

definition dao_put_with_expiry :: "(key \<Rightarrow> 'v \<Rightarrow> u64 \<Rightarrow> 'r) \<Rightarrow> key \<Rightarrow> 'v \<Rightarrow> u64 \<Rightarrow> 'r" where
  "dao_put_with_expiry store_put_with_expiry key record t = store_put_with_expiry (KRef key) record t"

definition dao_merge :: "(key \<Rightarrow> 'p merge_value \<Rightarrow> 'r) \<Rightarrow> key \<Rightarrow> 'p merge_value \<Rightarrow> 'r" where
  "dao_merge store_merge key merge_value = store_merge (KRef key) merge_value"

definition dao_merge_in_txn ::
    "('w, 'h) rocks_api \<Rightarrow> 'p merge_value codec \<Rightarrow> 'w \<Rightarrow> key \<Rightarrow> 'p merge_value \<Rightarrow> unit store_result \<times> 'w" where
  "dao_merge_in_txn A c txn key merge_value = tx_merge_in_txn A c txn (KRef key) merge_value"

definition dao_remove_in_txn :: "('w, 'h) rocks_api \<Rightarrow> 'w \<Rightarrow> key \<Rightarrow> unit store_result \<times> 'w" where
  "dao_remove_in_txn A txn key = tx_remove_in_txn A txn (KRef key)"

definition dao_get_cf :: "(string \<Rightarrow> key \<Rightarrow> 'r) \<Rightarrow> string \<Rightarrow> key \<Rightarrow> 'r" where
  "dao_get_cf store_get cf_name key = store_get cf_name (KRef key)"

definition dao_put_cf :: "(string \<Rightarrow> key \<Rightarrow> 'v \<Rightarrow> 'r) \<Rightarrow> string \<Rightarrow> key \<Rightarrow> 'v \<Rightarrow> 'r" where
  "dao_put_cf store_put cf_name key record = store_put cf_name (KRef key) record"

definition dao_get_with_expiry_cf :: "(string \<Rightarrow> key \<Rightarrow> 'r) \<Rightarrow> string \<Rightarrow> key \<Rightarrow> 'r" where
  "dao_get_with_expiry_cf store_get_with_expiry cf_name key = store_get_with_expiry cf_name (KRef key)"

definition dao_put_with_expiry_cf ::
    "(string \<Rightarrow> key \<Rightarrow> 'v \<Rightarrow> u64 \<Rightarrow> 'r) \<Rightarrow> string \<Rightarrow> key \<Rightarrow> 'v \<Rightarrow> u64 \<Rightarrow> 'r" where
  "dao_put_with_expiry_cf store_put_with_expiry cf_name key record t =
     store_put_with_expiry cf_name (KRef key) record t"

definition dao_merge_cf ::
    "(string \<Rightarrow> key \<Rightarrow> 'p merge_value \<Rightarrow> 'r) \<Rightarrow> string \<Rightarrow> key \<Rightarrow> 'p merge_value \<Rightarrow> 'r" where
  "dao_merge_cf store_merge cf_name key merge_value = store_merge cf_name (KRef key) merge_value"

definition dao_remove_cf :: "(string \<Rightarrow> key \<Rightarrow> 'r) \<Rightarrow> string \<Rightarrow> key \<Rightarrow> 'r" where
  "dao_remove_cf store_delete cf_name key = store_delete cf_name (KRef key)"

definition dao_exists_cf :: "(string \<Rightarrow> key \<Rightarrow> 'r) \<Rightarrow> string \<Rightarrow> key \<Rightarrow> 'r" where
  "dao_exists_cf store_exists cf_name key = store_exists cf_name (KRef key)"

section \<open>Several records\<close>

text \<open>The pairs of a key and its value, without the keys that have none, and with them.\<close>

definition kv_pairs :: "key list \<Rightarrow> 'v option list \<Rightarrow> (key \<times> 'v) list" where
  "kv_pairs keys results = List.map_filter (\<lambda>(k, opt_v). map_option (\<lambda>v. (k, v)) opt_v) (zip keys results)"

definition kv_pairs_with_options :: "key list \<Rightarrow> 'v option list \<Rightarrow> (key \<times> 'v) option list" where
  "kv_pairs_with_options keys results = map (\<lambda>(k, opt_v). map_option (\<lambda>v. (k, v)) opt_v) (zip keys results)"

definition dao_multiget ::
    "(key list \<Rightarrow> 'v option list store_result) \<Rightarrow> 'i list \<Rightarrow> ('i \<Rightarrow> key) \<Rightarrow> (key \<times> 'v) list store_result" where
  "dao_multiget store_multiget ids id_mapper =
     (let keys = map id_mapper ids
      in and_then (store_multiget keys) (\<lambda>results. Inr (kv_pairs keys results)))"

definition dao_multiget_preserve_order ::
    "(key list \<Rightarrow> 'v option list store_result) \<Rightarrow> 'i list \<Rightarrow> ('i \<Rightarrow> key)
     \<Rightarrow> (key \<times> 'v) option list store_result" where
  "dao_multiget_preserve_order store_multiget ids id_mapper =
     (let keys = map id_mapper ids
      in and_then (store_multiget keys) (\<lambda>results. Inr (kv_pairs_with_options keys results)))"

definition dao_multiget_with_expiry ::
    "(key list \<Rightarrow> value_with_expiry option list store_result) \<Rightarrow> 'i list \<Rightarrow> ('i \<Rightarrow> key)
     \<Rightarrow> (key \<times> value_with_expiry) list store_result" where
  "dao_multiget_with_expiry store_multiget_with_expiry ids id_mapper =
     (let keys = map id_mapper ids
      in and_then (store_multiget_with_expiry keys) (\<lambda>results. Inr (kv_pairs keys results)))"

definition dao_multiget_cf ::
    "(string \<Rightarrow> key list \<Rightarrow> 'v option list store_result) \<Rightarrow> string \<Rightarrow> 'i list \<Rightarrow> ('i \<Rightarrow> key)
     \<Rightarrow> (key \<times> 'v) list store_result" where
  "dao_multiget_cf store_multiget cf_name ids id_mapper =
     (let keys = map id_mapper ids
      in and_then (store_multiget cf_name keys) (\<lambda>results. Inr (kv_pairs keys results)))"

definition dao_multiget_preserve_order_cf ::
    "(string \<Rightarrow> key list \<Rightarrow> 'v option list store_result) \<Rightarrow> string \<Rightarrow> 'i list \<Rightarrow> ('i \<Rightarrow> key)
     \<Rightarrow> (key \<times> 'v) option list store_result" where
  "dao_multiget_preserve_order_cf store_multiget cf_name ids id_mapper =
     (let keys = map id_mapper ids
      in and_then (store_multiget cf_name keys) (\<lambda>results. Inr (kv_pairs_with_options keys results)))"

definition dao_multiget_with_expiry_cf ::
    "(string \<Rightarrow> key list \<Rightarrow> value_with_expiry option list store_result) \<Rightarrow> string \<Rightarrow> 'i list \<Rightarrow> ('i \<Rightarrow> key)
     \<Rightarrow> (key \<times> value_with_expiry) list store_result" where
  "dao_multiget_with_expiry_cf store_multiget_with_expiry cf_name ids id_mapper =
     (let keys = map id_mapper ids
      in and_then (store_multiget_with_expiry cf_name keys) (\<lambda>results. Inr (kv_pairs keys results)))"

section \<open>The contract of a multi-key read\<close>

text \<open>
  A read of several keys answers each of them, in their order; an answer that is there is true. (An
  answer that is missing says less: \<open>multiget\<close> also gives it where the database reports an error.)
\<close>

locale multi_reads =
  fixes valid :: bool
    and holds :: "key \<Rightarrow> 'v \<Rightarrow> bool"
    and multi :: "key list \<Rightarrow> 'v option list store_result"
  assumes answers: "valid \<Longrightarrow> multi ks = Inr xs \<Longrightarrow> list_all2 (\<lambda>k x. \<forall>v. x = Some v \<longrightarrow> holds k v) ks xs"
begin

lemma pairs_true:
  assumes "list_all2 (\<lambda>k x. \<forall>v. x = Some v \<longrightarrow> holds k v) ks xs"
  shows "subseq (map fst (kv_pairs ks xs)) ks \<and> (\<forall>(k, v) \<in> set (kv_pairs ks xs). holds k v)"
  using assms
  by (induction rule: list_all2_induct)
     (auto simp: kv_pairs_def map_filter_simps split: option.split)

lemma records_true:
  "valid \<Longrightarrow> dao_multiget multi ids f = Inr pairs \<Longrightarrow>
     subseq (map fst pairs) (map f ids) \<and> (\<forall>(k, v) \<in> set pairs. holds k v)"
  using pairs_true [OF answers] by (fastforce simp: dao_multiget_def Let_def and_then_eq_Inr)

lemma records_in_place:
  assumes "valid" and "dao_multiget_preserve_order multi ids f = Inr opts"
  shows "length opts = length ids"
    and "i < length ids \<Longrightarrow> opts ! i = Some (k, v) \<Longrightarrow> k = f (ids ! i) \<and> holds k v"
proof -
  obtain xs where xs: "multi (map f ids) = Inr xs" and opts: "opts = kv_pairs_with_options (map f ids) xs"
    using assms(2) by (auto simp: dao_multiget_preserve_order_def Let_def and_then_eq_Inr)
  note a = answers [OF assms(1) xs]
  have len: "length xs = length ids" using list_all2_lengthD [OF a] by simp
  then show "length opts = length ids" by (simp add: opts kv_pairs_with_options_def)
  show "i < length ids \<Longrightarrow> opts ! i = Some (k, v) \<Longrightarrow> k = f (ids ! i) \<and> holds k v"
    using list_all2_nthD [OF a, of i] len by (auto simp: opts kv_pairs_with_options_def)
qed

end

text \<open>Dropping the empty places of the one variant gives the other.\<close>

lemma pairs_of_options: "List.map_filter id (kv_pairs_with_options ks xs) = kv_pairs ks xs"
  by (induction ks xs rule: list_induct2')
     (auto simp: kv_pairs_def kv_pairs_with_options_def map_filter_simps split: option.split)

subsection \<open>The stores\<close>

text \<open>What the family \<open>cf\<close> has at a key.\<close>

definition stored ::
    "('s, 'h) rocks_meaning \<Rightarrow> 'v codec \<Rightarrow> 's \<Rightarrow> string \<Rightarrow> key \<Rightarrow> 'v \<Rightarrow> bool" where
  "stored M c s cf k v \<longleftrightarrow>
     (\<exists>bs. m_view M s cf (as_bytes k) = Some bs \<and> deserialize_value c bs = Inr v)"

lemma multiget_answers:
  assumes "rocks_contract A M" and "multiget A c s cf ks = Inr xs"
  shows "list_all2 (\<lambda>k x. \<forall>v. x = Some v \<longrightarrow> stored M c s cf k v) ks xs"
proof (cases "ks = []")
  case True
  with assms(2) show ?thesis by (simp add: multiget_def)
next
  case False
  let ?f = "\<lambda>r. case r of Inl _ \<Rightarrow> Inr None | Inr opt \<Rightarrow> opt_try (deserialize_value c) opt"
  obtain t where t: "target_of A s cf = Inr t"
    and col: "collect_ok (map ?f (api_multi_get A s t (map as_bytes ks))) = Inr xs"
    using assms(2) False by (auto simp: multiget_def and_then_eq_Inr)
  have name: "target_name M t = cf" by (rule target_of_name [OF assms(1) t])
  have one: "\<forall>v. x = Some v \<longrightarrow> stored M c s cf k v"
    if "\<forall>y. r = Inr y \<longrightarrow> y = m_view M s cf (as_bytes k)" and "?f r = Inr x" for k r x
    using that by (cases r) (auto simp: stored_def opt_try_def split: option.splits)
  have "list_all2 (\<lambda>k r. \<forall>y. r = Inr y \<longrightarrow> y = m_view M s cf (as_bytes k)) ks
      (api_multi_get A s t (map as_bytes ks))"
    using contract_multi_get [OF assms(1), where t = t and ks = "map as_bytes ks" and s = s]
    by (simp add: name list_all2_map1)
  moreover have "list_all2 (\<lambda>r x. ?f r = Inr x) (api_multi_get A s t (map as_bytes ks)) xs"
    using col by (simp add: collect_ok_Inr_iff list_all2_eq list_all2_map1 list_all2_map2)
  ultimately show ?thesis
    by (rule list_all2_trans [rotated]) (use one in blast)
qed

interpretation cf_multi: multi_reads "rocks_contract A M" "stored M c s cf" "multiget A c s cf"
  for A :: "('s, 'h) rocks_api" and M and c :: "'v codec" and s cf
  by unfold_locales (rule multiget_answers)

interpretation plain_multi: multi_reads "rocks_contract A M" "stored M c s DEFAULT_COLUMN_FAMILY_NAME"
    "ds_multiget A c s"
  for A :: "('s, 'h) rocks_api" and M and c :: "'v codec" and s
  unfolding ds_multiget_def [abs_def] by (rule cf_multi.multi_reads_axioms)

text \<open>With expiry the answers are the containers, and a missing answer says that there is none.\<close>

definition stored_with_expiry ::
    "('s, 'h) rocks_meaning \<Rightarrow> 's \<Rightarrow> string \<Rightarrow> key \<Rightarrow> value_with_expiry \<Rightarrow> bool" where
  "stored_with_expiry M s cf k vwe \<longleftrightarrow>
     (\<exists>bs. m_view M s cf (as_bytes k) = Some bs \<and> vwe_from_slice bs = Inr vwe)"

lemma multiget_with_expiry_answers:
  assumes "rocks_contract A M" and "multiget_with_expiry A s cf ks = Inr xs"
  shows "list_all2 (\<lambda>k x. \<forall>v. x = Some v \<longrightarrow> stored_with_expiry M s cf k v) ks xs"
proof -
  obtain raws where raw: "multiget_raw A s cf ks = Inr raws"
    and col: "collect_ok (map (opt_try vwe_from_slice) raws) = Inr xs"
    using assms(2) by (auto simp: multiget_with_expiry_def and_then_eq_Inr)
  have raws: "raws = map (\<lambda>k. m_view M s cf (as_bytes k)) ks"
    by (rule multiget_raw_view [OF assms(1) raw])
  have "map (\<lambda>k. opt_try vwe_from_slice (m_view M s cf (as_bytes k))) ks = map Inr xs"
    using col by (simp add: collect_ok_Inr_iff raws comp_def)
  then show ?thesis
  proof (induction ks arbitrary: xs)
    case (Cons k ks)
    then show ?case
      by (cases xs) (auto simp: stored_with_expiry_def opt_try_def split: option.splits)
  qed simp
qed

interpretation expiry_multi: multi_reads "rocks_contract A M" "stored_with_expiry M s cf"
    "multiget_with_expiry A s cf"
  for A :: "('s, 'h) rocks_api" and M s cf
  by unfold_locales (rule multiget_with_expiry_answers)

section \<open>Properties\<close>

text \<open>
  C32: The records that a data access function returns. For each of the three default stores the pairs
  that \<open>generate_dao_multiget\<close> returns are those of some of the requested keys, in the order of the
  request, each with the decoded value that the default family has for it. The variant that preserves
  the order has one place for each id, and its pairs are the same.
\<close>

theorem dao_multiget_correct:
  assumes "rocks_contract A M" and "multi \<in> {ds_multiget A c s, dt_multiget A c s, dp_multiget A H c s}"
    and "dao_multiget multi ids f = Inr pairs"
  shows "subseq (map fst pairs) (map f ids)
    \<and> (\<forall>(k, v) \<in> set pairs. \<exists>bs. m_view M s DEFAULT_COLUMN_FAMILY_NAME (as_bytes k) = Some bs
         \<and> deserialize_value c bs = Inr v)
    \<and> (\<exists>opts. dao_multiget_preserve_order multi ids f = Inr opts \<and> length opts = length ids
         \<and> List.map_filter id opts = pairs)"
proof -
  have multi: "multi = ds_multiget A c s"
    using assms(2) by (auto simp: dt_reads [abs_def] dp_reads [abs_def])
  note run = assms(3) [unfolded multi]
  obtain xs where xs: "ds_multiget A c s (map f ids) = Inr xs" and pairs: "pairs = kv_pairs (map f ids) xs"
    using run by (auto simp: dao_multiget_def Let_def and_then_eq_Inr)
  then have opts: "dao_multiget_preserve_order multi ids f = Inr (kv_pairs_with_options (map f ids) xs)"
    by (simp add: dao_multiget_preserve_order_def Let_def multi)
  show ?thesis
    using plain_multi.records_true [OF assms(1) run]
      plain_multi.records_in_place(1) [OF assms(1) opts [unfolded multi]] opts
    by (simp add: stored_def pairs pairs_of_options)
qed

theorem dao_multiget_correct_witness:
  "\<exists>pairs. dao_multiget (dt_multiget mem_api raw_codec sample_db) [1, 2, 3] (\<lambda>n. KVec [n]) = Inr pairs
     \<and> subseq (map fst pairs) [KVec [1], KVec [2], KVec [3]]"
proof -
  obtain pairs where run: "dao_multiget (dt_multiget mem_api raw_codec sample_db) [1, 2, 3] (\<lambda>n. KVec [n])
      = Inr pairs"
    by (simp add: dao_multiget_def dt_multiget_def mem_eval)
  show ?thesis
    using dao_multiget_correct [OF rocks_contract_mem _ run, of raw_codec sample_db] run by auto
qed

end
