(* ===== verification/Example_Programs.thy ===== *)
theory Example_Programs
  imports Program_Logic Dao
begin

text \<open>
  The programs \<open>examples/batching.rs\<close>, \<open>examples/basic_usage.rs\<close>, \<open>examples/value_expiry_example.rs\<close>,
  \<open>examples/macros_cf_usage.rs\<close> and \<open>examples/cf_store_operations.rs\<close>, each from the point where its store is open on an empty
  database. Console output is left out. The MessagePack codecs of the types that are stored are
  parameters.
\<close>

section \<open>batching.rs\<close>

record product =
  product_id :: "32 word"
  product_name :: string

definition PRODUCTS_CF :: string where "PRODUCTS_CF = ''products_cf_for_batching''"
definition METADATA_CF :: string where "METADATA_CF = ''metadata_cf_for_batching''"

text \<open>The two batches and what is read after them.\<close>

definition batching_separate ::
    "('s, 'h) rocks_api \<Rightarrow> product codec \<Rightarrow> 's \<Rightarrow> ('s \<Rightarrow> 's main) \<Rightarrow> 's main" where
  "batching_separate A pc s next_part =
     (let products_writer = store_batch_writer PRODUCTS_CF;
          product1 = \<lparr>product_id = 1, product_name = ''Gadget''\<rparr>;
          product2 = \<lparr>product_id = 2, product_name = ''Thingamajig''\<rparr> in
      try_local s (bw_set A pc s products_writer (KStr ''product:1'') product1) (\<lambda>products_writer.
      try_local s (bw_set A pc s products_writer (KStr ''product:2'') product2) (\<lambda>products_writer.
      try_local s (bw_delete A s products_writer (KStr ''product:old'')) (\<lambda>products_writer.
      try_commit (bw_commit A s products_writer) (\<lambda>s.
     (let metadata_writer = store_batch_writer METADATA_CF in
      try_local s (bw_set_raw A s metadata_writer (KStr ''version'') (str_bytes ''2.0'')) (\<lambda>metadata_writer.
      try_local s (bw_set_raw A s metadata_writer (KStr ''status'') (str_bytes ''ready'')) (\<lambda>metadata_writer.
      try_commit (bw_commit A s metadata_writer) (\<lambda>s.
      try_read s (get A pc s PRODUCTS_CF (KStr ''product:1'')) (\<lambda>p1.
      try_read s (get A pc s PRODUCTS_CF (KStr ''product:2'')) (\<lambda>p2.
      try_read s (get A pc s PRODUCTS_CF (KStr ''product:old'')) (\<lambda>p_old.
      try_read s (get_raw A s METADATA_CF (KStr ''version'')) (\<lambda>version.
      try_read s (get_raw A s METADATA_CF (KStr ''status'')) (\<lambda>status.
      assert_that s (p1 = Some product1) (
      assert_that s (p2 = Some product2) (
      assert_that s (p_old = None) (
      assert_that s (version = Some (str_bytes ''2.0'')) (
      assert_that s (status = Some (str_bytes ''ready'')) (
      next_part s)))))))))))))))))))"

text \<open>The batch that is discarded.\<close>

definition batching_discard ::
    "('s, 'h) rocks_api \<Rightarrow> product codec \<Rightarrow> 's \<Rightarrow> ('s \<Rightarrow> 's main) \<Rightarrow> 's main" where
  "batching_discard A pc s next_part =
     (let discard_writer = store_batch_writer PRODUCTS_CF in
      try_local s (bw_set A pc s discard_writer (KStr ''product:3'') \<lparr>product_id = 3, product_name = ''Wonkavator''\<rparr>)
       (\<lambda>discard_writer.
      let discarded = bw_discard discard_writer in
      try_read s (get A pc s PRODUCTS_CF (KStr ''product:3'')) (\<lambda>p3.
      assert_that s (p3 = None) (
      next_part s))))"

text \<open>The batch that is also filled through \<open>raw_batch_mut\<close>.\<close>

definition batching_raw ::
    "('s, 'h) rocks_api \<Rightarrow> product codec \<Rightarrow> 's \<Rightarrow> ('s \<Rightarrow> 's main) \<Rightarrow> 's main" where
  "batching_raw A pc s next_part =
     (let raw_example_writer = store_batch_writer PRODUCTS_CF;
          product4 = \<lparr>product_id = 4, product_name = ''Doohickey''\<rparr> in
      try_local s (bw_set A pc s raw_example_writer (KStr ''product:4'') product4) (\<lambda>raw_example_writer.
      try_read s (get_cf_handle A s PRODUCTS_CF) (\<lambda>products_cf_handle.
      try_read s (serialize_key (KStr ''raw:example_in_products_cf'')) (\<lambda>key_bytes_raw_named.
      try_local s (raw_batch_mut raw_example_writer (\<lambda>raw_batch. raw_batch @
          [BPut (Cf products_cf_handle) key_bytes_raw_named (str_bytes ''raw_payload_for_products_cf'')]))
       (\<lambda>raw_example_writer.
      try_commit (bw_commit A s raw_example_writer) (\<lambda>s.
      try_read s (get A pc s PRODUCTS_CF (KStr ''product:4'')) (\<lambda>p4.
      try_read s (get_raw A s PRODUCTS_CF (KStr ''raw:example_in_products_cf'')) (\<lambda>raw_ex_named.
      assert_that s (p4 = Some product4) (
      assert_that s (raw_ex_named = Some (str_bytes ''raw_payload_for_products_cf'')) (
      next_part s))))))))))"

text \<open>The one batch over three column families.\<close>

definition batching_atomic ::
    "('s, 'h) rocks_api \<Rightarrow> product codec \<Rightarrow> string codec \<Rightarrow> 's \<Rightarrow> 's main" where
  "batching_atomic A pc sc s =
     (let multi_cf_atomic_writer = store_batch_writer DEFAULT_COLUMN_FAMILY_NAME;
          product5 = \<lparr>product_id = 5, product_name = ''MultiGadget''\<rparr> in
      try_local s (bw_set A sc s multi_cf_atomic_writer (KStr ''default_key_in_multi_batch'') ''default_value'')
       (\<lambda>multi_cf_atomic_writer.
      try_read s (get_cf_handle A s PRODUCTS_CF) (\<lambda>products_cf_handle.
      try_read s (serialize_key (KStr ''product:5'')) (\<lambda>p5_key_bytes.
      try_read s (serialize_value pc product5) (\<lambda>p5_val_bytes.
      try_local s (raw_batch_mut multi_cf_atomic_writer (\<lambda>raw_batch. raw_batch @
          [BPut (Cf products_cf_handle) p5_key_bytes p5_val_bytes])) (\<lambda>multi_cf_atomic_writer.
      try_read s (get_cf_handle A s METADATA_CF) (\<lambda>metadata_cf_handle.
      try_read s (serialize_key (KStr ''multi_batch_flag'')) (\<lambda>meta_key_bytes.
      try_local s (raw_batch_mut multi_cf_atomic_writer (\<lambda>raw_batch. raw_batch @
          [BPut (Cf metadata_cf_handle) meta_key_bytes (str_bytes ''true'')])) (\<lambda>multi_cf_atomic_writer.
      try_commit (bw_commit A s multi_cf_atomic_writer) (\<lambda>s.
      try_read s (get A sc s DEFAULT_COLUMN_FAMILY_NAME (KStr ''default_key_in_multi_batch'')) (\<lambda>default_val_check.
      try_read s (get A pc s PRODUCTS_CF (KStr ''product:5'')) (\<lambda>p5_check.
      try_read s (get_raw A s METADATA_CF (KStr ''multi_batch_flag'')) (\<lambda>meta_flag_check.
      assert_that s (default_val_check = Some ''default_value'') (
      assert_that s (p5_check = Some product5) (
      assert_that s (meta_flag_check = Some (str_bytes ''true'')) (
      done_with s))))))))))))))))"

definition batching_main :: "('s, 'h) rocks_api \<Rightarrow> product codec \<Rightarrow> string codec \<Rightarrow> 's \<Rightarrow> 's main" where
  "batching_main A pc sc s =
     batching_separate A pc s (\<lambda>s. batching_discard A pc s (\<lambda>s. batching_raw A pc s (batching_atomic A pc sc)))"

section \<open>value_expiry_example.rs\<close>

record cached_object =
  obj_id :: u64
  obj_data :: string
  obj_created_at :: u64

definition CACHE_CF :: string where "CACHE_CF = ''object_cache_cf''"

text \<open>
  The clock is read at each call of \<open>current_time_secs\<close>: \<open>now i\<close> is what the \<open>i\<close>-th call that matters
  returns. The additions panic on overflow (in a debug build), which 64 bits of seconds exclude.
\<close>

definition value_expiry_main ::
    "('s, 'h) rocks_api \<Rightarrow> cached_object codec \<Rightarrow> (nat \<Rightarrow> u64) \<Rightarrow> 's \<Rightarrow> 's main" where
  "value_expiry_main A c now s =
     (let obj1 = \<lparr>obj_id = 101, obj_data = ''This object will expire soon.'', obj_created_at = now 0\<rparr>;
          obj1_key = KString ''cache:101'';
          obj1_expiry_time = now 1 + 2 in
      try_write (put_with_expiry A c s CACHE_CF (KRef obj1_key) obj1 obj1_expiry_time) (\<lambda>s.
     (let obj2 = \<lparr>obj_id = 102, obj_data = ''This object has a longer life.'', obj_created_at = now 2\<rparr>;
          obj2_key = KString ''cache:102'';
          obj2_expiry_time = now 3 + 10 in
      try_write (put_with_expiry A c s CACHE_CF (KRef obj2_key) obj2 obj2_expiry_time) (\<lambda>s.
      try_read s (get_with_expiry A s CACHE_CF (KRef obj1_key)) (\<lambda>retrieved1_now.
      (\<lambda>continue. case retrieved1_now of
         Some vwe \<Rightarrow>
           assert_that s (expire_time vwe = obj1_expiry_time) (
           assert_that s (now 4 < expire_time vwe) (
           try_read s (vwe_get c vwe) (\<lambda>_. continue)))
       | None \<Rightarrow> (Panicked, s))
      (try_read s (get_with_expiry A s CACHE_CF (KRef obj1_key)) (\<lambda>retrieved1_after_expiry.
      (\<lambda>continue. case retrieved1_after_expiry of
         Some vwe \<Rightarrow>
           assert_that s (expire_time vwe = obj1_expiry_time) (
           (\<lambda>continue. if now 5 < expire_time vwe then try_read s (vwe_get c vwe) (\<lambda>_. continue) else continue)
           (assert_that s (expire_time vwe \<le> now 6) continue))
       | None \<Rightarrow> continue)
      (try_read s (get_with_expiry A s CACHE_CF (KRef obj2_key)) (\<lambda>retrieved2_after_3s.
      case retrieved2_after_3s of
         Some vwe \<Rightarrow>
           assert_that s (expire_time vwe = obj2_expiry_time) (
           assert_that s (now 7 < expire_time vwe) (
           try_read s (vwe_get c vwe) (\<lambda>_. done_with s)))
       | None \<Rightarrow> (Panicked, s))))))))))"

section \<open>basic_usage.rs\<close>

record item =
  sku :: string
  item_name :: string
  quantity :: "32 word"

definition basic_usage_main :: "('s, 'h) rocks_api \<Rightarrow> item codec \<Rightarrow> 's \<Rightarrow> 's main" where
  "basic_usage_main A c s =
     (let item1 = \<lparr>sku = ''WDGT-001'', item_name = ''Widget'', quantity = 100\<rparr>;
          item1_key = KString (''item:'' @ sku item1) in
      try_write (ds_put A c s (KRef item1_key) item1) (\<lambda>s.
      try_read s (ds_get A c s (KRef item1_key)) (\<lambda>retrieved_item.
      assert_that s (retrieved_item = Some item1) (
      try_read s (ds_get A c s (KRef (KStr ''item:NONEXISTENT''))) (\<lambda>missing_item.
      assert_that s (missing_item = None) (
      try_read s (ds_exists A s (KRef item1_key)) (\<lambda>exists1.
      try_read s (ds_exists A s (KRef (KStr ''item:NONEXISTENT''))) (\<lambda>exists_missing.
      assert_that s exists1 (
      assert_that s (\<not> exists_missing) (
     (let updated_item1 = item1\<lparr>quantity := 90\<rparr> in
      try_write (ds_put A c s (KRef item1_key) updated_item1) (\<lambda>s.
      try_read s (ds_get A c s (KRef item1_key)) (\<lambda>retrieved_updated.
      assert_that s (retrieved_updated = Some updated_item1) (
      try_write (ds_delete A s (KRef item1_key)) (\<lambda>s.
      try_read s (ds_get A c s (KRef item1_key)) (\<lambda>retrieved_deleted.
      assert_that s (retrieved_deleted = None) (
      try_write (ds_put_raw A s (KRef (KStr ''config:feature_x'')) (str_bytes ''enabled'')) (\<lambda>s.
      try_read s (ds_get_raw A s (KRef (KStr ''config:feature_x''))) (\<lambda>raw_val.
      assert_that s (raw_val = Some (str_bytes ''enabled'')) (
     (let batch = ds_batch_writer;
          item_batch = \<lparr>sku = ''BCH-001'', item_name = ''Batch Item'', quantity = 5\<rparr>;
          item_batch_key = KString (''item:'' @ sku item_batch) in
      try_local s (bw_set A c s batch (KRef item_batch_key) item_batch) (\<lambda>batch.
      try_commit (bw_commit A s batch) (\<lambda>s.
      try_read s (ds_get A c s (KRef item_batch_key)) (\<lambda>retrieved_batch_item.
      assert_that s (retrieved_batch_item = Some item_batch) (
      done_with s)))))))))))))))))))))))))"

section \<open>macros_cf_usage.rs\<close>

record config_item =
  ci_key :: string
  ci_value :: string
  ci_is_enabled :: bool

definition APP_CONFIG_CF :: string where "APP_CONFIG_CF = ''app_config_cf''"

definition set_config_item ::
    "('s, 'h) rocks_api \<Rightarrow> config_item codec \<Rightarrow> 's \<Rightarrow> string \<Rightarrow> config_item \<Rightarrow> unit store_result \<times> 's" where
  "set_config_item A c s cf_name cfg_item = dao_put_cf (put A c s) cf_name (KRef (KString (ci_key cfg_item))) cfg_item"

definition get_config_item ::
    "('s, 'h) rocks_api \<Rightarrow> config_item codec \<Rightarrow> 's \<Rightarrow> string \<Rightarrow> string \<Rightarrow> config_item option store_result" where
  "get_config_item A c s cf_name item_key = dao_get_cf (get A c s) cf_name (KStr item_key)"

definition config_item_exists :: "('s, 'h) rocks_api \<Rightarrow> 's \<Rightarrow> string \<Rightarrow> string \<Rightarrow> bool store_result" where
  "config_item_exists A s cf_name item_key = dao_exists_cf (exists A s) cf_name (KStr item_key)"

definition remove_config_item :: "('s, 'h) rocks_api \<Rightarrow> 's \<Rightarrow> string \<Rightarrow> string \<Rightarrow> unit store_result \<times> 's" where
  "remove_config_item A s cf_name item_key = dao_remove_cf (delete A s) cf_name (KStr item_key)"

definition macros_cf_main :: "('s, 'h) rocks_api \<Rightarrow> config_item codec \<Rightarrow> 's \<Rightarrow> 's main" where
  "macros_cf_main A c s =
     (let item1 = \<lparr>ci_key = ''feature_toggle_x'', ci_value = ''enabled_globally'', ci_is_enabled = True\<rparr>;
          item2 = \<lparr>ci_key = ''api_endpoint_url'', ci_value = ''https://api.example.com/v2'', ci_is_enabled = True\<rparr> in
      try_write (set_config_item A c s APP_CONFIG_CF item1) (\<lambda>s.
      try_write (set_config_item A c s APP_CONFIG_CF item2) (\<lambda>s.
      try_read s (get_config_item A c s APP_CONFIG_CF (ci_key item1)) (\<lambda>retrieved_item1.
      assert_that s (retrieved_item1 = Some item1) (
      try_read s (config_item_exists A s APP_CONFIG_CF (ci_key item2)) (\<lambda>found.
      assert_that s found (
      try_write (remove_config_item A s APP_CONFIG_CF (ci_key item1)) (\<lambda>s.
      try_read s (config_item_exists A s APP_CONFIG_CF (ci_key item1)) (\<lambda>exists_after_remove.
      assert_that s (\<not> exists_after_remove) (
      done_with s))))))))))"

section \<open>cf_store_operations.rs\<close>

record app_data =
  app_id :: string
  app_value :: "32 word"
  app_description :: string

definition DATA_CF_A :: string where "DATA_CF_A = ''data_cf_a''"
definition DATA_CF_B :: string where "DATA_CF_B = ''data_cf_b''"

abbreviation id_key :: "app_data \<Rightarrow> key" where
  "id_key x \<equiv> KRef (KString (app_id x))"

text \<open>Single operations, and one batch for each column family.\<close>

definition cf_ops_basic ::
    "('s, 'h) rocks_api \<Rightarrow> app_data codec \<Rightarrow> app_data \<Rightarrow> app_data \<Rightarrow> app_data \<Rightarrow> app_data \<Rightarrow> 's \<Rightarrow> ('s \<Rightarrow> 's main) \<Rightarrow> 's main" where
  "cf_ops_basic A c item_a1 item_b1 default_item item_a2 s next_part =
     try_write (put A c s DATA_CF_A (id_key item_a1) item_a1) (\<lambda>s.
     try_write (put A c s DATA_CF_B (id_key item_b1) item_b1) (\<lambda>s.
     try_write (put A c s DEFAULT_COLUMN_FAMILY_NAME (id_key default_item) default_item) (\<lambda>s.
     try_read s (get A c s DATA_CF_A (id_key item_a1)) (\<lambda>retrieved_a1.
     assert_that s (retrieved_a1 = Some item_a1) (
     try_read s (exists A s DATA_CF_B (id_key item_b1)) (\<lambda>exists_b1.
     assert_that s exists_b1 (
     try_local s (bw_set A c s (store_batch_writer DATA_CF_A) (id_key item_a2) item_a2) (\<lambda>writer_a.
     try_commit (bw_commit A s writer_a) (\<lambda>s.
     try_local s (bw_delete A s (store_batch_writer DATA_CF_B) (id_key item_b1)) (\<lambda>writer_b.
     try_commit (bw_commit A s writer_b) (\<lambda>s.
     try_local s (bw_set_raw A s (store_batch_writer DEFAULT_COLUMN_FAMILY_NAME) (KStr ''raw_batch_key'')
         (str_bytes ''raw_payload'')) (\<lambda>writer_default.
     try_commit (bw_commit A s writer_default) (\<lambda>s.
     try_read s (get A c s DATA_CF_A (id_key item_a2)) (\<lambda>got.
     assert_that s (got \<noteq> None) (
     try_read s (exists A s DATA_CF_B (id_key item_b1)) (\<lambda>still.
     assert_that s (\<not> still) (
     try_read s (get_raw A s DEFAULT_COLUMN_FAMILY_NAME (KStr ''raw_batch_key'')) (\<lambda>raw.
     assert_that s (raw = Some (str_bytes ''raw_payload'')) (
     next_part s)))))))))))))))))))"

text \<open>The atomic batch over the three column families.\<close>

definition cf_ops_atomic ::
    "('s, 'h) rocks_api \<Rightarrow> app_data codec \<Rightarrow> app_data \<Rightarrow> app_data \<Rightarrow> 's \<Rightarrow> ('s \<Rightarrow> 's main) \<Rightarrow> 's main" where
  "cf_ops_atomic A c item_a3 item_b2 s next_part =
     (let default_key_multi = KStr ''default_multi'';
          multi_cf_writer = store_batch_writer DEFAULT_COLUMN_FAMILY_NAME in
      try_local s (bw_set_raw A s multi_cf_writer default_key_multi (str_bytes ''payload_for_default_in_multi_batch''))
       (\<lambda>multi_cf_writer.
      try_read s (get_cf_handle A s DATA_CF_A) (\<lambda>handle_a.
      try_read s (serialize_key (id_key item_a3)) (\<lambda>key_a3_bytes.
      try_read s (serialize_value c item_a3) (\<lambda>val_a3_bytes.
      try_local s (raw_batch_mut multi_cf_writer (\<lambda>raw_batch. raw_batch @ [BPut (Cf handle_a) key_a3_bytes val_a3_bytes]))
       (\<lambda>multi_cf_writer.
      try_read s (get_cf_handle A s DATA_CF_B) (\<lambda>handle_b.
      try_read s (serialize_key (id_key item_b2)) (\<lambda>key_b2_bytes.
      try_read s (serialize_value c item_b2) (\<lambda>val_b2_bytes.
      try_local s (raw_batch_mut multi_cf_writer (\<lambda>raw_batch. raw_batch @ [BPut (Cf handle_b) key_b2_bytes val_b2_bytes]))
       (\<lambda>multi_cf_writer.
      try_commit (bw_commit A s multi_cf_writer) (\<lambda>s.
      try_read s (get_raw A s DEFAULT_COLUMN_FAMILY_NAME default_key_multi) (\<lambda>raw.
      assert_that s (raw = Some (str_bytes ''payload_for_default_in_multi_batch'')) (
      try_read s (get A c s DATA_CF_A (id_key item_a3)) (\<lambda>got_a3.
      assert_that s (got_a3 = Some item_a3) (
      try_read s (get A c s DATA_CF_B (id_key item_b2)) (\<lambda>got_b2.
      assert_that s (got_b2 = Some item_b2) (
      next_part s)))))))))))))))))"

text \<open>
  The searches, which read keys as \<open>String\<close> with \<open>dec\<close>, the values of the second one as \<open>Vec<u8>\<close> with
  \<open>bytes_codec\<close>; and the deletion after them.
\<close>

definition cf_ops_searches ::
    "('s, 'h) rocks_api \<Rightarrow> app_data codec \<Rightarrow> bytes codec \<Rightarrow> (bytes \<Rightarrow> (string, string) result)
     \<Rightarrow> app_data \<Rightarrow> app_data \<Rightarrow> app_data \<Rightarrow> 's \<Rightarrow> 's main" where
  "cf_ops_searches A c bytes_codec dec item_a1 item_a2 item_a3 s =
     (let prefix_key = KString ''a'' in
      try_search s (find_by_prefix A dec c s DATA_CF_A (KRef prefix_key) Forward) (\<lambda>prefixed_items.
      assert_that s (length prefixed_items = 3) (
      assert_that s (\<exists>(k, v) \<in> set prefixed_items. k = app_id item_a1) (
      assert_that s (\<exists>(k, v) \<in> set prefixed_items. k = app_id item_a2) (
      assert_that s (\<exists>(k, v) \<in> set prefixed_items. k = app_id item_a3) (
     (let start_key_default = KString [] in
      try_search s (map_option fst (find_from A dec bytes_codec s DEFAULT_COLUMN_FAMILY_NAME start_key_default Forward
          (\<lambda>c _ _ _. (Keep, c)) ())) (\<lambda>all_default_items_from_iter.
      assert_that s (length all_default_items_from_iter = 3) (
      try_write (delete A s DATA_CF_A (id_key item_a1)) (\<lambda>s.
      try_read s (exists A s DATA_CF_A (id_key item_a1)) (\<lambda>still.
      assert_that s (\<not> still) (
      done_with s))))))))))))"

definition cf_store_operations_main ::
    "('s, 'h) rocks_api \<Rightarrow> app_data codec \<Rightarrow> bytes codec \<Rightarrow> (bytes \<Rightarrow> (string, string) result) \<Rightarrow> 's \<Rightarrow> 's main" where
  "cf_store_operations_main A c bytes_codec dec s =
     (let item_a1 = \<lparr>app_id = ''a1'', app_value = 100, app_description = ''Item in CF A''\<rparr>;
          item_b1 = \<lparr>app_id = ''b1'', app_value = 200, app_description = ''Item in CF B''\<rparr>;
          default_item = \<lparr>app_id = ''d1'', app_value = 300, app_description = ''Item in Default CF''\<rparr>;
          item_a2 = \<lparr>app_id = ''a2'', app_value = 150, app_description = ''Another item in CF A (batch)''\<rparr>;
          item_a3 = \<lparr>app_id = ''a3'', app_value = 175, app_description = ''Item A in multi-batch''\<rparr>;
          item_b2 = \<lparr>app_id = ''b2'', app_value = 275, app_description = ''Item B in multi-batch''\<rparr> in
      cf_ops_basic A c item_a1 item_b1 default_item item_a2 s (\<lambda>s.
      cf_ops_atomic A c item_a3 item_b2 s (
      cf_ops_searches A c bytes_codec dec item_a1 item_a2 item_a3)))"

section \<open>Execution\<close>

text \<open>The column family is empty.\<close>

definition empty_family :: "kv_view \<Rightarrow> string \<Rightarrow> bool" where
  "empty_family w cf \<longleftrightarrow> w cf = (\<lambda>_. None)"

lemma basic_usage_safe:
  assumes c: "rocks_contract A M" and ic: "codec_ok c" and "empty_family (m_view M s) DEFAULT_COLUMN_FAMILY_NAME"
  shows "safe (\<lambda>_. True) (basic_usage_main A c s)"
proof -
  have empty: "m_view M s ''default'' = (\<lambda>_. None)"
    using assms(3) by (simp add: empty_family_def DEFAULT_COLUMN_FAMILY_NAME_def)
  show ?thesis
    unfolding basic_usage_main_def ds_put_def ds_get_def ds_exists_def ds_delete_def ds_put_raw_def ds_get_raw_def
      ds_batch_writer_def Let_def DEFAULT_COLUMN_FAMILY_NAME_def
    by (rule run_rules open_store_batch_writer c ic TrueI | assumption
      | (simp add: upd_eq apply_ops_simps empty; fail))+
qed

lemma macros_cf_safe:
  assumes c: "rocks_contract A M" and ic: "codec_ok c"
  shows "safe (\<lambda>_. True) (macros_cf_main A c s)"
  unfolding macros_cf_main_def set_config_item_def get_config_item_def config_item_exists_def remove_config_item_def
    dao_put_cf_def dao_get_cf_def dao_exists_cf_def dao_remove_cf_def Let_def
  by (rule run_rules c ic TrueI | assumption | (simp add: upd_eq; fail))+

text \<open>
  The clock of the expiry example: it does not go back, the reads of the first part come within a second,
  the sleep takes its three seconds, and the whole run less than ten.
\<close>

definition sane_clock :: "(nat \<Rightarrow> u64) \<Rightarrow> bool" where
  "sane_clock now \<longleftrightarrow> (\<forall>i j. i \<le> j \<longrightarrow> now i \<le> now j) \<and> unat (now 0) + 10 < 2 ^ 63
     \<and> unat (now 4) \<le> unat (now 0) + 1 \<and> unat (now 4) + 3 \<le> unat (now 5) \<and> unat (now 7) < unat (now 0) + 10"

lemma clock_add: "unat (a :: u64) + n < 2 ^ 64 \<Longrightarrow> unat (a + word_of_nat n) = unat a + n"
  by (simp add: unat_word_ariths unat_of_nat)

lemma sane_clock_times:
  assumes "sane_clock now"
  shows "now 4 < now 1 + 2" and "now 1 + 2 \<le> now 6" and "now 7 < now 3 + 10"
proof -
  have mono: "unat (now i) \<le> unat (now j)" if "i \<le> j" for i j
    using assms that by (simp add: sane_clock_def word_le_nat_alt [symmetric])
  have b: "unat (now 0) + 10 < 2 ^ 63" "unat (now 4) \<le> unat (now 0) + 1" "unat (now 4) + 3 \<le> unat (now 5)"
    "unat (now 7) < unat (now 0) + 10"
    using assms by (simp_all add: sane_clock_def)
  note m = mono [of 0 1] mono [of 0 3] mono [of 1 4] mono [of 3 4] mono [of 5 6]
  have "unat (now 1 + 2) = unat (now 1) + 2" using clock_add [of "now 1" 2] b m by simp
  moreover have "unat (now 3 + 10) = unat (now 3) + 10" using clock_add [of "now 3" 10] b m by simp
  ultimately show "now 4 < now 1 + 2" and "now 1 + 2 \<le> now 6" and "now 7 < now 3 + 10"
    using b m by (simp_all add: word_less_nat_alt word_le_nat_alt)
qed

lemma value_expiry_safe:
  assumes c: "rocks_contract A M" and oc: "codec_ok c" and clock: "sane_clock now"
  shows "safe (\<lambda>_. True) (value_expiry_main A c now s)"
proof -
  have read: "deserialize_value c bs = Inr v \<Longrightarrow> safe Q (kk v) \<Longrightarrow> safe Q (try_read s (vwe_get c \<lparr>expire_time = t, raw_value = bs\<rparr>) kk)"
    for Q s kk t bs v
    by (simp add: vwe_get_def try_read_def)
  have stored: "safe Q (try_read s (get_with_expiry A s cf k) kk)"
    if "m_view M s cf (as_bytes k) = Some (serialize_for_storage v)" and "safe Q (kk (Some v))" for Q s cf k kk v
    by (rule safe_get_with_expiry [OF c]) (use that in simp)
  have either: "safe Q a \<Longrightarrow> safe Q b \<Longrightarrow> safe Q (if x then a else b)" for Q x and a b :: "'a main"
    by simp
  note time = sane_clock_times [OF clock] sane_clock_times [OF clock, simplified]
  show ?thesis
    unfolding value_expiry_main_def Let_def CACHE_CF_def
    apply (rule safe_put_with_expiry [OF c oc])+
    apply (rule stored, simp add: upd_eq)
    apply (unfold option.case value_with_expiry.simps)
    apply (rule safe_assert, simp)
    apply (rule safe_assert, simp add: time)
    apply (rule read, assumption)
    apply (rule stored, simp add: upd_eq)
    apply (unfold option.case value_with_expiry.simps)
    apply (rule safe_assert, simp)
    apply (rule either)
     apply (rule read, assumption)
     apply (rule safe_assert, simp add: time)
     apply (rule stored, simp add: upd_eq)
     apply (simp add: safe_assert time read safe_done)
    apply (rule safe_assert, simp add: time)
    apply (rule stored, simp add: upd_eq)
    apply (simp add: safe_assert time read safe_done)
    done
qed

lemma batching_safe:
  assumes c: "rocks_contract A M" and pc: "codec_ok pc" and sc: "codec_ok sc"
    and "empty_family (m_view M s) PRODUCTS_CF"
  shows "safe (\<lambda>_. True) (batching_main A pc sc s)"
proof -
  have empty: "m_view M s ''products_cf_for_batching'' = (\<lambda>_. None)"
    using assms(4) by (simp add: empty_family_def PRODUCTS_CF_def)
  show ?thesis
    unfolding batching_main_def batching_separate_def batching_discard_def batching_raw_def batching_atomic_def
      Let_def PRODUCTS_CF_def METADATA_CF_def DEFAULT_COLUMN_FAMILY_NAME_def
    by (rule run_rules open_store_batch_writer c pc sc TrueI | assumption
      | (simp add: upd_eq apply_ops_simps empty; fail))+
qed

text \<open>In MessagePack no encoding of the struct is one of a sequence of bytes.\<close>

definition not_bytes :: "app_data codec \<Rightarrow> bytes codec \<Rightarrow> bool" where
  "not_bytes c bytes_codec \<longleftrightarrow>
     (\<forall>v bs. deserialize_value c bs = Inr v \<longrightarrow> (\<exists>e. deserialize_value bytes_codec bs = Inl e))"

definition keys_decode :: "(bytes \<Rightarrow> (string, string) result) \<Rightarrow> bool" where
  "keys_decode dec \<longleftrightarrow> (\<forall>k. dec (str_bytes k) = Inr k)"

lemma cf_ops_part1:
  assumes c: "rocks_contract A M" and ac: "codec_ok c"
    and "distinct [app_id a1, app_id a2]"
    and "\<And>s1 bs1 bs2 bsd. deserialize_value c bs1 = Inr a1 \<Longrightarrow> deserialize_value c bs2 = Inr a2 \<Longrightarrow>
      deserialize_value c bsd = Inr d \<Longrightarrow>
      m_view M s1 DATA_CF_A = (m_view M s DATA_CF_A)(str_bytes (app_id a1) \<mapsto> bs1, str_bytes (app_id a2) \<mapsto> bs2) \<Longrightarrow>
      m_view M s1 DEFAULT_COLUMN_FAMILY_NAME = (m_view M s DEFAULT_COLUMN_FAMILY_NAME)
        (str_bytes (app_id d) \<mapsto> bsd, str_bytes ''raw_batch_key'' \<mapsto> str_bytes ''raw_payload'') \<Longrightarrow>
      safe Q (next_part s1)"
  shows "safe Q (cf_ops_basic A c a1 b1 d a2 s next_part)"
  unfolding cf_ops_basic_def DATA_CF_A_def DATA_CF_B_def DEFAULT_COLUMN_FAMILY_NAME_def
  by (rule run_rules open_store_batch_writer c ac | assumption
      | (auto simp: upd_eq apply_ops_simps; fail)
      | (rule assms(4) [unfolded DATA_CF_A_def DEFAULT_COLUMN_FAMILY_NAME_def], assumption, assumption, assumption,
         (simp add: upd_eq apply_ops_simps fun_eq_iff; fail), (simp add: upd_eq apply_ops_simps fun_eq_iff; fail)))+

lemma cf_ops_part2:
  assumes c: "rocks_contract A M" and ac: "codec_ok c"
    and "\<And>s1 bs3. deserialize_value c bs3 = Inr a3 \<Longrightarrow>
      m_view M s1 DATA_CF_A = (m_view M s DATA_CF_A)(str_bytes (app_id a3) \<mapsto> bs3) \<Longrightarrow>
      m_view M s1 DEFAULT_COLUMN_FAMILY_NAME = (m_view M s DEFAULT_COLUMN_FAMILY_NAME)
        (str_bytes ''default_multi'' \<mapsto> str_bytes ''payload_for_default_in_multi_batch'') \<Longrightarrow>
      safe Q (next_part s1)"
  shows "safe Q (cf_ops_atomic A c a3 b2 s next_part)"
  unfolding cf_ops_atomic_def DATA_CF_A_def DATA_CF_B_def DEFAULT_COLUMN_FAMILY_NAME_def Let_def
  by (rule run_rules open_store_batch_writer c ac | assumption
      | (auto simp: upd_eq apply_ops_simps; fail)
      | (rule assms(3) [unfolded DATA_CF_A_def DEFAULT_COLUMN_FAMILY_NAME_def], assumption,
         (simp add: upd_eq apply_ops_simps fun_eq_iff; fail), (simp add: upd_eq apply_ops_simps fun_eq_iff; fail)))+

text \<open>The prefix search finds the three items, the search over all rows fails at the first of them.\<close>

lemma cf_ops_part3:
  assumes c: "rocks_contract A M" "iter_contract A M" "rows_only A" and "keys_decode dec" and "not_bytes c bytes_codec"
    and ids: "app_id a1 = ''a1''" "app_id a2 = ''a2''" "app_id a3 = ''a3''"
    and view_a: "m_view M s DATA_CF_A = [str_bytes ''a1'' \<mapsto> bs1, str_bytes ''a2'' \<mapsto> bs2, str_bytes ''a3'' \<mapsto> bs3]"
    and bs: "deserialize_value c bs1 = Inr a1" "deserialize_value c bs2 = Inr a2" "deserialize_value c bs3 = Inr a3"
    and d: "m_view M s DEFAULT_COLUMN_FAMILY_NAME k = Some bsd" "deserialize_value c bsd = Inr d"
  shows "safe (\<lambda>_. False) (cf_ops_searches A c bytes_codec dec a1 a2 a3 s)"
proof -
  have fails: "deserialize_kv dec bytes_codec k bsd \<noteq> Inr x" for x
  proof -
    obtain e where "deserialize_value bytes_codec bsd = Inl e"
      using assms(5) d(2) by (auto simp: not_bytes_def)
    then show ?thesis by (simp add: deserialize_kv_def and_then_eq_Inr)
  qed
  have row: "deserialize_kv dec c (str_bytes i) bs = Inr (i, v)" if "deserialize_value c bs = Inr v" for i bs v
    using assms(4) that by (simp add: keys_decode_def deserialize_kv_def deserialize_key_def)
  have prefix: "has_prefix (str_bytes ''a'') (str_bytes ''a1'')" "has_prefix (str_bytes ''a'') (str_bytes ''a2'')"
    "has_prefix (str_bytes ''a'') (str_bytes ''a3'')"
    by (simp_all add: str_bytes_def)
  have "{k. m_view M s DATA_CF_A k \<noteq> None \<and> has_prefix (str_bytes ''a'') k}
      = {str_bytes ''a1'', str_bytes ''a2'', str_bytes ''a3''}"
    using prefix by (auto simp: view_a)
  then have card: "card {k. m_view M s DATA_CF_A k \<noteq> None \<and> has_prefix (str_bytes ''a'') k} = 3"
    by simp
  show ?thesis
    unfolding cf_ops_searches_def Let_def
  proof (rule safe_find_by_prefix [OF c], intro safe_assert)
    fix items
    assume n: "length items = card {k. m_view M s DATA_CF_A k \<noteq> None \<and> has_prefix (as_bytes (KRef (KString ''a''))) k}"
      and found: "\<And>k bs. m_view M s DATA_CF_A k = Some bs \<Longrightarrow> has_prefix (as_bytes (KRef (KString ''a''))) k \<Longrightarrow>
        \<exists>x. deserialize_kv dec c k bs = Inr x \<and> x \<in> set items"
    show "length items = 3" using n card by simp
    show "\<exists>(k, v) \<in> set items. k = app_id a1" "\<exists>(k, v) \<in> set items. k = app_id a2" "\<exists>(k, v) \<in> set items. k = app_id a3"
      using found [of "str_bytes ''a1''" bs1] found [of "str_bytes ''a2''" bs2] found [of "str_bytes ''a3''" bs3]
        prefix row [OF bs(1)] row [OF bs(2)] row [OF bs(3)] by (auto simp: view_a ids)
  qed (rule find_from_fails [OF c d(1) _ fails], simp add: str_bytes_def)
qed

lemma cf_store_operations_safe:
  assumes c: "rocks_contract A M" "iter_contract A M" "rows_only A" and ac: "codec_ok c"
    and "keys_decode dec" and "not_bytes c bytes_codec"
    and "empty_family (m_view M s) DATA_CF_A"
  shows "safe (\<lambda>_. False) (cf_store_operations_main A c bytes_codec dec s)"
  unfolding cf_store_operations_main_def Let_def
proof (rule cf_ops_part1 [OF c(1) ac], goal_cases)
  case 1
  show ?case by simp
next
  case p1: (2 s1 bs1 bs2 bsd)
  show ?case
  proof (rule cf_ops_part2 [OF c(1) ac])
    fix s2 bs3
    assume p2: "deserialize_value c bs3 = Inr \<lparr>app_id = ''a3'', app_value = 175, app_description = ''Item A in multi-batch''\<rparr>"
      "m_view M s2 DATA_CF_A = (m_view M s1 DATA_CF_A)(str_bytes (app_id \<lparr>app_id = ''a3'', app_value = 175,
         app_description = ''Item A in multi-batch''\<rparr>) \<mapsto> bs3)"
      "m_view M s2 DEFAULT_COLUMN_FAMILY_NAME = (m_view M s1 DEFAULT_COLUMN_FAMILY_NAME)
        (str_bytes ''default_multi'' \<mapsto> str_bytes ''payload_for_default_in_multi_batch'')"
    have "m_view M s2 DATA_CF_A = [str_bytes ''a1'' \<mapsto> bs1, str_bytes ''a2'' \<mapsto> bs2, str_bytes ''a3'' \<mapsto> bs3]"
      using p1(4) p2(2) assms(7) by (simp add: empty_family_def)
    moreover have "m_view M s2 DEFAULT_COLUMN_FAMILY_NAME (str_bytes ''d1'') = Some bsd"
      using p1(5) p2(3) by simp
    ultimately show "safe (\<lambda>_. False) (cf_ops_searches A c bytes_codec dec
        \<lparr>app_id = ''a1'', app_value = 100, app_description = ''Item in CF A''\<rparr>
        \<lparr>app_id = ''a2'', app_value = 150, app_description = ''Another item in CF A (batch)''\<rparr>
        \<lparr>app_id = ''a3'', app_value = 175, app_description = ''Item A in multi-batch''\<rparr> s2)"
      by (rule cf_ops_part3 [OF c assms(5,6), rotated 3, OF _ p1(1,2) p2(1) _ p1(3)]) simp_all
  qed
qed

section \<open>Instances\<close>

text \<open>A codec by a table, and open families on an empty database.\<close>

definition table_codec :: "('v \<times> bytes) list \<Rightarrow> 'v codec" where
  "table_codec xs = \<lparr>
     codec_ser = (\<lambda>v. case map_of xs v of Some bs \<Rightarrow> Inr bs | None \<Rightarrow> Inl ''unknown''),
     codec_de = (\<lambda>bs. case map_of (map (\<lambda>(v, bs). (bs, v)) xs) bs of Some v \<Rightarrow> Inr v | None \<Rightarrow> Inl ''unknown'')\<rparr>"

lemma codec_ok_table:
  assumes "distinct (map snd xs)"
  shows "codec_ok (table_codec xs)"
proof -
  have "map_of (map (\<lambda>(v, bs). (bs, v)) xs) bs = Some v" if "map_of xs v = Some bs" for v bs
  proof (rule map_of_is_SomeI)
    show "distinct (map fst (map (\<lambda>(v, bs). (bs, v)) xs))" using assms by (simp add: case_prod_beta comp_def)
    show "(bs, v) \<in> set (map (\<lambda>(v, bs). (bs, v)) xs)" using map_of_SomeD [OF that] by force
  qed
  then show ?thesis by (auto simp: codec_ok_def table_codec_def split: option.splits)
qed

definition opened :: "string list \<Rightarrow> mem" where
  "opened names = (\<lambda>cf. if cf \<in> set names then Some [] else None)"

lemma opened_empty: "empty_family (m_view mem_meaning (opened names)) cf"
  by (simp add: empty_family_def mem_view_def mem_entries_def opened_def fun_eq_iff)

definition sample_products :: "product codec" where
  "sample_products = table_codec [(\<lparr>product_id = 1, product_name = ''Gadget''\<rparr>, [1]),
     (\<lparr>product_id = 2, product_name = ''Thingamajig''\<rparr>, [2]), (\<lparr>product_id = 3, product_name = ''Wonkavator''\<rparr>, [3]),
     (\<lparr>product_id = 4, product_name = ''Doohickey''\<rparr>, [4]), (\<lparr>product_id = 5, product_name = ''MultiGadget''\<rparr>, [5])]"

definition sample_items :: "item codec" where
  "sample_items = table_codec [(\<lparr>sku = ''WDGT-001'', item_name = ''Widget'', quantity = 100\<rparr>, [1]),
     (\<lparr>sku = ''WDGT-001'', item_name = ''Widget'', quantity = 90\<rparr>, [2]),
     (\<lparr>sku = ''BCH-001'', item_name = ''Batch Item'', quantity = 5\<rparr>, [3])]"

definition sample_objects :: "cached_object codec" where
  "sample_objects = table_codec [
     (\<lparr>obj_id = 101, obj_data = ''This object will expire soon.'', obj_created_at = 0\<rparr>, [1]),
     (\<lparr>obj_id = 102, obj_data = ''This object has a longer life.'', obj_created_at = 0\<rparr>, [2])]"

definition sample_settings :: "config_item codec" where
  "sample_settings = table_codec [
     (\<lparr>ci_key = ''feature_toggle_x'', ci_value = ''enabled_globally'', ci_is_enabled = True\<rparr>, [1]),
     (\<lparr>ci_key = ''api_endpoint_url'', ci_value = ''https://api.example.com/v2'', ci_is_enabled = True\<rparr>, [2])]"

definition sample_strings :: "string codec" where
  "sample_strings = table_codec [(''default_value'', [6])]"

section \<open>Properties\<close>




definition sample_app_data :: "app_data codec" where
  "sample_app_data = table_codec [(\<lparr>app_id = ''a1'', app_value = 100, app_description = ''Item in CF A''\<rparr>, [0x93, 1]),
     (\<lparr>app_id = ''d1'', app_value = 300, app_description = ''Item in Default CF''\<rparr>, [0x93, 2])]"

definition sample_bytes :: "bytes codec" where
  "sample_bytes = \<lparr>codec_ser = (\<lambda>bs. Inr (0x91 # bs)),
     codec_de = (\<lambda>bs. if bs \<noteq> [] \<and> hd bs = 0x91 then Inr (tl bs) else Inl ''invalid type'')\<rparr>"


end
