(* ===== verification/Example_Iteration.thy ===== *)
theory Example_Iteration
  imports Example_Programs
begin

text \<open>
  \<open>examples/cf_store_iteration.rs\<close>, from the point where its store is open: the three modes of an
  iteration with control functions that count. What the loops print is handed to a last part
  \<open>report\<close>, which is \<open>Ok(())\<close> in the example.
\<close>

section \<open>The program\<close>

record my_value =
  my_data :: string
  my_timestamp :: u64

definition CF_STRING_KEYS :: string where "CF_STRING_KEYS = ''cf_string_keys''"
definition CF_CUSTOM_DATA :: string where "CF_CUSTOM_DATA = ''cf_custom_data''"

definition iteration_populate ::
    "('s, 'h) rocks_api \<Rightarrow> my_value codec \<Rightarrow> string codec \<Rightarrow> 's \<Rightarrow> ('s \<Rightarrow> 's main) \<Rightarrow> 's main" where
  "iteration_populate A c strings s next_part =
     try_write (put A c s CF_STRING_KEYS (KString (''alpha:'' @ show_nat 1))
       \<lparr>my_data = ''Value Alpha 1'', my_timestamp = 100\<rparr>) (\<lambda>s.
     try_write (put A c s CF_STRING_KEYS (KString (''alpha:'' @ show_nat 2))
       \<lparr>my_data = ''Value Alpha 2'', my_timestamp = 101\<rparr>) (\<lambda>s.
     try_write (put A c s CF_STRING_KEYS (KString (''beta:'' @ show_nat 1))
       \<lparr>my_data = ''Value Beta 1'', my_timestamp = 102\<rparr>) (\<lambda>s.
     try_write (put A strings s CF_CUSTOM_DATA (KString ''prefix_1_key_A'') ''Data A'') (\<lambda>s.
     try_write (put A strings s CF_CUSTOM_DATA (KString ''prefix_1_key_B'') ''Data B'') (\<lambda>s.
     try_write (put A strings s CF_CUSTOM_DATA (KString ''prefix_2_key_C'') ''Data C'') (\<lambda>s.
     try_write (put A strings s CF_CUSTOM_DATA (KString ''another_key'') ''Data D'') next_part))))))"

text \<open>\<open>for item_result in iter { item_result.unwrap() .. }\<close>; \<open>None\<close> would be a loop that does not end.\<close>

definition for_unwrap :: "'s \<Rightarrow> (('e, 'a list) result \<times> 'i) option \<Rightarrow> ('a list \<Rightarrow> 's main) \<Rightarrow> 's main" where
  "for_unwrap s r k = (case r of Some (Inr items, _) \<Rightarrow> k items | _ \<Rightarrow> (Panicked, s))"

definition my_deserializer ::
    "(bytes \<Rightarrow> (string, string) result) \<Rightarrow> my_value codec \<Rightarrow> ('c, string, my_value) deserializer" where
  "my_deserializer dec c env k_bytes v_bytes =
     (map_err (\<lambda>e. Deserialization (''Value (MyValue) decode error: '' @ display e))
        (deserialize_kv dec c k_bytes v_bytes), env)"

definition iteration_deserialize ::
    "('s, 'h) rocks_api \<Rightarrow> (bytes \<Rightarrow> (string, string) result) \<Rightarrow> my_value codec \<Rightarrow> 's
     \<Rightarrow> ((string \<times> my_value) list \<Rightarrow> 's main) \<Rightarrow> 's main" where
  "iteration_deserialize A dec c s next_part =
     (let cfg = new_deserializing CF_STRING_KEYS None None False None (my_deserializer dec c) () in
      try_read s (fst (iterate A s cfg)) (\<lambda>result.
        case result of
          DeserializedItems iter \<Rightarrow> for_unwrap s (try_collect controlled_next iter) next_part
        | _ \<Rightarrow> next_part []))"

definition iteration_raw ::
    "('s, 'h) rocks_api \<Rightarrow> 's \<Rightarrow> (kv list \<Rightarrow> 's main) \<Rightarrow> 's main" where
  "iteration_raw A s next_part =
     (let cfg = new_raw CF_CUSTOM_DATA (Some (KString ''prefix_1_'')) None False None () in
      try_read s (fst (iterate A s cfg)) (\<lambda>result.
        case result of
          RawItems iter \<Rightarrow> for_unwrap s (try_collect raw_next iter) next_part
        | _ \<Rightarrow> next_part []))"

text \<open>The control functions count what they are shown and stop at a number.\<close>

definition stop_at :: "int \<Rightarrow> int control" where
  "stop_at m count k v n = (let count = count + 1 in (if count \<ge> m then Stop else Keep, count))"

definition iteration_control_only ::
    "('s, 'h) rocks_api \<Rightarrow> 's \<Rightarrow> (int \<Rightarrow> 's main) \<Rightarrow> 's main" where
  "iteration_control_only A s next_part =
     (let cfg = new_control_only CF_STRING_KEYS None (Some (KString ''alpha:1'')) False (stop_at 2) 0 in
      case iterate A s cfg of (r, items_processed_count) \<Rightarrow> try_read s r (\<lambda>_. next_part items_processed_count))"

definition iteration_reverse ::
    "('s, 'h) rocks_api \<Rightarrow> (bytes \<Rightarrow> (string, string) result) \<Rightarrow> my_value codec \<Rightarrow> 's
     \<Rightarrow> ((string \<times> my_value) list \<Rightarrow> 's main) \<Rightarrow> 's main" where
  "iteration_reverse A dec c s next_part =
     (let cfg = new_deserializing CF_STRING_KEYS (Some (KString ''alpha:'')) None True (Some (stop_at 1))
            (my_deserializer dec c) 0 in
      try_read s (fst (iterate A s cfg)) (\<lambda>result.
        case result of
          DeserializedItems iter \<Rightarrow> for_unwrap s (try_collect controlled_next iter) next_part
        | _ \<Rightarrow> next_part []))"

definition cf_store_iteration_main ::
    "('s, 'h) rocks_api \<Rightarrow> (bytes \<Rightarrow> (string, string) result) \<Rightarrow> my_value codec \<Rightarrow> string codec \<Rightarrow> 's
     \<Rightarrow> ((string \<times> my_value) list \<Rightarrow> kv list \<Rightarrow> int \<Rightarrow> (string \<times> my_value) list \<Rightarrow> 's \<Rightarrow> 's main) \<Rightarrow> 's main" where
  "cf_store_iteration_main A dec c strings s report =
     iteration_populate A c strings s (\<lambda>s.
     iteration_deserialize A dec c s (\<lambda>items.
     iteration_raw A s (\<lambda>raw_items.
     iteration_control_only A s (\<lambda>visited.
     iteration_reverse A dec c s (\<lambda>last_items.
     report items raw_items visited last_items s)))))"

section \<open>Lemmas\<close>

lemma is_rows_unique:
  assumes "is_rows w rs" and "is_rows w qs"
  shows "rs = qs"
proof -
  have d: "distinct (map fst rs)" "distinct (map fst qs)"
    using assms by (simp_all add: is_rows_def strict_sorted_iff)
  have "map_of rs = map_of qs" using assms by (simp add: is_rows_def)
  then have "set rs = set qs" using map_of_inject_set [OF d] by simp
  moreover have "sorted (map fst rs)" "sorted (map fst qs)"
    using assms by (simp_all add: is_rows_def strict_sorted_iff)
  ultimately show ?thesis
    using d map_sorted_distinct_set_unique [of fst rs qs] distinct_map [of fst rs] by simp
qed

lemma gather_copy_all: "gather None copy_item (map Inr rows) c n = (Inr rows, c)"
  by (induction rows arbitrary: n) (auto simp: gather_copy_Cons simp del: gather.simps(3))

lemma safe_for_unwrap:
  "r = Some (Inr items, j) \<Longrightarrow> ends pan Q (k items) \<Longrightarrow> ends pan Q (for_unwrap s r k)"
  by (simp add: for_unwrap_def)

text \<open>An iteration either reports that it has no column family, or walks the rows it should.\<close>

lemma iterate_rows:
  assumes "rocks_contract A M" and "iter_contract A M" and "rows_only A" and "cfg_prefix cfg = None"
  obtains (err) e where "iterate A s cfg = (Inl e, cfg_env cfg)"
  | (ok) rs where "is_rows (m_view M s (cfg_cf_name cfg)) rs"
      and "iterate A s cfg = run_mode cfg (cfg_control cfg)
        (map Inr (rows_from (choose_mode (cfg_reverse cfg) (map_option as_bytes (cfg_start cfg)) None) rs))"
proof (cases "target_of A s (cfg_cf_name cfg)")
  case (Inl e)
  then show ?thesis
    using assms(4) by (intro err [of e]) (simp add: iterate_def execute_def base_iter_def general_iterator_factory_def)
next
  case (Inr t)
  let ?m = "choose_mode (cfg_reverse cfg) (map_option as_bytes (cfg_start cfg)) None"
  obtain rows where rows: "api_iterator A s t ?m = map Inr rows"
    using assms(3) unfolding rows_only_def by meson
  obtain rs where rs: "is_rows (m_view M s (cfg_cf_name cfg)) rs" "rows = rows_from ?m rs"
    using general_rows [OF assms(1,2) Inr rows] by blast
  then show ?thesis
    using assms(4) Inr rows
    by (intro ok [of rs]) (simp_all add: iterate_def execute_def base_iter_def general_iterator_factory_def)
qed

lemma iterate_prefix_rows:
  assumes "rocks_contract A M" and "iter_contract A M" and "rows_only A"
    and "cfg_prefix cfg = Some p" and "cfg_start cfg = None"
  obtains (err) e where "iterate A s cfg = (Inl e, cfg_env cfg)"
  | (ok) rows rs where "is_rows (m_view M s (cfg_cf_name cfg)) rs"
      and "takeWhile (in_prefix (as_bytes p)) (map Inr rows) = map Inr (filter (\<lambda>r. has_prefix (as_bytes p) (fst r)) rs)"
      and "iterate A s cfg = run_mode cfg (effective_control (Some (as_bytes p)) (cfg_control cfg)) (map Inr rows)"
proof (cases "target_of A s (cfg_cf_name cfg)")
  case (Inl e)
  then show ?thesis
    using assms(4,5) by (intro err [of e]) (simp add: iterate_def execute_def base_iter_def prefix_iterator_factory_def)
next
  case (Inr t)
  obtain rows where rows: "api_prefix_iterator A s t (as_bytes p) = map Inr rows"
    using assms(3) unfolding rows_only_def by meson
  obtain rs where rs: "is_rows (m_view M s (cfg_cf_name cfg)) rs"
    "takeWhile (in_prefix (as_bytes p)) (map Inr rows) = map Inr (filter (\<lambda>r. has_prefix (as_bytes p) (fst r)) rs)"
    using prefix_rows [OF assms(1,2) Inr rows] by blast
  then show ?thesis
    using assms(4,5) Inr rows
    by (intro ok [of rs rows]) (simp_all add: iterate_def execute_def base_iter_def prefix_iterator_factory_def)
qed

lemma gather_my_deserializer:
  "map (\<lambda>r. deserialize_kv dec c (fst r) (snd r)) rs = map Inr xs \<Longrightarrow>
     gather None (my_deserializer dec c) (map Inr rs) env n = (Inr xs, env)"
proof (induction rs arbitrary: xs n)
  case (Cons r rs)
  then show ?case by (cases r; cases xs) (auto simp: my_deserializer_def)
qed simp

lemma safe_iteration_deserialize:
  assumes "rocks_contract A M" and "iter_contract A M" and "rows_only A"
    and "is_rows (m_view M s CF_STRING_KEYS) rs"
    and "map (\<lambda>r. deserialize_kv dec c (fst r) (snd r)) rs = map Inr xs" and "ends pan Q (k xs)"
  shows "ends pan Q (iteration_deserialize A dec c s k)"
proof -
  let ?cfg = "new_deserializing CF_STRING_KEYS None None False None (my_deserializer dec c) ()"
  have pre: "cfg_prefix ?cfg = None" by (simp add: new_deserializing_def)
  have "ends pan Q (try_read s (fst (iterate A s ?cfg)) (\<lambda>result. case result of
      DeserializedItems iter \<Rightarrow> for_unwrap s (try_collect controlled_next iter) k | _ \<Rightarrow> k []))" (is "ends pan Q (try_read _ _ ?rest)")
  proof (rule iterate_rows [where s = s, OF assms(1-3) pre])
    fix qs
    assume ok: "is_rows (m_view M s (cfg_cf_name ?cfg)) qs"
      "iterate A s ?cfg = run_mode ?cfg (cfg_control ?cfg)
        (map Inr (rows_from (choose_mode (cfg_reverse ?cfg) (map_option as_bytes (cfg_start ?cfg)) None) qs))"
    then have "qs = rs" using assms(4) is_rows_unique by (simp add: new_deserializing_def)
    with ok have it: "fst (iterate A s ?cfg) = Inr (DeserializedItems \<lparr>ci_raw = map Inr rs, ci_control = None,
        ci_deserializer = my_deserializer dec c, ci_items_kept_count = 0, ci_env = ()\<rparr>)"
      by (simp add: run_mode_def new_deserializing_def choose_mode_def)
    obtain j where "try_collect controlled_next \<lparr>ci_raw = map Inr rs, ci_control = None,
        ci_deserializer = my_deserializer dec c, ci_items_kept_count = 0, ci_env = ()\<rparr> = Some (Inr xs, j)"
      using collect_gather [of "\<lparr>ci_raw = map Inr rs, ci_control = None,
          ci_deserializer = my_deserializer dec c, ci_items_kept_count = 0, ci_env = ()\<rparr>"]
        gather_my_deserializer [OF assms(5), of "()" 0] by auto
    then show "ends pan Q (try_read s (fst (iterate A s ?cfg)) ?rest)"
      unfolding it using assms(6) by (simp add: try_read_def for_unwrap_def)
  qed (simp_all add: new_deserializing_def try_read_def safe_def)
  then show ?thesis by (simp add: iteration_deserialize_def)
qed

lemma safe_iteration_raw:
  assumes "rocks_contract A M" and "iter_contract A M" and "rows_only A"
    and "is_rows (m_view M s CF_CUSTOM_DATA) rs"
    and "ends pan Q (k (filter (\<lambda>r. has_prefix (str_bytes ''prefix_1_'') (fst r)) rs))"
  shows "ends pan Q (iteration_raw A s k)"
proof -
  let ?cfg = "new_raw CF_CUSTOM_DATA (Some (KString ''prefix_1_'')) None False None ()"
  let ?p = "str_bytes ''prefix_1_''"
  have pre: "cfg_prefix ?cfg = Some (KString ''prefix_1_'')" "cfg_start ?cfg = None" by (simp_all add: new_raw_def)
  have "ends pan Q (try_read s (fst (iterate A s ?cfg)) (\<lambda>result. case result of
      RawItems iter \<Rightarrow> for_unwrap s (try_collect raw_next iter) k | _ \<Rightarrow> k []))" (is "ends pan Q (try_read _ _ ?rest)")
  proof (rule iterate_prefix_rows [where s = s, OF assms(1-3) pre])
    fix rows qs
    assume ok: "is_rows (m_view M s (cfg_cf_name ?cfg)) qs"
      "takeWhile (in_prefix (as_bytes (KString ''prefix_1_''))) (map Inr rows)
        = map Inr (filter (\<lambda>r. has_prefix (as_bytes (KString ''prefix_1_'')) (fst r)) qs)"
      "iterate A s ?cfg = run_mode ?cfg (effective_control (Some (as_bytes (KString ''prefix_1_''))) (cfg_control ?cfg)) (map Inr rows)"
    then have "qs = rs" using assms(4) is_rows_unique by (simp add: new_raw_def)
    let ?it = "\<lparr>ri_raw = map Inr rows, ri_control = effective_control (Some ?p) None,
        ri_items_kept_count = 0, ri_env = ()\<rparr>"
    have it: "fst (iterate A s ?cfg) = Inr (RawItems ?it)"
      using ok by (simp add: run_mode_def new_raw_def)
    have "gather (effective_control (Some ?p) None) copy_item (map Inr rows) () 0
        = (Inr (filter (\<lambda>r. has_prefix ?p (fst r)) rs), ())"
      using ok(2) \<open>qs = rs\<close> by (simp only: gather_prefix as_bytes.simps gather_copy_all)
    then obtain j where "try_collect raw_next ?it = Some (Inr (filter (\<lambda>r. has_prefix ?p (fst r)) rs), j)"
      using collect_raw [of ?it] by auto
    then show "ends pan Q (try_read s (fst (iterate A s ?cfg)) ?rest)"
      unfolding it using assms(5) by (simp add: try_read_def for_unwrap_def)
  qed (simp_all add: new_raw_def try_read_def safe_def)
  then show ?thesis by (simp add: iteration_raw_def)
qed

lemma safe_iteration_control_only:
  assumes "rocks_contract A M" and "iter_contract A M" and "rows_only A"
    and "is_rows (m_view M s CF_STRING_KEYS) rs"
    and "2 \<le> length (filter (\<lambda>r. str_bytes ''alpha:1'' \<le> fst r) rs)" and "ends pan Q (k 2)"
  shows "ends pan Q (iteration_control_only A s k)"
proof -
  let ?cfg = "new_control_only CF_STRING_KEYS None (Some (KString ''alpha:1'')) False (stop_at 2) 0"
  have pre: "cfg_prefix ?cfg = None" by (simp add: new_control_only_def)
  have "ends pan Q (case iterate A s ?cfg of (r, n) \<Rightarrow> try_read s r (\<lambda>_. k n))"
  proof (rule iterate_rows [where s = s, OF assms(1-3) pre])
    fix qs
    assume ok: "is_rows (m_view M s (cfg_cf_name ?cfg)) qs"
      "iterate A s ?cfg = run_mode ?cfg (cfg_control ?cfg)
        (map Inr (rows_from (choose_mode (cfg_reverse ?cfg) (map_option as_bytes (cfg_start ?cfg)) None) qs))"
    then have "qs = rs" using assms(4) is_rows_unique by (simp add: new_control_only_def)
    obtain r1 r2 rest where rows: "filter (\<lambda>r. str_bytes ''alpha:1'' \<le> fst r) rs = r1 # r2 # rest"
      using assms(5) by (metis Suc_le_length_iff numeral_2_eq_2)
    have "iterate A s ?cfg = (Inr EffectCompleted, 2)"
      using ok(2) \<open>qs = rs\<close> rows
      by (cases r1; cases r2) (simp add: run_mode_def new_control_only_def choose_mode_def stop_at_def Let_def)
    then show "ends pan Q (case iterate A s ?cfg of (r, n) \<Rightarrow> try_read s r (\<lambda>_. k n))"
      using assms(6) by (simp add: try_read_def)
  qed (simp_all add: new_control_only_def try_read_def safe_def)
  then show ?thesis by (simp add: iteration_control_only_def)
qed

text \<open>The last loop prints nothing: the control function stops at the row that it is shown first.\<close>

lemma safe_iteration_reverse:
  assumes "rocks_contract A M" and "iter_contract A M" and "rows_only A" and "ends pan Q (k [])"
  shows "ends pan Q (iteration_reverse A dec c s k)"
proof -
  let ?cfg = "new_deserializing CF_STRING_KEYS (Some (KString ''alpha:'')) None True (Some (stop_at 1))
    (my_deserializer dec c) 0"
  have pre: "cfg_prefix ?cfg = Some (KString ''alpha:'')" "cfg_start ?cfg = None" by (simp_all add: new_deserializing_def)
  have "ends pan Q (try_read s (fst (iterate A s ?cfg)) (\<lambda>result. case result of
      DeserializedItems iter \<Rightarrow> for_unwrap s (try_collect controlled_next iter) k | _ \<Rightarrow> k []))" (is "ends pan Q (try_read _ _ ?rest)")
  proof (rule iterate_prefix_rows [where s = s, OF assms(1-3) pre])
    fix rows rs
    assume ok: "is_rows (m_view M s (cfg_cf_name ?cfg)) rs"
      "takeWhile (in_prefix (as_bytes (KString ''alpha:''))) (map Inr rows)
        = map Inr (filter (\<lambda>r. has_prefix (as_bytes (KString ''alpha:'')) (fst r)) rs)"
      "iterate A s ?cfg = run_mode ?cfg (effective_control (Some (as_bytes (KString ''alpha:''))) (cfg_control ?cfg)) (map Inr rows)"
    let ?it = "\<lparr>ci_raw = map Inr rows, ci_control = effective_control (Some (str_bytes ''alpha:'')) (Some (stop_at 1)),
        ci_deserializer = my_deserializer dec c, ci_items_kept_count = 0, ci_env = 0\<rparr>"
    have it: "fst (iterate A s ?cfg) = Inr (DeserializedItems ?it)"
      using ok by (simp add: run_mode_def new_deserializing_def)
    have "fst (gather_iter ?it) = Inr []"
      by (cases rows) (auto simp: run_effective_control stop_at_def)
    then obtain j where "try_collect controlled_next ?it = Some (Inr [], j)"
      using collect_gather [of ?it] by auto
    then show "ends pan Q (try_read s (fst (iterate A s ?cfg)) ?rest)"
      unfolding it using assms(4) by (simp add: try_read_def for_unwrap_def)
  qed (simp_all add: new_deserializing_def try_read_def safe_def)
  then show ?thesis by (simp add: iteration_reverse_def)
qed

lemma safe_iteration_populate:
  assumes c: "rocks_contract A M" and cc: "codec_ok c" "codec_ok strings"
    and empty: "empty_family (m_view M s) CF_STRING_KEYS" "empty_family (m_view M s) CF_CUSTOM_DATA"
    and next_part: "\<And>s1 b1 b2 b3 d1 d2 d3 d4.
      deserialize_value c b1 = Inr \<lparr>my_data = ''Value Alpha 1'', my_timestamp = 100\<rparr> \<Longrightarrow>
      deserialize_value c b2 = Inr \<lparr>my_data = ''Value Alpha 2'', my_timestamp = 101\<rparr> \<Longrightarrow>
      deserialize_value c b3 = Inr \<lparr>my_data = ''Value Beta 1'', my_timestamp = 102\<rparr> \<Longrightarrow>
      is_rows (m_view M s1 CF_STRING_KEYS)
        [(str_bytes ''alpha:1'', b1), (str_bytes ''alpha:2'', b2), (str_bytes ''beta:1'', b3)] \<Longrightarrow>
      is_rows (m_view M s1 CF_CUSTOM_DATA)
        [(str_bytes ''another_key'', d4), (str_bytes ''prefix_1_key_A'', d1), (str_bytes ''prefix_1_key_B'', d2),
         (str_bytes ''prefix_2_key_C'', d3)] \<Longrightarrow> ends pan Q (k s1)"
  shows "ends pan Q (iteration_populate A c strings s k)"
proof -
  have keys: "show_nat 1 = ''1''" "show_nat 2 = ''2''" by code_simp+
  show ?thesis
    unfolding iteration_populate_def keys
  proof (rule safe_put [OF c cc(1)], rule safe_put [OF c cc(1)], rule safe_put [OF c cc(1)], rule safe_put [OF c cc(2)],
      rule safe_put [OF c cc(2)], rule safe_put [OF c cc(2)], rule safe_put [OF c cc(2)])
    fix s1 b1 s2 b2 s3 b3 s4 d1 s5 d2 s6 d3 s7 d4
    assume de: "deserialize_value c b1 = Inr \<lparr>my_data = ''Value Alpha 1'', my_timestamp = 100\<rparr>"
      "deserialize_value c b2 = Inr \<lparr>my_data = ''Value Alpha 2'', my_timestamp = 101\<rparr>"
      "deserialize_value c b3 = Inr \<lparr>my_data = ''Value Beta 1'', my_timestamp = 102\<rparr>"
    assume v: "m_view M s1 = upd (m_view M s) CF_STRING_KEYS (as_bytes (KString (''alpha:'' @ ''1''))) (Some b1)"
      "m_view M s2 = upd (m_view M s1) CF_STRING_KEYS (as_bytes (KString (''alpha:'' @ ''2''))) (Some b2)"
      "m_view M s3 = upd (m_view M s2) CF_STRING_KEYS (as_bytes (KString (''beta:'' @ ''1''))) (Some b3)"
      "m_view M s4 = upd (m_view M s3) CF_CUSTOM_DATA (as_bytes (KString ''prefix_1_key_A'')) (Some d1)"
      "m_view M s5 = upd (m_view M s4) CF_CUSTOM_DATA (as_bytes (KString ''prefix_1_key_B'')) (Some d2)"
      "m_view M s6 = upd (m_view M s5) CF_CUSTOM_DATA (as_bytes (KString ''prefix_2_key_C'')) (Some d3)"
      "m_view M s7 = upd (m_view M s6) CF_CUSTOM_DATA (as_bytes (KString ''another_key'')) (Some d4)"
    have "m_view M s7 CF_STRING_KEYS
        = map_of [(str_bytes ''alpha:1'', b1), (str_bytes ''alpha:2'', b2), (str_bytes ''beta:1'', b3)]"
      "m_view M s7 CF_CUSTOM_DATA = map_of [(str_bytes ''another_key'', d4), (str_bytes ''prefix_1_key_A'', d1),
         (str_bytes ''prefix_1_key_B'', d2), (str_bytes ''prefix_2_key_C'', d3)]"
      using empty by (auto simp: v upd_def empty_family_def CF_STRING_KEYS_def CF_CUSTOM_DATA_def fun_eq_iff)
    then show "ends pan Q (k s7)"
      by (intro next_part [OF de]) (simp_all add: is_rows_def str_bytes_def)
  qed
qed

text \<open>What the four loops of the example print.\<close>

definition iteration_prints ::
    "(string \<times> my_value) list \<Rightarrow> kv list \<Rightarrow> int \<Rightarrow> (string \<times> my_value) list \<Rightarrow> bool" where
  "iteration_prints items raw_items visited last_items \<longleftrightarrow>
     items = [(''alpha:1'', \<lparr>my_data = ''Value Alpha 1'', my_timestamp = 100\<rparr>),
       (''alpha:2'', \<lparr>my_data = ''Value Alpha 2'', my_timestamp = 101\<rparr>),
       (''beta:1'', \<lparr>my_data = ''Value Beta 1'', my_timestamp = 102\<rparr>)]
   \<and> map fst raw_items = [str_bytes ''prefix_1_key_A'', str_bytes ''prefix_1_key_B'']
   \<and> visited = 2 \<and> last_items = []"

lemma cf_store_iteration_safe:
  assumes c: "rocks_contract A M" "iter_contract A M" "rows_only A" and cc: "codec_ok c" "codec_ok strings"
    and dec: "keys_decode dec"
    and empty: "empty_family (m_view M s) CF_STRING_KEYS" "empty_family (m_view M s) CF_CUSTOM_DATA"
    and report: "\<And>items raw_items visited last_items s.
      iteration_prints items raw_items visited last_items \<Longrightarrow> ends pan Q (report items raw_items visited last_items s)"
  shows "ends pan Q (cf_store_iteration_main A dec c strings s report)"
  unfolding cf_store_iteration_main_def
proof (rule safe_iteration_populate [OF c(1) cc empty])
  fix s1 b1 b2 b3 d1 d2 d3 d4
  assume de: "deserialize_value c b1 = Inr \<lparr>my_data = ''Value Alpha 1'', my_timestamp = 100\<rparr>"
    "deserialize_value c b2 = Inr \<lparr>my_data = ''Value Alpha 2'', my_timestamp = 101\<rparr>"
    "deserialize_value c b3 = Inr \<lparr>my_data = ''Value Beta 1'', my_timestamp = 102\<rparr>"
    and rows: "is_rows (m_view M s1 CF_STRING_KEYS)
        [(str_bytes ''alpha:1'', b1), (str_bytes ''alpha:2'', b2), (str_bytes ''beta:1'', b3)]"
      "is_rows (m_view M s1 CF_CUSTOM_DATA)
        [(str_bytes ''another_key'', d4), (str_bytes ''prefix_1_key_A'', d1), (str_bytes ''prefix_1_key_B'', d2),
         (str_bytes ''prefix_2_key_C'', d3)]"
  have kv: "deserialize_kv dec c (str_bytes i) bs = Inr (i, v)" if "deserialize_value c bs = Inr v" for i bs v
    using dec that by (simp add: keys_decode_def deserialize_kv_def deserialize_key_def)
  show "ends pan Q (iteration_deserialize A dec c s1 (\<lambda>items. iteration_raw A s1 (\<lambda>raw_items.
      iteration_control_only A s1 (\<lambda>visited. iteration_reverse A dec c s1 (\<lambda>last_items.
        report items raw_items visited last_items s1)))))"
    by (rule safe_iteration_deserialize [OF c rows(1),
          where xs = "[(''alpha:1'', \<lparr>my_data = ''Value Alpha 1'', my_timestamp = 100\<rparr>),
            (''alpha:2'', \<lparr>my_data = ''Value Alpha 2'', my_timestamp = 101\<rparr>),
            (''beta:1'', \<lparr>my_data = ''Value Beta 1'', my_timestamp = 102\<rparr>)]"]
          safe_iteration_raw [OF c rows(2)] safe_iteration_control_only [OF c rows(1)]
          safe_iteration_reverse [OF c] report
        | (simp add: de kv; fail) | (simp add: iteration_prints_def str_bytes_def; fail))+
qed

section \<open>Properties\<close>

text \<open>
  C24: What \<open>cf_store_iteration\<close> prints. On any database whose iterators give rows, with its two column
  families empty at the start, the program does not panic, and when it ends without an error the typed
  loop has printed the three records in key order, the raw loop the two keys with the prefix, the control
  function has been called for two rows, and the last loop has printed nothing: \<open>Stop\<close> leaves out the row
  it is returned for, so "stop after 1 item" stops before the first.
\<close>

theorem cf_store_iteration_prints:
  assumes "rocks_contract A M" and "iter_contract A M" and "rows_only A" and "codec_ok c" and "codec_ok strings"
    and "keys_decode dec"
    and "empty_family (m_view M s) CF_STRING_KEYS" and "empty_family (m_view M s) CF_CUSTOM_DATA"
  shows "fst (cf_store_iteration_main A dec c strings s (\<lambda>items raw_items visited last_items s.
      assert_that s (iteration_prints items raw_items visited last_items) (done_with s))) \<noteq> Panicked"
proof -
  have "safe (\<lambda>_. True) (cf_store_iteration_main A dec c strings s (\<lambda>items raw_items visited last_items s.
      assert_that s (iteration_prints items raw_items visited last_items) (done_with s)))"
    by (rule cf_store_iteration_safe [OF assms]) (intro safe_assert safe_done TrueI)
  then show ?thesis by (simp add: ends_def)
qed

definition sample_my_values :: "my_value codec" where
  "sample_my_values = table_codec [(\<lparr>my_data = ''Value Alpha 1'', my_timestamp = 100\<rparr>, [1]),
     (\<lparr>my_data = ''Value Alpha 2'', my_timestamp = 101\<rparr>, [2]), (\<lparr>my_data = ''Value Beta 1'', my_timestamp = 102\<rparr>, [3])]"

definition sample_data :: "string codec" where
  "sample_data = table_codec [(''Data A'', [1]), (''Data B'', [2]), (''Data C'', [3]), (''Data D'', [4])]"

theorem cf_store_iteration_prints_witness:
  "fst (cf_store_iteration_main mem_api (\<lambda>bs. Inr (bytes_str bs)) sample_my_values sample_data
      (opened [''default'', CF_STRING_KEYS, CF_CUSTOM_DATA]) (\<lambda>items raw_items visited last_items s.
        assert_that s (iteration_prints items raw_items visited last_items) (done_with s))) \<noteq> Panicked"
proof -
  have rows: "rows_only mem_api" unfolding rows_only_def mem_api_simps by blast
  have codecs: "codec_ok sample_my_values" "codec_ok sample_data"
    by (simp_all add: sample_my_values_def sample_data_def codec_ok_table)
  have dec: "keys_decode (\<lambda>bs. Inr (bytes_str bs))" by (simp add: keys_decode_def)
  show ?thesis
    by (rule cf_store_iteration_prints [OF rocks_contract_mem iter_contract_mem rows codecs dec opened_empty opened_empty])
qed

end
