(* ===== verification/Retry.thy ===== *)
theory Retry
  imports Store_Error
begin

text \<open>
  \<open>src/tx/optimistic.rs\<close> and \<open>src/tx/policies.rs\<close>: the retry policies and the two execution loops of
  the optimistic transaction builder.

  The loop \<open>for i in 0..\<close> has no bound of its own, so it is a \<open>partial_function\<close> whose value \<open>None\<close>
  is a run that never returns. The transaction database is a parameter: \<open>txn_db\<close> holds the calls that
  the loop makes, over a world \<open>'s\<close> that contains the database, the state of the caller's closure and
  whatever other threads do in the meantime; sleeping is a call too. The locale \<open>bounded_retry\<close> says
  what a policy must promise for the loop to end; the two policies of the source provide it.
\<close>

section \<open>Policies\<close>

text \<open>\<open>RetryPolicy::should_retry\<close>: success means another attempt.\<close>

type_synonym 's retry_policy = "'s \<Rightarrow> store_error \<Rightarrow> usize \<Rightarrow> unit store_result \<times> 's"

record fixed_retry =
  max_attempts :: usize
  backoff :: nat

definition fixed_retry_default :: fixed_retry where
  "fixed_retry_default = \<lparr>max_attempts = 10, backoff = 10000000\<rparr>"

definition exhausted :: "usize \<Rightarrow> store_error \<Rightarrow> store_error" where
  "exhausted n err = Other (''Optimistic transaction failed after '' @ show_nat (unat n)
     @ '' attempts. Last error: '' @ display err)"

fun is_rocksdb :: "store_error \<Rightarrow> bool" where
  "is_rocksdb (RocksDb _) = True"
| "is_rocksdb _ = False"

text \<open>The duration is in nanoseconds; \<open>sleep\<close> lets the world move on.\<close>

definition fixed_should_retry :: "(nat \<Rightarrow> 's \<Rightarrow> 's) \<Rightarrow> fixed_retry \<Rightarrow> 's retry_policy" where
  "fixed_should_retry sleep self s err attempt =
     (if attempt \<ge> max_attempts self then (Inl (exhausted (max_attempts self) err), s)
      else if is_rocksdb err then
        (Inr (), if backoff self > 0 then sleep (backoff self) s else s)
      else (Inl (clone err), s))"

definition no_should_retry :: "'s retry_policy" where
  "no_should_retry s err attempt = (Inl (clone err), s)"

section \<open>The loops\<close>

text \<open>
  One transaction: \<open>tdb_begin\<close> with the snapshot flag; the caller's operation; \<open>tdb_commit\<close>, which
  consumes the transaction; \<open>tdb_drop\<close>, the destructor of a transaction that was not committed, which
  rolls it back.
\<close>

record ('s, 't) txn_db =
  tdb_begin :: "bool \<Rightarrow> 's \<Rightarrow> 't \<times> 's"
  tdb_commit :: "'t \<Rightarrow> 's \<Rightarrow> (rocks_error, unit) result \<times> 's"
  tdb_drop :: "'t \<Rightarrow> 's \<Rightarrow> 's"

type_synonym ('s, 't, 'a) txn_operation = "'t \<Rightarrow> 's \<Rightarrow> 'a store_result \<times> 't \<times> 's"

datatype ('a, 's) attempt = Finished "'a store_result" 's | Conflict rocks_error 's

text \<open>The body of the loop up to the policy: the operation once, and the commit if it succeeded.\<close>

definition try_once ::
    "('s, 't) txn_db \<Rightarrow> ('s, 't, 'a) txn_operation \<Rightarrow> bool \<Rightarrow> 's \<Rightarrow> ('a, 's) attempt" where
  "try_once D operation snapshot s =
     (case tdb_begin D snapshot s of
        (txn, s1) \<Rightarrow>
          (case operation txn s1 of
             (Inr result, txn1, s2) \<Rightarrow>
               (case tdb_commit D txn1 s2 of
                  (Inr _, s3) \<Rightarrow> Finished (Inr result) s3
                | (Inl e, s3) \<Rightarrow> Conflict e s3)
           | (Inl e, txn1, s2) \<Rightarrow> Finished (Inl e) (tdb_drop D txn1 s2)))"

partial_function (option) retry_loop ::
    "('s, 't) txn_db \<Rightarrow> 's retry_policy \<Rightarrow> ('s, 't, 'a) txn_operation \<Rightarrow> bool \<Rightarrow> usize \<Rightarrow> 's
     \<Rightarrow> ('a store_result \<times> 's) option" where
  "retry_loop D policy operation snapshot i s =
     (case try_once D operation snapshot s of
        Finished r s1 \<Rightarrow> Some (r, s1)
      | Conflict e s1 \<Rightarrow>
          (case policy s1 (RocksDb e) (i + 1) of
             (Inl err, s2) \<Rightarrow> Some (Inl err, s2)
           | (Inr _, s2) \<Rightarrow> retry_loop D policy operation snapshot (i + 1) s2))"

definition execute_with_snapshot ::
    "('s, 't) txn_db \<Rightarrow> 's retry_policy \<Rightarrow> ('s, 't, 'a) txn_operation \<Rightarrow> 's
     \<Rightarrow> ('a store_result \<times> 's) option" where
  "execute_with_snapshot D policy operation s = retry_loop D policy operation True 0 s"

definition execute_unisolated ::
    "('s, 't) txn_db \<Rightarrow> 's retry_policy \<Rightarrow> ('s, 't, 'a) txn_operation \<Rightarrow> 's
     \<Rightarrow> ('a store_result \<times> 's) option" where
  "execute_unisolated D policy operation s = retry_loop D policy operation False 0 s"

section \<open>Policies that end the loop\<close>

text \<open>
  \<open>bound\<close> is a number of attempts at which the policy no longer asks for another one after an error
  of the database; it fits the counter.
\<close>

lemma unat_less_2p: "unat (n :: usize) < 2 ^ 64"
  using unsigned_less [of n] by simp

lemma unat_Suc: "unat i + 1 < 2 ^ 64 \<Longrightarrow> unat (i + 1) = unat i + 1" for i :: usize
  using unat_word_ariths(1) [of i 1] by simp

locale bounded_retry =
  fixes policy :: "'s retry_policy" and bound :: nat
  assumes gives_up: "policy s (RocksDb e) n = (Inr (), s1) \<Longrightarrow> unat n < bound"
    and bound_fits: "bound < 2 ^ 64"
begin

lemma loop_returns:
  assumes "i = 0 \<or> unat i < bound"
  shows "\<exists>r s1. retry_loop D policy operation snapshot i s = Some (r, s1)"
  using assms
proof (induction "bound - unat i" arbitrary: i s rule: less_induct)
  case less
  show ?case
  proof (cases "try_once D operation snapshot s")
    case (Finished r s1)
    then show ?thesis by (subst retry_loop.simps) simp
  next
    case (Conflict e s1)
    obtain r s2 where p: "policy s1 (RocksDb e) (i + 1) = (r, s2)" by fastforce
    show ?thesis
    proof (cases r)
      case (Inl err)
      with Conflict p show ?thesis by (subst retry_loop.simps) simp
    next
      case (Inr u)
      then have again: "unat (i + 1) < bound" using p gives_up [of s1 e "i + 1" s2] by simp
      have "unat i < bound"
        using less.prems again by (cases "i = 0") auto
      then have "unat (i + 1) = unat i + 1"
        using bound_fits by (intro unat_Suc) simp
      with again less.hyps [of "i + 1" s2] have "\<exists>r s3. retry_loop D policy operation snapshot (i + 1) s2 = Some (r, s3)"
        by simp
      with Conflict p Inr show ?thesis by (subst retry_loop.simps) simp
    qed
  qed
qed

end

interpretation fixed: bounded_retry "fixed_should_retry sleep self" "unat (max_attempts self)"
  for sleep :: "nat \<Rightarrow> 's \<Rightarrow> 's" and self
proof
  show "fixed_should_retry sleep self s (RocksDb e) n = (Inr (), s1) \<Longrightarrow> unat n < unat (max_attempts self)"
    for s e n s1
    by (auto simp: fixed_should_retry_def not_le word_less_nat_alt split: if_splits)
  show "unat (max_attempts self) < 2 ^ 64"
    using unat_less_2p [of "max_attempts self"] by simp
qed

interpretation never: bounded_retry no_should_retry 1
  by unfold_locales (simp_all add: no_should_retry_def)

section \<open>What the fixed policy computes\<close>

text \<open>
  At most \<open>n + 1\<close> attempts, with \<open>pause\<close> between them; the result is that of the first attempt that
  finishes, or else the conflict of the last one.
\<close>

fun attempts ::
    "('s, 't) txn_db \<Rightarrow> ('s \<Rightarrow> 's) \<Rightarrow> ('s, 't, 'a) txn_operation \<Rightarrow> bool \<Rightarrow> nat \<Rightarrow> 's
     \<Rightarrow> ('a, 's) attempt" where
  "attempts D pause operation snapshot 0 s = try_once D operation snapshot s"
| "attempts D pause operation snapshot (Suc n) s =
     (case try_once D operation snapshot s of
        Finished r s1 \<Rightarrow> Finished r s1
      | Conflict e s1 \<Rightarrow> attempts D pause operation snapshot n (pause s1))"

definition pause_of :: "(nat \<Rightarrow> 's \<Rightarrow> 's) \<Rightarrow> fixed_retry \<Rightarrow> 's \<Rightarrow> 's" where
  "pause_of sleep self s = (if backoff self > 0 then sleep (backoff self) s else s)"

definition report :: "usize \<Rightarrow> ('a, 's) attempt \<Rightarrow> 'a store_result \<times> 's" where
  "report n x = (case x of Finished r s \<Rightarrow> (r, s) | Conflict e s \<Rightarrow> (Inl (exhausted n (RocksDb e)), s))"

lemma fixed_conflict:
  "fixed_should_retry sleep self s (RocksDb e) n
     = (if max_attempts self \<le> n then (Inl (exhausted (max_attempts self) (RocksDb e)), s)
        else (Inr (), pause_of sleep self s))"
  by (simp add: fixed_should_retry_def pause_of_def)

lemma retry_loop_fixed:
  assumes "unat i + n + 1 = max 1 (unat (max_attempts self))"
  shows "retry_loop D (fixed_should_retry sleep self) operation snapshot i s
    = Some (report (max_attempts self) (attempts D (pause_of sleep self) operation snapshot n s))"
  using assms
proof (induction n arbitrary: i s)
  case 0
  then have "unat (i + 1) = unat i + 1"
    using unat_less_2p [of "max_attempts self"] by (intro unat_Suc) simp
  with 0 have "max_attempts self \<le> i + 1" by (simp add: word_le_nat_alt)
  then show ?case
    by (subst retry_loop.simps)
       (simp add: fixed_conflict report_def split: attempt.splits)
next
  case (Suc n)
  then have i: "unat (i + 1) = unat i + 1"
    using unat_less_2p [of "max_attempts self"] by (intro unat_Suc) simp
  with Suc.prems have "\<not> max_attempts self \<le> i + 1" by (simp add: word_le_nat_alt)
  moreover have "unat (i + 1) + n + 1 = max 1 (unat (max_attempts self))" using i Suc.prems by simp
  note Suc.IH [OF this]
  ultimately show ?case
    by (subst retry_loop.simps, cases "try_once D operation snapshot s")
       (simp_all add: fixed_conflict report_def)
qed


section \<open>Properties\<close>

text \<open>
  C22: The loop with the fixed policy ends, and makes at most as many attempts as it is allowed.
  For any database, operation and number of attempts, \<open>execute_with_snapshot\<close> returns; what it returns is
  the result of the first of \<open>max 1 max_attempts\<close> attempts that commits or whose operation fails, the
  pause of the policy between them, and otherwise the exhaustion error around the last conflict.
\<close>

theorem fixed_retry_bounded:
  "execute_with_snapshot D (fixed_should_retry sleep self) operation s
     = Some (report (max_attempts self)
         (attempts D (pause_of sleep self) operation True (max 1 (unat (max_attempts self)) - 1) s))"
  unfolding execute_with_snapshot_def by (rule retry_loop_fixed) simp

text \<open>
  Every bounded policy ends both loops. For the fixed policy and for the policy that never retries,
  the two execution methods return on every database and operation.
\<close>

theorem policies_end_loops:
  "(\<exists>r. execute_unisolated D (fixed_should_retry sleep self) operation s = Some r)
   \<and> (\<exists>r. execute_with_snapshot D (fixed_should_retry sleep self) operation s = Some r)
   \<and> (\<exists>r. execute_unisolated D no_should_retry operation s = Some r)
   \<and> (\<exists>r. execute_with_snapshot D no_should_retry operation s = Some r)"
  using fixed.loop_returns [of 0] never.loop_returns [of 0]
  by (fastforce simp: execute_unisolated_def execute_with_snapshot_def)

text \<open>
  An error of the caller's operation ends the run at once. Whatever the policy is, when the operation
  of the current attempt fails, its own error is returned, nothing is committed, the policy is not
  asked and the transaction is dropped, which rolls it back.
\<close>

theorem operation_error_not_retried:
  assumes "tdb_begin D snapshot s = (txn, s1)" and "operation txn s1 = (Inl e, txn1, s2)"
  shows "retry_loop D policy operation snapshot i s = Some (Inl e, tdb_drop D txn1 s2)"
  using assms by (subst retry_loop.simps) (simp add: try_once_def)

text \<open>A database of counters: the commit conflicts while the first counter is positive.\<close>

definition counting_db :: "(nat \<times> nat, unit) txn_db" where
  "counting_db = \<lparr>
     tdb_begin = (\<lambda>snapshot s. ((), s)),
     tdb_commit = (\<lambda>txn (left, made).
       if left = 0 then (Inr (), (left, made + 1)) else (Inl ''Busy'', (left - 1, made + 1))),
     tdb_drop = (\<lambda>txn s. s)\<rparr>"

theorem operation_error_not_retried_witness:
  "retry_loop counting_db no_should_retry (\<lambda>txn s. (Inl TransactionRequired, txn, s)) True 0 (2, 0)
     = Some (Inl TransactionRequired, (2, 0))"
  using operation_error_not_retried [of counting_db True "(2, 0)" "()" "(2, 0)"
      "\<lambda>txn s. (Inl TransactionRequired, txn, s)" TransactionRequired "()" "(2, 0)" no_should_retry 0]
  by (simp add: counting_db_def)

text \<open>
  A conflict that persists is reported after the last allowed attempt. If every commit fails, the fixed
  policy ends with an \<open>Other\<close> error that names \<open>max_attempts\<close>, also when that number is 0 although one
  attempt was then made, and that carries the text of the error of the last commit.
\<close>

theorem persistent_conflict:
  assumes "\<And>s. \<exists>e s1. try_once D operation True s = Conflict e s1"
  shows "\<exists>e s1. execute_with_snapshot D (fixed_should_retry sleep self) operation s
    = Some (Inl (Other (''Optimistic transaction failed after '' @ show_nat (unat (max_attempts self))
        @ '' attempts. Last error: RocksDB operation failed: '' @ e)), s1)"
proof -
  have "\<exists>e s1. attempts D pause operation True n s = Conflict e s1" for pause n
  proof (induction n arbitrary: s)
    case 0
    then show ?case using assms [of s] by simp
  next
    case (Suc n)
    obtain e s1 where "try_once D operation True s = Conflict e s1" using assms [of s] by blast
    with Suc [of "pause s1"] show ?case by simp
  qed
  then obtain e s1 where "attempts D (pause_of sleep self) operation True
      (max 1 (unat (max_attempts self)) - 1) s = Conflict e s1" by blast
  then show ?thesis
    unfolding execute_with_snapshot_def
    by (subst retry_loop_fixed [where n = "max 1 (unat (max_attempts self)) - 1"])
       (auto simp: report_def exhausted_def)
qed


definition busy_db :: "(nat, unit) txn_db" where
  "busy_db = \<lparr>
     tdb_begin = (\<lambda>snapshot s. ((), s)),
     tdb_commit = (\<lambda>txn s. (Inl ''Busy'', s + 1)),
     tdb_drop = (\<lambda>txn s. s)\<rparr>"

theorem persistent_conflict_witness:
  "\<exists>e s1. execute_with_snapshot busy_db
      (fixed_should_retry (\<lambda>_ s. s) \<lparr>max_attempts = 0, backoff = 0\<rparr>) (\<lambda>txn s. (Inr (), txn, s)) 0
    = Some (Inl (Other (''Optimistic transaction failed after '' @ show_nat 0
        @ '' attempts. Last error: RocksDB operation failed: '' @ e)), s1)"
proof -
  have "\<exists>e s1. try_once busy_db (\<lambda>txn s. (Inr (), txn, s)) True s = Conflict e s1" for s
    by (simp add: try_once_def busy_db_def)
  from persistent_conflict [OF this, of "\<lambda>_ s. s" "\<lparr>max_attempts = 0, backoff = 0\<rparr>" 0]
  show ?thesis by simp
qed

text \<open>
  Progress. Suppose that a conflict means that some rival has come through, so that the number of the
  rivals is smaller at the next attempt, and that the caller's operation itself does not fail. Then the
  run commits, provided that there are fewer rivals at the start than attempts.
\<close>

theorem rivals_pass:
  fixes rivals :: "'s \<Rightarrow> nat"
  assumes "\<And>s e s1. try_once D operation True s = Conflict e s1 \<Longrightarrow> rivals (pause_of sleep self s1) < rivals s"
    and "\<And>s r s1. try_once D operation True s = Finished r s1 \<Longrightarrow> \<exists>a. r = Inr a"
    and "rivals s < max 1 (unat (max_attempts self))"
  shows "\<exists>a s1. execute_with_snapshot D (fixed_should_retry sleep self) operation s = Some (Inr a, s1)"
proof -
  have "\<exists>a s1. attempts D (pause_of sleep self) operation True n s = Finished (Inr a) s1" if "rivals s \<le> n" for n
    using that
  proof (induction n arbitrary: s)
    case 0
    then show ?case using assms(1,2) [of s] by (cases "try_once D operation True s") auto
  next
    case (Suc n)
    show ?case
    proof (cases "try_once D operation True s")
      case (Conflict e s1)
      with assms(1) [OF Conflict] Suc show ?thesis by simp
    qed (use assms(2) in auto)
  qed
  moreover have "rivals s \<le> max 1 (unat (max_attempts self)) - 1" using assms(3) by simp
  ultimately obtain a s1 where "attempts D (pause_of sleep self) operation True
      (max 1 (unat (max_attempts self)) - 1) s = Finished (Inr a) s1" by blast
  then show ?thesis
    unfolding execute_with_snapshot_def
    by (subst retry_loop_fixed [where n = "max 1 (unat (max_attempts self)) - 1"]) (simp_all add: report_def)
qed

theorem rivals_pass_witness:
  "\<exists>a s1. execute_with_snapshot counting_db (fixed_should_retry (\<lambda>_ s. s) \<lparr>max_attempts = 3, backoff = 5\<rparr>)
     (\<lambda>txn s. (Inr (7 :: nat), txn, s)) (2, 0) = Some (Inr a, s1)"
proof (rule rivals_pass [where rivals = fst])
  fix s r s1
  assume "try_once counting_db (\<lambda>txn s. (Inr (7 :: nat), txn, s)) True s = Finished r s1"
  then show "\<exists>a. r = Inr a"
    by (cases s) (auto simp: try_once_def counting_db_def split: if_splits)
next
  fix s e s1
  assume "try_once counting_db (\<lambda>txn s. (Inr (7 :: nat), txn, s)) True s = Conflict e s1"
  then show "fst (pause_of (\<lambda>_ s. s) \<lparr>max_attempts = 3, backoff = 5\<rparr> s1) < fst s"
    by (cases s) (auto simp: try_once_def counting_db_def pause_of_def split: if_splits)
qed simp

end
