(* ===== verification/Conflict_Detection.thy ===== *)
theory Conflict_Detection
  imports Retry Opt_Context
begin

text \<open>
  Transactions of several threads on one database. The closure that a caller gives to
  \<open>execute_with_snapshot\<close>, \<open>execute_unisolated\<close> (\<open>src/tx/optimistic.rs\<close>) or
  \<open>execute_transaction\<close> (\<open>src/tx/cf_tx_store.rs\<close>) becomes a program that makes one call of the
  transaction at a time, and the retry loop becomes a machine that makes one step at a time, so that
  steps of other threads fit in between. Run alone, the machine is the loop of \<open>Retry\<close>.

  The conflict detection is that of RocksDB, a parameter: \<open>detects_conflicts\<close> says what its
  documentation promises of a transaction that is begun with or without a snapshot.
\<close>

section \<open>Closures as programs\<close>

text \<open>The writes that a closure may stage, on the handles that it has looked up.\<close>

datatype 'h txn_write =
    PutW "'h target" bytes bytes
  | MergeW "'h target" bytes bytes
  | DeleteW "'h target" bytes

fun as_op :: "'h txn_write \<Rightarrow> 'h batch_op" where
  "as_op (PutW t k v) = BPut t k v"
| "as_op (MergeW t k x) = BMerge t k x"
| "as_op (DeleteW t k) = BDelete t k"

type_synonym cell = "string \<times> bytes"

fun written :: "('w, 'h) rocks_meaning \<Rightarrow> 'h txn_write \<Rightarrow> cell" where
  "written M (PutW t k v) = (target_name M t, k)"
| "written M (MergeW t k x) = (target_name M t, k)"
| "written M (DeleteW t k) = (target_name M t, k)"

fun call_write :: "('w, 'h) rocks_api \<Rightarrow> 'h txn_write \<Rightarrow> 'w \<Rightarrow> 'w effect" where
  "call_write A (PutW t k v) w = api_put A w t k v"
| "call_write A (MergeW t k x) w = api_merge A w t k x"
| "call_write A (DeleteW t k) w = api_delete A w t k"

text \<open>
  A closure returns, or reads a key and goes on with what the read gave, or stages a write and goes on
  with what the call reported.
\<close>

datatype ('h, 'a) body =
    Done "'a store_result"
  | Read "'h target" bytes "(rocks_error, bytes option) result \<Rightarrow> ('h, 'a) body"
  | Write "'h txn_write" "(rocks_error, unit) result \<Rightarrow> ('h, 'a) body"

text \<open>The closure as the loop calls it, with nothing in between.\<close>

primrec run_body :: "('t \<times> 's, 'h) rocks_api \<Rightarrow> ('h, 'a) body \<Rightarrow> ('s, 't, 'a) txn_operation" where
  "run_body A (Done r) = (\<lambda>t s. (r, t, s))"
| "run_body A (Read g k f) = (\<lambda>t s. run_body A (f (api_get A (t, s) g k)) t s)"
| "run_body A (Write x f) = (\<lambda>t s.
     case call_write A x (t, s) of (r, t1, s1) \<Rightarrow> run_body A (f r) t1 s1)"

section \<open>The loop as a machine\<close>

text \<open>
  Where a thread is: before attempt \<open>i\<close>; in the closure of attempt \<open>i\<close>, with its transaction and what is
  left of the closure; after a commit that failed; at the end.
\<close>

datatype ('t, 'h, 'a) thread =
    Starting usize
  | Running usize 't "('h, 'a) body"
  | Conflicted usize rocks_error
  | Returned "'a store_result"

fun thread_step ::
    "('s, 't) txn_db \<Rightarrow> ('t \<times> 's, 'h) rocks_api \<Rightarrow> 's retry_policy \<Rightarrow> bool \<Rightarrow> ('h, 'a) body
     \<Rightarrow> ('t, 'h, 'a) thread \<Rightarrow> 's \<Rightarrow> ('t, 'h, 'a) thread \<times> 's" where
  "thread_step D A policy snapshot operation (Starting i) s =
     (case tdb_begin D snapshot s of (txn, s1) \<Rightarrow> (Running i txn operation, s1))"
| "thread_step D A policy snapshot operation (Running i txn (Read g k f)) s =
     (Running i txn (f (api_get A (txn, s) g k)), s)"
| "thread_step D A policy snapshot operation (Running i txn (Write x f)) s =
     (case call_write A x (txn, s) of (r, txn1, s1) \<Rightarrow> (Running i txn1 (f r), s1))"
| "thread_step D A policy snapshot operation (Running i txn (Done (Inr result))) s =
     (case tdb_commit D txn s of
        (Inr _, s1) \<Rightarrow> (Returned (Inr result), s1)
      | (Inl e, s1) \<Rightarrow> (Conflicted i e, s1))"
| "thread_step D A policy snapshot operation (Running i txn (Done (Inl e))) s =
     (Returned (Inl e), tdb_drop D txn s)"
| "thread_step D A policy snapshot operation (Conflicted i e) s =
     (case policy s (RocksDb e) (i + 1) of
        (Inl err, s1) \<Rightarrow> (Returned (Inl err), s1)
      | (Inr _, s1) \<Rightarrow> (Starting (i + 1), s1))"
| "thread_step D A policy snapshot operation (Returned r) s = (Returned r, s)"

definition run_alone ::
    "('s, 't) txn_db \<Rightarrow> ('t \<times> 's, 'h) rocks_api \<Rightarrow> 's retry_policy \<Rightarrow> bool \<Rightarrow> ('h, 'a) body \<Rightarrow> nat
     \<Rightarrow> ('t, 'h, 'a) thread \<times> 's \<Rightarrow> ('t, 'h, 'a) thread \<times> 's" where
  "run_alone D A policy snapshot operation n =
     (\<lambda>(th, s). thread_step D A policy snapshot operation th s) ^^ n"

section \<open>The machine run alone is the loop\<close>

lemma run_alone_0 [simp]: "run_alone D A policy snapshot b 0 c = c"
  by (simp add: run_alone_def)

lemma run_alone_Suc:
  "run_alone D A policy snapshot b (Suc n) (th, s)
     = run_alone D A policy snapshot b n (thread_step D A policy snapshot b th s)"
  by (simp add: run_alone_def funpow_swap1)

lemma run_alone_add:
  "run_alone D A policy snapshot b (m + n) c
     = run_alone D A policy snapshot b n (run_alone D A policy snapshot b m c)"
  by (simp add: run_alone_def funpow_add funpow_swap1 comp_def add.commute [of m n])

lemma run_alone_Returned [simp]:
  "run_alone D A policy snapshot b n (Returned r, s) = (Returned r, s)"
  by (induction n) (simp_all add: run_alone_Suc)

lemma run_alone_stays:
  assumes "run_alone D A policy snapshot b n c = (Returned r, s)" and "n \<le> m"
  shows "run_alone D A policy snapshot b m c = (Returned r, s)"
  using run_alone_add [of D A policy snapshot b n "m - n" c] assms by simp

lemma run_alone_body:
  "\<exists>n. run_alone D A policy snapshot b0 n (Running i t b, s)
     = (case run_body A b t s of (r, t1, s1) \<Rightarrow> (Running i t1 (Done r), s1))"
proof (induction b arbitrary: t s)
  case (Done r)
  show ?case by (rule exI [of _ 0]) simp
next
  case (Read g k f)
  obtain n where "run_alone D A policy snapshot b0 n (Running i t (f (api_get A (t, s) g k)), s)
      = (case run_body A (f (api_get A (t, s) g k)) t s of (r, t1, s1) \<Rightarrow> (Running i t1 (Done r), s1))"
    using Read.IH [of "f (api_get A (t, s) g k)" t s] by auto
  then show ?case by (intro exI [of _ "Suc n"]) (simp add: run_alone_Suc)
next
  case (Write x f)
  obtain r t1 s1 where w: "call_write A x (t, s) = (r, t1, s1)" using prod_cases3 by blast
  obtain n where "run_alone D A policy snapshot b0 n (Running i t1 (f r), s1)
      = (case run_body A (f r) t1 s1 of (r, t1, s1) \<Rightarrow> (Running i t1 (Done r), s1))"
    using Write.IH [of "f r" t1 s1] by auto
  with w show ?case by (intro exI [of _ "Suc n"]) (simp add: run_alone_Suc)
qed

text \<open>One attempt of the loop, up to the policy.\<close>

lemma run_alone_attempt:
  "\<exists>n. run_alone D A policy snapshot b n (Starting i, s)
     = (case try_once D (run_body A b) snapshot s of
          Finished r s1 \<Rightarrow> (Returned r, s1)
        | Conflict e s1 \<Rightarrow> (Conflicted i e, s1))"
proof -
  obtain t s1 where new: "tdb_begin D snapshot s = (t, s1)" by fastforce
  obtain r t1 s2 where body: "run_body A b t s1 = (r, t1, s2)" using prod_cases3 by blast
  obtain n where n: "run_alone D A policy snapshot b n (Running i t b, s1) = (Running i t1 (Done r), s2)"
    using run_alone_body [of D A policy snapshot b i t b s1] body by auto
  have "run_alone D A policy snapshot b (Suc (n + 1)) (Starting i, s)
      = thread_step D A policy snapshot b (Running i t1 (Done r)) s2"
    by (simp only: run_alone_Suc thread_step.simps new prod.case run_alone_add n)
       (simp only: One_nat_def run_alone_Suc run_alone_0)
  then show ?thesis
    by (intro exI [of _ "Suc (n + 1)"], cases r)
       (simp_all add: try_once_def new body split: sum.splits prod.splits)
qed

lemma loop_to_machine:
  fixes D :: "('s, 't) txn_db" and b :: "('h, 'a) body"
  assumes "retry_loop D policy (run_body A b) snapshot i s = Some (r, s1)"
  shows "\<exists>n. run_alone D A policy snapshot b n (Starting i, s) = (Returned r, s1)"
proof -
  define P where "P = (\<lambda>D policy operation snapshot i s (y :: 'a store_result \<times> 's).
    operation = run_body A b \<longrightarrow> (\<exists>n. run_alone D A policy snapshot b n (Starting i, s) = (Returned (fst y), snd y)))"
  have "P D policy (run_body A b) snapshot i s (r, s1)"
  proof (rule retry_loop.raw_induct [OF _ assms])
    fix loop :: "('s, 't) txn_db \<Rightarrow> 's retry_policy \<Rightarrow> ('s, 't, 'a) txn_operation \<Rightarrow> bool \<Rightarrow> usize \<Rightarrow> 's
        \<Rightarrow> ('a store_result \<times> 's) option" and D policy operation snapshot i s y
    assume IH: "\<And>D policy operation snapshot i s y.
          loop D policy operation snapshot i s = Some y \<Longrightarrow> P D policy operation snapshot i s y"
      and y: "(case try_once D operation snapshot s of
          Finished r s1 \<Rightarrow> Some (r, s1)
        | Conflict e s1 \<Rightarrow> (case policy s1 (RocksDb e) (i + 1) of
              (Inl err, s2) \<Rightarrow> Some (Inl err, s2)
            | (Inr _, s2) \<Rightarrow> loop D policy operation snapshot (i + 1) s2)) = Some y"
    let ?run = "run_alone D A policy snapshot b"
    show "P D policy operation snapshot i s y" unfolding P_def
    proof
      assume op1: "operation = run_body A b"
      obtain n where n: "?run n (Starting i, s) = (case try_once D operation snapshot s of
            Finished r s1 \<Rightarrow> (Returned r, s1) | Conflict e s1 \<Rightarrow> (Conflicted i e, s1))"
        using run_alone_attempt [of D A policy snapshot b i s] unfolding op1 by auto
      show "\<exists>n. ?run n (Starting i, s) = (Returned (fst y), snd y)"
      proof (cases "try_once D operation snapshot s")
        case (Finished r1 s1)
        with n y show ?thesis by auto
      next
        case (Conflict e s1)
        obtain q s2 where p: "policy s1 (RocksDb e) (i + 1) = (q, s2)" by fastforce
        have n1: "?run (n + 1) (Starting i, s)
            = (case q of Inl err \<Rightarrow> (Returned (Inl err), s2) | Inr _ \<Rightarrow> (Starting (i + 1), s2))"
          unfolding run_alone_add using n Conflict p by (simp add: run_alone_Suc split: sum.splits)
        show ?thesis
        proof (cases q)
          case (Inl err)
          then have "y = (Inl err, s2)" using y Conflict p by simp
          with n1 Inl show ?thesis by (intro exI [of _ "n + 1"]) simp
        next
          case (Inr u)
          then have "loop D policy operation snapshot (i + 1) s2 = Some y" using y Conflict p by simp
          from IH [OF this, unfolded P_def] op1
          obtain m where "?run m (Starting (i + 1), s2) = (Returned (fst y), snd y)" by blast
          with n1 Inr have "?run (n + 1 + m) (Starting i, s) = (Returned (fst y), snd y)"
            by (simp only: run_alone_add sum.case)
          then show ?thesis by blast
        qed
      qed
    qed
  qed
  then show ?thesis by (simp add: P_def)
qed

lemma machine_to_loop:
  "run_alone D A policy snapshot b n (Starting i, s) = (Returned r, s1) \<Longrightarrow>
     retry_loop D policy (run_body A b) snapshot i s = Some (r, s1)"
proof (induction n arbitrary: i s rule: less_induct)
  case (less n)
  let ?run = "run_alone D A policy snapshot b"
  obtain m where m: "?run m (Starting i, s) = (case try_once D (run_body A b) snapshot s of
        Finished r s1 \<Rightarrow> (Returned r, s1) | Conflict e s1 \<Rightarrow> (Conflicted i e, s1))"
    using run_alone_attempt [of D A policy snapshot b i s] by auto
  have late: "?run k (Starting i, s) = (Returned r, s1)" if "n \<le> k" for k
    using run_alone_stays [OF less.prems that] .
  show ?case
  proof (cases "try_once D (run_body A b) snapshot s")
    case (Finished r1 s2)
    with m have "?run m (Starting i, s) = (Returned r1, s2)" by simp
    from run_alone_stays [OF this max.cobounded2 [of m n]] have "r1 = r \<and> s2 = s1" unfolding late [OF max.cobounded1] by simp
    then show ?thesis by (subst retry_loop.simps) (simp add: Finished)
  next
    case (Conflict e s2)
    obtain q s3 where p: "policy s2 (RocksDb e) (i + 1) = (q, s3)" by fastforce
    have m1: "?run (Suc m) (Starting i, s)
        = (case q of Inl err \<Rightarrow> (Returned (Inl err), s3) | Inr _ \<Rightarrow> (Starting (i + 1), s3))"
      using run_alone_add [of D A policy snapshot b m 1 "(Starting i, s)"] m Conflict p
      by (auto simp: run_alone_Suc split: sum.splits)
    show ?thesis
    proof (cases q)
      case (Inl err)
      with m1 have "?run (Suc m) (Starting i, s) = (Returned (Inl err), s3)" by simp
      from run_alone_stays [OF this max.cobounded2 [of "Suc m" n]] have "r = Inl err \<and> s3 = s1" unfolding late [OF max.cobounded1] by simp
      then show ?thesis by (subst retry_loop.simps) (simp add: Conflict p Inl)
    next
      case (Inr u)
      then have m2: "?run (Suc m) (Starting i, s) = (Starting (i + 1), s3)" using m1 by simp
      have "Suc m < n" using late [of "Suc m"] m2 by (cases "n \<le> Suc m") simp_all
      moreover have "?run (n - Suc m) (Starting (i + 1), s3) = (Returned r, s1)"
        using run_alone_add [of D A policy snapshot b "Suc m" "n - Suc m" "(Starting i, s)"]
          less.prems m2 \<open>Suc m < n\<close> by simp
      ultimately have "retry_loop D policy (run_body A b) snapshot (i + 1) s3 = Some (r, s1)"
        by (intro less.IH [of "n - Suc m"]) simp_all
      then show ?thesis by (subst retry_loop.simps) (simp add: Conflict p Inr)
    qed
  qed
qed

section \<open>The transaction of the pessimistic store\<close>

text \<open>
  \<open>execute_transaction\<close> works on one world with the transaction in it; \<open>life_of\<close> are the calls of a
  database of the loop on such a world, begun without a snapshot as the store begins them.
\<close>

definition life_of :: "('s, 't) txn_db \<Rightarrow> bool \<Rightarrow> ('t \<times> 's) txn_life" where
  "life_of D snapshot = \<lparr>
     life_begin = (\<lambda>w. tdb_begin D snapshot (snd w)),
     life_commit = (\<lambda>(txn, s). case tdb_commit D txn s of (r, s1) \<Rightarrow> (r, (txn, s1))),
     life_rollback = (\<lambda>(txn, s). (Inr (), (txn, tdb_drop D txn s)))\<rparr>"

definition on_world :: "('s, 't, 'a) txn_operation \<Rightarrow> 't \<times> 's \<Rightarrow> 'a store_result \<times> 't \<times> 's" where
  "on_world operation w = operation (fst w) (snd w)"

lemma execute_transaction_loop:
  "retry_loop D no_should_retry operation False i s
     = Some (case execute_transaction (life_of D False) (on_world operation) (t, s) of (r, w) \<Rightarrow> (r, snd w))"
  by (subst retry_loop.simps)
     (auto simp: try_once_def execute_transaction_def begin_transaction_def life_of_def on_world_def
       no_should_retry_def Let_def split: prod.splits sum.splits)

section \<open>Conflict detection\<close>

text \<open>
  What a database records: its view, the sequence number of the last write, and for each key the number
  of the last write to it. What a transaction records: the writes staged in it, for each key that it
  tracks the number from which on a foreign write to it is a conflict, and its snapshot.
\<close>

record ('s, 't, 'h) tracking =
  tr_view :: "'s \<Rightarrow> kv_view"
  tr_seq :: "'s \<Rightarrow> nat"
  tr_stamp :: "'s \<Rightarrow> cell \<Rightarrow> nat"
  tr_ops :: "'t \<Rightarrow> 'h batch_op list"
  tr_base :: "'t \<Rightarrow> cell \<Rightarrow> nat option"
  tr_snap :: "'t \<Rightarrow> nat option"

definition untouched :: "('s, 't, 'h) tracking \<Rightarrow> 's \<Rightarrow> 's \<Rightarrow> bool" where
  "untouched T s s1 \<longleftrightarrow> tr_view T s1 = tr_view T s \<and> tr_seq T s1 = tr_seq T s \<and> tr_stamp T s1 = tr_stamp T s"

text \<open>Later in the life of a database: a key whose last write is not new still has its value.\<close>

definition moved_on :: "('s, 't, 'h) tracking \<Rightarrow> 's \<Rightarrow> 's \<Rightarrow> bool" where
  "moved_on T s s1 \<longleftrightarrow> tr_seq T s \<le> tr_seq T s1
   \<and> (\<forall>cf k. tr_stamp T s1 (cf, k) \<le> tr_seq T s \<longrightarrow>
        tr_stamp T s1 (cf, k) = tr_stamp T s (cf, k) \<and> tr_view T s1 cf k = tr_view T s cf k)"

definition unchallenged :: "('s, 't, 'h) tracking \<Rightarrow> 't \<Rightarrow> 's \<Rightarrow> bool" where
  "unchallenged T t s \<longleftrightarrow> (\<forall>c b. tr_base T t c = Some b \<longrightarrow> tr_stamp T s c \<le> b)"

text \<open>
  A key is tracked when it is first written: from the snapshot on, or else from that moment on. (The
  pessimistic database holds a lock from that moment on, so there is no foreign write to detect.)
  A plain read tracks nothing and does not look at the snapshot: it shows the transaction's own writes
  over the present state of the database.
\<close>

definition tracked :: "('s, 't, 'h) tracking \<Rightarrow> 't \<Rightarrow> 's \<Rightarrow> cell \<Rightarrow> cell \<Rightarrow> nat option" where
  "tracked T t s c = (tr_base T t)(c \<mapsto>
     (case tr_base T t c of Some b \<Rightarrow> b | None \<Rightarrow>
       (case tr_snap T t of Some n \<Rightarrow> n | None \<Rightarrow> tr_seq T s)))"

definition begin_detects :: "('s, 't) txn_db \<Rightarrow> ('s, 't, 'h) tracking \<Rightarrow> bool" where
  "begin_detects D T \<longleftrightarrow> (\<forall>snapshot s t s1. tdb_begin D snapshot s = (t, s1) \<longrightarrow>
     untouched T s s1 \<and> tr_ops T t = [] \<and> tr_base T t = Map.empty
   \<and> tr_snap T t = (if snapshot then Some (tr_seq T s) else None))"

definition read_detects ::
    "('t \<times> 's, 'h) rocks_api \<Rightarrow> ('t \<times> 's, 'h) rocks_meaning \<Rightarrow> ('s, 't, 'h) tracking \<Rightarrow> bool" where
  "read_detects A M T \<longleftrightarrow> (\<forall>t s g k x. api_get A (t, s) g k = Inr x \<longrightarrow>
     x = apply_ops M (tr_view T s) (tr_ops T t) (target_name M g) k)"

definition write_detects ::
    "('t \<times> 's, 'h) rocks_api \<Rightarrow> ('t \<times> 's, 'h) rocks_meaning \<Rightarrow> ('s, 't, 'h) tracking \<Rightarrow> bool" where
  "write_detects A M T \<longleftrightarrow> (\<forall>x t s r t1 s1. call_write A x (t, s) = (r, t1, s1) \<longrightarrow>
     untouched T s s1 \<and> tr_snap T t1 = tr_snap T t
   \<and> (case r of
        Inr _ \<Rightarrow> tr_ops T t1 = tr_ops T t @ [as_op x] \<and> tr_base T t1 = tracked T t s (written M x)
      | Inl _ \<Rightarrow> tr_ops T t1 = tr_ops T t
          \<and> (tr_base T t1 = tr_base T t \<or> tr_base T t1 = tracked T t s (written M x))))"

definition commit_detects ::
    "('s, 't) txn_db \<Rightarrow> ('t \<times> 's, 'h) rocks_meaning \<Rightarrow> ('s, 't, 'h) tracking \<Rightarrow> bool" where
  "commit_detects D M T \<longleftrightarrow> (\<forall>t s r s1. tdb_commit D t s = (r, s1) \<longrightarrow>
     (case r of
        Inr _ \<Rightarrow> unchallenged T t s \<and> tr_view T s1 = apply_ops M (tr_view T s) (tr_ops T t) \<and> moved_on T s s1
      | Inl _ \<Rightarrow> untouched T s s1))"

definition detects_conflicts ::
    "('s, 't) txn_db \<Rightarrow> ('t \<times> 's, 'h) rocks_api \<Rightarrow> ('t \<times> 's, 'h) rocks_meaning
     \<Rightarrow> ('s, 't, 'h) tracking \<Rightarrow> bool" where
  "detects_conflicts D A M T \<longleftrightarrow>
     begin_detects D T \<and> read_detects A M T \<and> write_detects A M T \<and> commit_detects D M T
   \<and> (\<forall>t s. untouched T s (tdb_drop D t s)) \<and> (\<forall>s c. tr_stamp T s c \<le> tr_seq T s)"

text \<open>A database on which a commit fails for no other reason than a conflict.\<close>

definition only_conflicts :: "('s, 't) txn_db \<Rightarrow> ('s, 't, 'h) tracking \<Rightarrow> bool" where
  "only_conflicts D T \<longleftrightarrow> (\<forall>t s. unchallenged T t s \<longrightarrow> (\<exists>s1. tdb_commit D t s = (Inr (), s1)))"

text \<open>A policy that only decides and waits.\<close>

definition quiet :: "('s, 't, 'h) tracking \<Rightarrow> 's retry_policy \<Rightarrow> bool" where
  "quiet T policy \<longleftrightarrow> (\<forall>s e n. untouched T s (snd (policy s e n)))"

lemma detects_begin:
  assumes "detects_conflicts D A M T" and "tdb_begin D snapshot s = (t, s1)"
  shows "untouched T s s1 \<and> tr_ops T t = [] \<and> tr_base T t = Map.empty
    \<and> tr_snap T t = (if snapshot then Some (tr_seq T s) else None)"
  using assms by (simp only: detects_conflicts_def begin_detects_def)

lemma detects_read:
  assumes "detects_conflicts D A M T" and "api_get A (t, s) g k = Inr x"
  shows "x = apply_ops M (tr_view T s) (tr_ops T t) (target_name M g) k"
  using assms by (simp only: detects_conflicts_def read_detects_def)

lemma detects_write:
  assumes "detects_conflicts D A M T" and "call_write A x (t, s) = (r, t1, s1)"
  shows "untouched T s s1 \<and> tr_snap T t1 = tr_snap T t
    \<and> (case r of
         Inr _ \<Rightarrow> tr_ops T t1 = tr_ops T t @ [as_op x] \<and> tr_base T t1 = tracked T t s (written M x)
       | Inl _ \<Rightarrow> tr_ops T t1 = tr_ops T t
           \<and> (tr_base T t1 = tr_base T t \<or> tr_base T t1 = tracked T t s (written M x)))"
  using assms by (simp only: detects_conflicts_def write_detects_def)

lemma detects_commit:
  assumes "detects_conflicts D A M T" and "tdb_commit D t s = (Inr u, s1)"
  shows "unchallenged T t s \<and> tr_view T s1 = apply_ops M (tr_view T s) (tr_ops T t) \<and> moved_on T s s1"
  using assms by (fastforce simp: detects_conflicts_def commit_detects_def)

lemma detects_refusal:
  assumes "detects_conflicts D A M T" and "tdb_commit D t s = (Inl e, s1)"
  shows "untouched T s s1"
  using assms by (fastforce simp: detects_conflicts_def commit_detects_def)

lemma detects_drop: "detects_conflicts D A M T \<Longrightarrow> untouched T s (tdb_drop D t s)"
  by (simp add: detects_conflicts_def)

lemma detects_stamp: "detects_conflicts D A M T \<Longrightarrow> tr_stamp T s c \<le> tr_seq T s"
  by (cases c) (simp add: detects_conflicts_def)

lemma untouched_refl [simp, intro!]: "untouched T s s"
  by (simp add: untouched_def)

lemma untouched_view: "untouched T s s1 \<Longrightarrow> tr_view T s1 = tr_view T s"
  by (simp add: untouched_def)

lemma moved_on_refl [simp, intro!]: "moved_on T s s"
  by (simp add: moved_on_def)

lemma moved_on_untouched: "untouched T s s1 \<Longrightarrow> moved_on T s s1"
  by (simp add: untouched_def moved_on_def)

lemma moved_on_trans: "moved_on T s s1 \<Longrightarrow> moved_on T s1 s2 \<Longrightarrow> moved_on T s s2"
  unfolding moved_on_def by (metis order.trans)

lemma quiet_fixed: "(\<And>n s. untouched T s (sleep n s)) \<Longrightarrow> quiet T (fixed_should_retry sleep self)"
  by (simp add: quiet_def fixed_should_retry_def)

lemma quiet_no: "quiet T no_should_retry"
  by (simp add: quiet_def no_should_retry_def)

section \<open>An instance\<close>

text \<open>
  A database whose column families all exist, with the numbers written out; a commit takes the next
  number. A handle is a name.
\<close>

record occ_db =
  occ_view :: kv_view
  occ_seq :: nat
  occ_stamps :: "cell \<Rightarrow> nat"

record occ_txn =
  occ_staged :: "(string txn_write \<times> nat) list"
  occ_snap :: "nat option"

definition occ_meaning :: "(occ_txn \<times> occ_db, string) rocks_meaning" where
  "occ_meaning = \<lparr>
     m_name = (\<lambda>h. h),
     m_view = (\<lambda>(t, s). apply_ops mem_meaning (occ_view s) (map (as_op \<circ> fst) (occ_staged t))),
     m_merge = (\<lambda>cf k old x. Some (case old of None \<Rightarrow> x | Some e \<Rightarrow> e @ x))\<rparr>"

definition occ_ops :: "occ_txn \<Rightarrow> string batch_op list" where
  "occ_ops t = map (as_op \<circ> fst) (occ_staged t)"

definition occ_base :: "occ_txn \<Rightarrow> cell \<Rightarrow> nat option" where
  "occ_base t = map_of (map (\<lambda>(x, n). (written occ_meaning x, n)) (occ_staged t))"

definition occ_stamp :: "occ_db \<Rightarrow> cell \<Rightarrow> nat" where
  "occ_stamp s c = min (occ_stamps s c) (occ_seq s)"

definition occ_since :: "occ_txn \<Rightarrow> occ_db \<Rightarrow> cell \<Rightarrow> nat" where
  "occ_since t s c =
     (case occ_base t c of Some b \<Rightarrow> b | None \<Rightarrow> (case occ_snap t of Some n \<Rightarrow> n | None \<Rightarrow> occ_seq s))"

definition occ_stage :: "string txn_write \<Rightarrow> occ_txn \<times> occ_db \<Rightarrow> (occ_txn \<times> occ_db) effect" where
  "occ_stage x w =
     (Inr (), (fst w)\<lparr>occ_staged := occ_staged (fst w)
         @ [(x, occ_since (fst w) (snd w) (written occ_meaning x))]\<rparr>, snd w)"

definition occ_api :: "(occ_txn \<times> occ_db, string) rocks_api" where
  "occ_api = \<lparr>
     api_cf_handle = (\<lambda>w cf. Some cf),
     api_get = (\<lambda>w g k. Inr (apply_ops occ_meaning (occ_view (snd w)) (occ_ops (fst w)) (mem_target g) k)),
     api_multi_get = (\<lambda>w g ks. map (\<lambda>k. Inr (apply_ops occ_meaning (occ_view (snd w)) (occ_ops (fst w))
       (mem_target g) k)) ks),
     api_put = (\<lambda>w g k v. occ_stage (PutW g k v) w),
     api_merge = (\<lambda>w g k x. occ_stage (MergeW g k x) w),
     api_delete = (\<lambda>w g k. occ_stage (DeleteW g k) w),
     api_write = (\<lambda>w xs. (Inl ''Not supported'', w)),
     api_iterator = (\<lambda>w g m. [Inl ''Not supported'']),
     api_prefix_iterator = (\<lambda>w g p. [Inl ''Not supported''])\<rparr>"

definition occ_begin :: "bool \<Rightarrow> occ_db \<Rightarrow> occ_txn \<times> occ_db" where
  "occ_begin snapshot s = (\<lparr>occ_staged = [], occ_snap = (if snapshot then Some (occ_seq s) else None)\<rparr>, s)"

text \<open>The view after the staged writes, and the numbers of the keys that they write.\<close>

definition occ_write :: "string txn_write list \<Rightarrow> occ_db \<Rightarrow> occ_db" where
  "occ_write xs s =
     \<lparr>occ_view = apply_ops occ_meaning (occ_view s) (map as_op xs), occ_seq = occ_seq s + 1,
      occ_stamps = (\<lambda>c. if c \<in> written occ_meaning ` set xs then occ_seq s + 1 else occ_stamp s c)\<rparr>"

definition occ_commit :: "occ_txn \<Rightarrow> occ_db \<Rightarrow> (rocks_error, unit) result \<times> occ_db" where
  "occ_commit t s =
     (if list_all (\<lambda>x. occ_stamp s (written occ_meaning (fst x)) \<le> occ_since t s (written occ_meaning (fst x)))
           (occ_staged t)
      then (Inr (), occ_write (map fst (occ_staged t)) s)
      else (Inl ''Resource busy: '', s))"

definition occ_db_calls :: "(occ_db, occ_txn) txn_db" where
  "occ_db_calls = \<lparr>tdb_begin = occ_begin, tdb_commit = occ_commit, tdb_drop = (\<lambda>t s. s)\<rparr>"

definition occ_tracking :: "(occ_db, occ_txn, string) tracking" where
  "occ_tracking = \<lparr>tr_view = occ_view, tr_seq = occ_seq, tr_stamp = occ_stamp, tr_ops = occ_ops,
     tr_base = occ_base, tr_snap = occ_snap\<rparr>"

lemma occ_simps:
  "target_name occ_meaning g = mem_target g"
  "tr_view occ_tracking = occ_view" "tr_seq occ_tracking = occ_seq" "tr_stamp occ_tracking = occ_stamp"
  "tr_ops occ_tracking = occ_ops" "tr_base occ_tracking = occ_base" "tr_snap occ_tracking = occ_snap"
  by (cases g) (simp_all add: occ_meaning_def occ_tracking_def)

lemma dom_occ_base: "dom (occ_base t) = written occ_meaning ` fst ` set (occ_staged t)"
  by (force simp: occ_base_def dom_map_of_conv_image_fst)

lemma occ_unchallenged:
  "unchallenged occ_tracking t s \<longleftrightarrow>
     list_all (\<lambda>x. occ_stamp s (written occ_meaning (fst x)) \<le> occ_since t s (written occ_meaning (fst x)))
       (occ_staged t)"
proof -
  have "unchallenged occ_tracking t s \<longleftrightarrow> (\<forall>c \<in> dom (occ_base t). occ_stamp s c \<le> occ_since t s c)"
    unfolding unchallenged_def occ_simps occ_since_def
    by (auto simp del: split_paired_All dest: domD split: option.split)
  then show ?thesis by (simp add: dom_occ_base list_all_iff)
qed

lemma apply_op_elsewhere: "written M x \<noteq> (cf, k) \<Longrightarrow> apply_op M w (as_op x) cf k = w cf k"
  by (cases x) (auto simp: upd_other)

lemma apply_ops_elsewhere:
  "(cf, k) \<notin> written M ` set xs \<Longrightarrow> apply_ops M w (map as_op xs) cf k = w cf k"
  by (induction xs arbitrary: w) (auto simp: apply_ops_def apply_op_elsewhere)

lemma occ_moved_on: "moved_on occ_tracking s (occ_write xs s)"
  by (auto simp: moved_on_def occ_simps occ_write_def occ_stamp_def apply_ops_elsewhere)

lemma occ_commit_eq:
  "occ_commit t s = (if unchallenged occ_tracking t s
     then (Inr (), occ_write (map fst (occ_staged t)) s) else (Inl ''Resource busy: '', s))"
  by (simp add: occ_commit_def occ_unchallenged)

lemma occ_call_write: "call_write occ_api x w = occ_stage x w"
  by (cases x) (simp_all add: occ_api_def)

lemma occ_stage_tracks:
  "occ_stage x (t, s) = (r, t1, s1) \<Longrightarrow> r = Inr () \<and> s1 = s \<and> occ_snap t1 = occ_snap t
     \<and> occ_ops t1 = occ_ops t @ [as_op x] \<and> occ_base t1 = tracked occ_tracking t s (written occ_meaning x)"
  by (auto simp: occ_stage_def occ_ops_def occ_base_def tracked_def occ_since_def occ_simps fun_eq_iff
      map_add_def split: option.splits)

lemma occ_detects [simp]: "detects_conflicts occ_db_calls occ_api occ_meaning occ_tracking"
proof -
  have "begin_detects occ_db_calls occ_tracking"
    by (auto simp: begin_detects_def occ_db_calls_def occ_begin_def occ_simps occ_ops_def occ_base_def)
  moreover have "read_detects occ_api occ_meaning occ_tracking"
    by (simp add: read_detects_def occ_api_def occ_simps)
  moreover have "write_detects occ_api occ_meaning occ_tracking"
    by (auto simp: write_detects_def occ_call_write occ_simps dest: occ_stage_tracks)
  moreover have "commit_detects occ_db_calls occ_meaning occ_tracking"
    unfolding commit_detects_def
    by (auto simp: occ_db_calls_def occ_commit_eq occ_moved_on split: if_splits)
       (simp_all add: occ_simps occ_write_def occ_ops_def)
  ultimately show ?thesis
    by (simp add: detects_conflicts_def) (simp add: occ_db_calls_def occ_simps occ_stamp_def)
qed

lemma occ_only_conflicts [simp]: "only_conflicts occ_db_calls occ_tracking"
  by (simp add: only_conflicts_def occ_db_calls_def occ_commit_eq)

section \<open>Properties\<close>

text \<open>
  C13: The machine is the loop. A thread that is never interrupted comes to return a result in a state of
  the database exactly when the retry loop of \<open>src/tx/optimistic.rs\<close> returns it, for every database,
  closure, policy and mode; with the policy that never retries and no snapshot this is also
  \<open>execute_transaction\<close> of the pessimistic store.
\<close>

theorem machine_is_loop:
  fixes operation :: "('h, 'a) body"
  shows
  "(retry_loop D policy (run_body A operation) snapshot i s = Some (r, s1)
     \<longleftrightarrow> (\<exists>n. run_alone D A policy snapshot operation n (Starting i, s) = (Returned r, s1)))
   \<and> (\<exists>n. run_alone D A no_should_retry False operation n (Starting 0, s)
       = (case execute_transaction (life_of D False) (on_world (run_body A operation)) (t, s) of
            (r, w) \<Rightarrow> (Returned r, snd w)))"
proof
  show "retry_loop D policy (run_body A operation) snapshot i s = Some (r, s1)
     \<longleftrightarrow> (\<exists>n. run_alone D A policy snapshot operation n (Starting i, s) = (Returned r, s1))"
    by (rule iffI, erule loop_to_machine) (blast intro: machine_to_loop)
  obtain r1 w where r1: "execute_transaction (life_of D False) (on_world (run_body A operation)) (t, s) = (r1, w)"
    using prod.exhaust by blast
  then have "retry_loop D no_should_retry (run_body A operation) False 0 s = Some (r1, snd w)"
    by (simp add: execute_transaction_loop [where t = t])
  from loop_to_machine [OF this] r1
  show "\<exists>n. run_alone D A no_should_retry False operation n (Starting 0, s)
       = (case execute_transaction (life_of D False) (on_world (run_body A operation)) (t, s) of
            (r, w) \<Rightarrow> (Returned r, snd w))" by simp
qed

end
