(* ===== verification/Interleaving.thy ===== *)
theory Interleaving
  imports Conflict_Detection
begin

text \<open>
  Any number of threads run their transactions on one database at the same time: their machines of
  \<open>Conflict_Detection\<close> make their steps in any order, and between them writes that belong to no
  transaction change the database. A history records the commits and these writes in their order.

  The reference is a serial execution: the closures of the history one after the other, each alone. The
  theory shows when the interleaved execution is one, for the closures of the optimistic builder, with
  and without a snapshot, and for those of \<open>execute_transaction\<close>, and how often a thread can be
  refused.
\<close>

section \<open>The system\<close>

record ('s, 'h, 'a) program =
  prog_policy :: "'s retry_policy"
  prog_snapshot :: bool
  prog_body :: "('h, 'a) body"

datatype 'a event = Committed nat 'a | Outside "kv_view \<Rightarrow> kv_view"

type_synonym ('s, 't, 'h, 'a) system = "(nat \<Rightarrow> ('t, 'h, 'a) thread) \<times> 's \<times> 'a event list"

text \<open>The step from the end of a closure to a successful return is the commit.\<close>

fun commit_event :: "nat \<Rightarrow> ('t, 'h, 'a) thread \<Rightarrow> ('t, 'h, 'a) thread \<Rightarrow> 'a event list" where
  "commit_event i (Running j t (Done (Inr a))) (Returned r) = [Committed i a]"
| "commit_event i _ _ = []"

inductive interleaving ::
    "('s, 't) txn_db \<Rightarrow> ('t \<times> 's, 'h) rocks_api \<Rightarrow> ('s, 't, 'h) tracking \<Rightarrow> (nat \<Rightarrow> ('s, 'h, 'a) program)
     \<Rightarrow> 's \<Rightarrow> ('s, 't, 'h, 'a) system \<Rightarrow> bool"
  for D A T P s0 where
  start: "interleaving D A T P s0 (\<lambda>_. Starting 0, s0, [])"
| own: "interleaving D A T P s0 (ths, s, hist) \<Longrightarrow>
     thread_step D A (prog_policy (P i)) (prog_snapshot (P i)) (prog_body (P i)) (ths i) s = (th, s1) \<Longrightarrow>
     interleaving D A T P s0 (ths(i := th), s1, hist @ commit_event i (ths i) th)"
| outside: "interleaving D A T P s0 (ths, s, hist) \<Longrightarrow> tr_view T s1 = f (tr_view T s) \<Longrightarrow> moved_on T s s1 \<Longrightarrow>
     interleaving D A T P s0 (ths, s1, hist @ [Outside f])"

section \<open>Serial executions\<close>

text \<open>A closure alone on a database, whose calls may fail.\<close>

inductive alone_step ::
    "('w, 'h) rocks_meaning \<Rightarrow> ('h, 'a) body \<times> kv_view \<Rightarrow> ('h, 'a) body \<times> kv_view \<Rightarrow> bool"
  for M where
  reads: "alone_step M (Read g k f, w) (f (Inr (w (target_name M g) k)), w)"
| read_fails: "alone_step M (Read g k f, w) (f (Inl e), w)"
| stages: "alone_step M (Write x f, w) (f (Inr ()), apply_op M w (as_op x))"
| stage_fails: "alone_step M (Write x f, w) (f (Inl e), w)"

inductive_simps alone_step_simps: "alone_step M (Read g k f, w) c" "alone_step M (Write x f, w) c"
inductive_cases alone_DoneE [elim!]: "alone_step M (Done r, w) c"

definition alone ::
    "('w, 'h) rocks_meaning \<Rightarrow> ('h, 'a) body \<times> kv_view \<Rightarrow> ('h, 'a) body \<times> kv_view \<Rightarrow> bool" where
  "alone M = (alone_step M)\<^sup>*\<^sup>*"

definition executes ::
    "('w, 'h) rocks_meaning \<Rightarrow> ('h, 'a) body \<Rightarrow> kv_view \<Rightarrow> 'a \<Rightarrow> kv_view \<Rightarrow> bool" where
  "executes M b w a w1 \<longleftrightarrow> alone M (b, w) (Done (Inr a), w1)"

inductive serial ::
    "('w, 'h) rocks_meaning \<Rightarrow> (nat \<Rightarrow> ('s, 'h, 'a) program) \<Rightarrow> kv_view \<Rightarrow> 'a event list \<Rightarrow> kv_view \<Rightarrow> bool"
  for M P w where
  nothing: "serial M P w [] w"
| commits: "serial M P w hist w1 \<Longrightarrow> executes M (prog_body (P i)) w1 a w2 \<Longrightarrow>
     serial M P w (hist @ [Committed i a]) w2"
| writes: "serial M P w hist w1 \<Longrightarrow> serial M P w (hist @ [Outside f]) (f w1)"

fun commits_of :: "nat \<Rightarrow> 'a event list \<Rightarrow> 'a list" where
  "commits_of i [] = []"
| "commits_of i (Committed j a # hist) = (if i = j then a # commits_of i hist else commits_of i hist)"
| "commits_of i (Outside f # hist) = commits_of i hist"

section \<open>Closures that are protected\<close>

text \<open>
  \<open>R\<close> and \<open>W\<close> are the keys read and written so far. With a snapshot, a closure is protected when each
  key that it has read is written by the time it returns with success; without one, when it writes a
  key before it reads it.
\<close>

primrec protects ::
    "('w, 'h) rocks_meaning \<Rightarrow> bool \<Rightarrow> ('h, 'a) body \<Rightarrow> cell set \<Rightarrow> cell set \<Rightarrow> bool" where
  "protects M snapshot (Done r) = (\<lambda>R W. case r of Inr _ \<Rightarrow> R \<subseteq> W | Inl _ \<Rightarrow> True)"
| "protects M snapshot (Read g k f) = (\<lambda>R W.
     (snapshot \<or> (target_name M g, k) \<in> W)
   \<and> (\<forall>x. protects M snapshot (f x) (insert (target_name M g, k) R) W))"
| "protects M snapshot (Write x f) = (\<lambda>R W.
     protects M snapshot (f (Inr ())) R (insert (written M x) W) \<and> (\<forall>e. protects M snapshot (f (Inl e)) R W))"

text \<open>The number up to which the last write to a key may be, for the key to count as unchanged.\<close>

definition bound_of :: "('s, 't, 'h) tracking \<Rightarrow> 't \<Rightarrow> cell \<Rightarrow> nat" where
  "bound_of T t c = (case tr_base T t c of Some b \<Rightarrow> b | None \<Rightarrow>
     (case tr_snap T t of Some n \<Rightarrow> n | None \<Rightarrow> 0))"

definition covered :: "('s, 't, 'h) tracking \<Rightarrow> 't \<Rightarrow> cell \<Rightarrow> bool" where
  "covered T t c \<longleftrightarrow> tr_base T t c \<noteq> None \<or> tr_snap T t \<noteq> None"

text \<open>
  In the closure: wherever the database goes from here, as long as the keys seen so far stay unchanged,
  the closure alone would have come to the same point.
\<close>

definition replays ::
    "('w, 'h) rocks_meaning \<Rightarrow> ('s, 't, 'h) tracking \<Rightarrow> ('h, 'a) body \<Rightarrow> cell set \<Rightarrow> 't \<Rightarrow> ('h, 'a) body
     \<Rightarrow> 's \<Rightarrow> bool" where
  "replays M T b0 seen t b s \<longleftrightarrow>
     (\<forall>s1. moved_on T s s1 \<longrightarrow> (\<forall>c \<in> seen. tr_stamp T s1 c \<le> bound_of T t c) \<longrightarrow>
        alone M (b0, tr_view T s1) (b, apply_ops M (tr_view T s1) (tr_ops T t)))"

definition bounded :: "('s, 't, 'h) tracking \<Rightarrow> 't \<Rightarrow> 's \<Rightarrow> bool" where
  "bounded T t s \<longleftrightarrow> (\<forall>c. bound_of T t c \<le> tr_seq T s)"

definition running_ok ::
    "('w, 'h) rocks_meaning \<Rightarrow> ('s, 't, 'h) tracking \<Rightarrow> ('s, 'h, 'a) program \<Rightarrow> 't \<Rightarrow> ('h, 'a) body \<Rightarrow> 's \<Rightarrow> bool" where
  "running_ok M T p t b s \<longleftrightarrow>
     (\<exists>R W. protects M (prog_snapshot p) b R W \<and> W \<subseteq> dom (tr_base T t) \<and> (\<forall>c \<in> R. covered T t c)
        \<and> (prog_snapshot p \<longrightarrow> tr_snap T t \<noteq> None) \<and> bounded T t s
        \<and> replays M T (prog_body p) (R \<union> W) t b s)"

section \<open>Lemmas\<close>

lemma apply_ops_snoc [simp]: "apply_ops M w (xs @ [x]) = apply_op M (apply_ops M w xs) x"
  by (simp add: apply_ops_def)

lemma apply_ops_Nil [simp]: "apply_ops M w [] = w"
  by (simp add: apply_ops_def)

lemma apply_ops_local:
  "w cf k = w1 cf k \<Longrightarrow> apply_ops M w xs cf k = apply_ops M w1 xs cf k"
proof (induction xs rule: rev_induct)
  case (snoc x xs)
  then show ?case by (cases x) (auto simp: upd_def clear_range_def)
qed simp

lemma alone_refl [simp, intro!]: "alone M c c"
  by (simp add: alone_def)

lemma alone_snoc: "alone M c c1 \<Longrightarrow> alone_step M c1 c2 \<Longrightarrow> alone M c c2"
  by (simp add: alone_def)

lemma alone_first: "alone M c d \<longleftrightarrow> c = d \<or> (\<exists>c1. alone_step M c c1 \<and> alone M c1 d)"
proof
  assume "alone M c d"
  then have "(alone_step M)\<^sup>*\<^sup>* c d" by (simp add: alone_def)
  then show "c = d \<or> (\<exists>c1. alone_step M c c1 \<and> alone M c1 d)"
    unfolding alone_def by (cases rule: converse_rtranclpE) auto
next
  assume "c = d \<or> (\<exists>c1. alone_step M c c1 \<and> alone M c1 d)"
  then show "alone M c d" unfolding alone_def by (elim disjE exE conjE) simp_all
qed

lemma executes_Done: "executes M (Done r) w a w1 \<longleftrightarrow> r = Inr a \<and> w1 = w"
  unfolding executes_def by (subst alone_first) auto

lemma executes_Read:
  "executes M (Read g k f) w a w1
     \<longleftrightarrow> executes M (f (Inr (w (target_name M g) k))) w a w1 \<or> (\<exists>e. executes M (f (Inl e)) w a w1)"
  unfolding executes_def by (subst alone_first) (auto simp: alone_step_simps)

lemma executes_Write:
  "executes M (Write x f) w a w1
     \<longleftrightarrow> executes M (f (Inr ())) (apply_op M w (as_op x)) a w1 \<or> (\<exists>e. executes M (f (Inl e)) w a w1)"
  unfolding executes_def by (subst alone_first) (auto simp: alone_step_simps)

lemmas executes_simps = executes_Done executes_Read executes_Write

lemma commits_of_append [simp]: "commits_of i (xs @ ys) = commits_of i xs @ commits_of i ys"
  by (induction xs rule: commits_of.induct) auto

lemma bound_of_tracked:
  assumes "tr_base T t1 = tr_base T t \<or> tr_base T t1 = tracked T t s c"
    and "tr_snap T t1 = tr_snap T t" and "covered T t d"
  shows "bound_of T t1 d = bound_of T t d" and "covered T t1 d"
  using assms
  by (auto simp: bound_of_def covered_def tracked_def split: option.splits if_splits)

lemma bounded_tracked:
  assumes "tr_base T t1 = tr_base T t \<or> tr_base T t1 = tracked T t s c"
    and "tr_snap T t1 = tr_snap T t" and "bounded T t s"
  shows "bounded T t1 s"
proof -
  have "bound_of T t1 d \<le> max (bound_of T t d) (tr_seq T s)" for d
    using assms(1,2)
    by (cases "tr_base T t c"; cases "tr_snap T t"; cases "d = c")
       (auto simp: bound_of_def tracked_def split: option.splits)
  with assms(3) show ?thesis unfolding bounded_def by (metis max_def)
qed

lemma dom_tracked:
  assumes "tr_base T t1 = tr_base T t \<or> tr_base T t1 = tracked T t s c"
  shows "dom (tr_base T t) \<subseteq> dom (tr_base T t1)"
  using assms by (auto simp: tracked_def)

lemma moved_on_bounded: "bounded T t s \<Longrightarrow> moved_on T s s1 \<Longrightarrow> bounded T t s1"
  unfolding bounded_def moved_on_def using order.trans by blast

lemma replays_moves: "replays M T b0 seen t b s \<Longrightarrow> moved_on T s s1 \<Longrightarrow> replays M T b0 seen t b s1"
  unfolding replays_def by (blast dest: moved_on_trans [of T s s1])

lemma running_ok_moves: "running_ok M T p t b s \<Longrightarrow> moved_on T s s1 \<Longrightarrow> running_ok M T p t b s1"
  unfolding running_ok_def using moved_on_bounded [of T t s s1]
  by (elim exE conjE) (intro exI conjI; (assumption | erule (1) replays_moves | simp))

lemma running_ok_begin:
  assumes "detects_conflicts D A M T" and "tdb_begin D (prog_snapshot p) s = (t, s1)"
    and "protects M (prog_snapshot p) (prog_body p) {} {}"
  shows "running_ok M T p t (prog_body p) s1"
proof -
  note new = detects_begin [OF assms(1,2)]
  have "bounded T t s1"
    using new by (auto simp: bounded_def bound_of_def untouched_def)
  moreover have "replays M T (prog_body p) {} t (prog_body p) s1"
    using new by (simp add: replays_def)
  ultimately show ?thesis
    unfolding running_ok_def using new assms(3) by (intro exI [of _ "{}"]) simp
qed

lemma running_ok_read:
  assumes "detects_conflicts D A M T" and "running_ok M T p t (Read g k f) s"
  shows "running_ok M T p t (f (api_get A (t, s) g k)) s"
proof -
  let ?c = "(target_name M g, k)"
  obtain R W where old: "protects M (prog_snapshot p) (Read g k f) R W" "W \<subseteq> dom (tr_base T t)"
      "\<forall>c \<in> R. covered T t c" "prog_snapshot p \<longrightarrow> tr_snap T t \<noteq> None" "bounded T t s"
    and rep: "replays M T (prog_body p) (R \<union> W) t (Read g k f) s"
    using assms(2) unfolding running_ok_def by blast
  have cov: "covered T t ?c" using old(1,2,4) by (auto simp: covered_def)
  have "replays M T (prog_body p) (insert ?c R \<union> W) t (f (api_get A (t, s) g k)) s"
    unfolding replays_def
  proof (intro allI impI)
    fix s1
    assume mv: "moved_on T s s1" and st: "\<forall>c \<in> insert ?c R \<union> W. tr_stamp T s1 c \<le> bound_of T t c"
    then have al: "alone M (prog_body p, tr_view T s1) (Read g k f, apply_ops M (tr_view T s1) (tr_ops T t))"
      using rep unfolding replays_def by blast
    have "tr_stamp T s1 ?c \<le> tr_seq T s"
      using st old(5) by (auto simp: bounded_def intro: order.trans)
    then have same: "tr_view T s1 (target_name M g) k = tr_view T s (target_name M g) k"
      using mv unfolding moved_on_def by blast
    show "alone M (prog_body p, tr_view T s1)
        (f (api_get A (t, s) g k), apply_ops M (tr_view T s1) (tr_ops T t))"
    proof (cases "api_get A (t, s) g k")
      case (Inl e)
      with alone_snoc [OF al alone_step.read_fails] show ?thesis by simp
    next
      case (Inr x)
      have "x = apply_ops M (tr_view T s1) (tr_ops T t) (target_name M g) k"
        unfolding detects_read [OF assms(1) Inr] by (rule apply_ops_local, rule same [symmetric])
      with alone_snoc [OF al alone_step.reads] Inr show ?thesis by simp
    qed
  qed
  with old cov show ?thesis
    unfolding running_ok_def by (intro exI [of _ "insert ?c R"] exI [of _ W]) simp
qed

lemma running_ok_write:
  assumes "detects_conflicts D A M T" and "running_ok M T p t (Write x f) s"
    and "call_write A x (t, s) = (r, t1, s1)"
  shows "running_ok M T p t1 (f r) s1"
proof -
  obtain R W where old: "protects M (prog_snapshot p) (Write x f) R W" "W \<subseteq> dom (tr_base T t)"
      "\<forall>c \<in> R. covered T t c" "prog_snapshot p \<longrightarrow> tr_snap T t \<noteq> None" "bounded T t s"
    and rep: "replays M T (prog_body p) (R \<union> W) t (Write x f) s"
    using assms(2) unfolding running_ok_def by blast
  note w = detects_write [OF assms(1,3)]
  have track: "tr_base T t1 = tr_base T t \<or> tr_base T t1 = tracked T t s (written M x)"
    and snap: "tr_snap T t1 = tr_snap T t" and un: "untouched T s s1"
    using w by (auto split: sum.splits)
  have seen: "covered T t c" if "c \<in> R \<union> W" for c
    using that old(2,3) by (auto simp: covered_def)
  note same = bound_of_tracked [OF track snap]
  define W1 where "W1 = (case r of Inr _ \<Rightarrow> insert (written M x) W | Inl _ \<Rightarrow> W)"
  have "replays M T (prog_body p) (R \<union> W1) t1 (f r) s1"
    unfolding replays_def
  proof (intro allI impI)
    fix s2
    assume mv: "moved_on T s1 s2" and st: "\<forall>c \<in> R \<union> W1. tr_stamp T s2 c \<le> bound_of T t1 c"
    have "tr_stamp T s2 c \<le> bound_of T t c" if "c \<in> R \<union> W" for c
    proof -
      have "c \<in> R \<union> W1" using that by (auto simp: W1_def split: sum.splits)
      with st have "tr_stamp T s2 c \<le> bound_of T t1 c" by (rule bspec)
      also have "bound_of T t1 c = bound_of T t c" by (rule same(1) [OF seen [OF that]])
      finally show ?thesis .
    qed
    then have al: "alone M (prog_body p, tr_view T s2) (Write x f, apply_ops M (tr_view T s2) (tr_ops T t))"
      using rep mv moved_on_trans [OF moved_on_untouched [OF un]] unfolding replays_def by blast
    show "alone M (prog_body p, tr_view T s2) (f r, apply_ops M (tr_view T s2) (tr_ops T t1))"
      using w alone_snoc [OF al alone_step.stages] alone_snoc [OF al alone_step.stage_fails]
      by (cases r) simp_all
  qed
  moreover have "bounded T t1 s1"
    using bounded_tracked [OF track snap old(5)] un by (simp add: bounded_def untouched_def)
  moreover have "W1 \<subseteq> dom (tr_base T t1)"
    using dom_tracked [OF track] old(2) w by (auto simp: W1_def tracked_def split: sum.splits)
  moreover have "protects M (prog_snapshot p) (f r) R W1"
    using old(1) by (cases r) (simp_all add: W1_def)
  moreover have "\<forall>c \<in> R. covered T t1 c" using same(2) seen by blast
  ultimately show ?thesis
    unfolding running_ok_def using snap old(4) by (intro exI [of _ R] exI [of _ W1]) simp
qed

lemma running_ok_commit:
  assumes "detects_conflicts D A M T" and "running_ok M T p t (Done (Inr a)) s"
    and "tdb_commit D t s = (Inr u, s1)"
  shows "executes M (prog_body p) (tr_view T s) a (tr_view T s1)"
proof -
  obtain R W where "R \<subseteq> W" "W \<subseteq> dom (tr_base T t)"
    and rep: "replays M T (prog_body p) (R \<union> W) t (Done (Inr a)) s"
    using assms(2) unfolding running_ok_def by auto
  note co = detects_commit [OF assms(1,3)]
  have "tr_stamp T s c \<le> bound_of T t c" if "c \<in> R \<union> W" for c
  proof -
    have "c \<in> dom (tr_base T t)" using that \<open>R \<subseteq> W\<close> \<open>W \<subseteq> dom (tr_base T t)\<close> by blast
    then obtain b where "tr_base T t c = Some b" by (rule domD [THEN exE])
    with co show ?thesis by (simp add: unchallenged_def bound_of_def del: split_paired_All)
  qed
  then have "alone M (prog_body p, tr_view T s) (Done (Inr a), apply_ops M (tr_view T s) (tr_ops T t))"
    using rep unfolding replays_def by blast
  with co show ?thesis by (simp add: executes_def)
qed

subsection \<open>Invariants of a thread among others\<close>

text \<open>
  \<open>ok i\<close> says something of thread \<open>i\<close>, the database and the history. It holds at every moment when it
  survives the steps of the thread itself and whatever other threads and writers do, of which only
  this much is known: the database moves on, and it does not change at all unless an event is added
  that is no commit of this thread. \<open>H\<close> are the hypotheses on the system.
\<close>

locale thread_invariant =
  fixes D :: "('s, 't) txn_db" and A :: "('t \<times> 's, 'h) rocks_api" and T :: "('s, 't, 'h) tracking"
    and P :: "nat \<Rightarrow> ('s, 'h, 'a) program" and s0 :: 's and H :: bool
    and ok :: "nat \<Rightarrow> ('t, 'h, 'a) thread \<Rightarrow> 's \<Rightarrow> 'a event list \<Rightarrow> bool"
  assumes at_start: "H \<Longrightarrow> ok i (Starting 0) s0 []"
    and own_step: "H \<Longrightarrow> ok i th s hist \<Longrightarrow>
        thread_step D A (prog_policy (P i)) (prog_snapshot (P i)) (prog_body (P i)) th s = (th1, s1) \<Longrightarrow>
        ok i th1 s1 (hist @ commit_event i th th1)"
    and foreign: "H \<Longrightarrow> ok i th s hist \<Longrightarrow> moved_on T s s1 \<Longrightarrow> commits_of i events = [] \<Longrightarrow>
        events = [] \<longrightarrow> untouched T s s1 \<Longrightarrow> ok i th s1 (hist @ events)"
    and moves: "H \<Longrightarrow>
        thread_step D A (prog_policy (P i)) (prog_snapshot (P i)) (prog_body (P i)) th s = (th1, s1) \<Longrightarrow>
        moved_on T s s1 \<and> (commit_event i th th1 = [] \<longrightarrow> untouched T s s1)"
begin

lemma always:
  "interleaving D A T P s0 c \<Longrightarrow> H \<Longrightarrow> (case c of (ths, s, hist) \<Rightarrow> ok j (ths j) s hist)"
proof (induction rule: interleaving.induct)
  case start
  then show ?case by (simp add: at_start)
next
  case (own ths s hist i th s1)
  then have old: "ok j (ths j) s hist" by simp
  note mv = moves [OF own.prems own.hyps(2)]
  show ?case
  proof (cases "j = i")
    case True
    with own_step [OF own.prems, of i "ths i" s hist th s1] own.hyps(2) old show ?thesis by simp
  next
    case False
    then have "commits_of j (commit_event i (ths i) th) = []"
      by (cases "(i, ths i, th)" rule: commit_event.cases) simp_all
    with foreign [OF own.prems old] mv False show ?thesis by simp
  qed
next
  case (outside ths s hist s1 f)
  then show ?case using foreign [of j "ths j" s hist s1 "[Outside f]"] by simp
qed

end

lemma step_moves:
  assumes "detects_conflicts D A M T" and "quiet T policy"
    and "thread_step D A policy snapshot b0 th s = (th1, s1)"
  shows "moved_on T s s1 \<and> (commit_event i th th1 = [] \<longrightarrow> untouched T s s1)"
proof -
  have "untouched T s s1 \<or> moved_on T s s1 \<and> commit_event i th th1 \<noteq> []"
  proof (cases th)
    case (Starting j)
    with assms show ?thesis by (auto split: prod.splits dest: detects_begin)
  next
    case (Running j t b)
    show ?thesis
    proof (cases b)
      case (Done r)
      show ?thesis
      proof (cases r)
        case (Inl e)
        with assms Running Done show ?thesis by (auto dest: detects_drop)
      next
        case (Inr a)
        obtain q s2 where co: "tdb_commit D t s = (q, s2)" by fastforce
        with assms Running Done Inr show ?thesis
          by (cases q) (auto dest: detects_commit detects_refusal)
      qed
    next
      case (Read g k f)
      with assms Running show ?thesis by auto
    next
      case (Write x f)
      with assms Running show ?thesis by (auto split: prod.splits dest: detects_write)
    qed
  next
    case (Conflicted j e)
    have "untouched T s (snd (policy s (RocksDb e) (j + 1)))"
      using assms(2) by (simp add: quiet_def)
    with assms(3) Conflicted show ?thesis by (auto split: prod.splits sum.splits)
  next
    case (Returned r)
    with assms show ?thesis by auto
  qed
  then show ?thesis by (auto intro: moved_on_untouched)
qed

subsection \<open>What a thread has done so far can be replayed\<close>

definition well_behaved ::
    "('s, 't) txn_db \<Rightarrow> ('t \<times> 's, 'h) rocks_api \<Rightarrow> ('t \<times> 's, 'h) rocks_meaning \<Rightarrow> ('s, 't, 'h) tracking
     \<Rightarrow> (nat \<Rightarrow> ('s, 'h, 'a) program) \<Rightarrow> bool" where
  "well_behaved D A M T P \<longleftrightarrow> detects_conflicts D A M T \<and> (\<forall>i. quiet T (prog_policy (P i)))"

definition protected :: "('w, 'h) rocks_meaning \<Rightarrow> ('s, 'h, 'a) program \<Rightarrow> bool" where
  "protected M p \<longleftrightarrow> protects M (prog_snapshot p) (prog_body p) {} {}"

fun replayed_ok ::
    "('w, 'h) rocks_meaning \<Rightarrow> ('s, 't, 'h) tracking \<Rightarrow> ('s, 'h, 'a) program \<Rightarrow> ('t, 'h, 'a) thread \<Rightarrow> 's \<Rightarrow> bool" where
  "replayed_ok M T p (Running j t b) s = running_ok M T p t b s"
| "replayed_ok M T p th s = True"

fun outcome_of :: "('t, 'h, 'a) thread \<Rightarrow> 'a list" where
  "outcome_of (Returned (Inr a)) = [a]"
| "outcome_of th = []"

lemma replayed_step:
  assumes "well_behaved D A M T P" and "protected M p" and "replayed_ok M T p th s"
    and "thread_step D A policy (prog_snapshot p) (prog_body p) th s = (th1, s1)"
  shows "replayed_ok M T p th1 s1"
proof -
  have d: "detects_conflicts D A M T" using assms(1) by (simp add: well_behaved_def)
  show ?thesis
  proof (cases th)
    case (Starting j)
    with assms(2,4) running_ok_begin [OF d] show ?thesis
      by (auto simp: protected_def split: prod.splits)
  next
    case (Running j t b)
    then have ok: "running_ok M T p t b s" using assms(3) by simp
    show ?thesis
    proof (cases b)
      case (Done r)
      with assms(4) Running show ?thesis by (cases r) (auto split: prod.splits sum.splits)
    next
      case (Read g k f)
      with assms(4) Running running_ok_read [OF d, of p t g k f s] ok show ?thesis by auto
    next
      case (Write x f)
      with assms(4) Running running_ok_write [OF d, of p t x f s] ok show ?thesis
        by (auto split: prod.splits)
    qed
  qed (use assms(4) in \<open>auto split: prod.splits sum.splits\<close>)
qed

lemma outcome_step:
  assumes "thread_step D A policy snapshot b0 th s = (th1, s1)"
  shows "outcome_of th @ commits_of i (commit_event i th th1) = outcome_of th1"
proof (cases th)
  case (Running j t b)
  show ?thesis
  proof (cases b)
    case (Done r)
    with assms Running show ?thesis by (cases r) (auto split: prod.splits sum.splits)
  qed (use assms Running in \<open>auto split: prod.splits\<close>)
next
  case (Returned r)
  with assms show ?thesis by auto
qed (use assms in \<open>auto split: prod.splits sum.splits\<close>)

interpretation replayed: thread_invariant D A T P s0
    "well_behaved D A M T P \<and> (\<forall>i. protected M (P i))"
    "\<lambda>i th s hist. replayed_ok M T (P i) th s \<and> commits_of i hist = outcome_of th"
  for D :: "('s, 't) txn_db" and A :: "('t \<times> 's, 'h) rocks_api" and M :: "('t \<times> 's, 'h) rocks_meaning"
    and T :: "('s, 't, 'h) tracking" and P :: "nat \<Rightarrow> ('s, 'h, 'a) program" and s0 :: 's
proof
  fix i th s hist th1 s1
  assume H: "well_behaved D A M T P \<and> (\<forall>i. protected M (P i))"
    and old: "replayed_ok M T (P i) th s \<and> commits_of i hist = outcome_of th"
    and st: "thread_step D A (prog_policy (P i)) (prog_snapshot (P i)) (prog_body (P i)) th s = (th1, s1)"
  show "replayed_ok M T (P i) th1 s1 \<and> commits_of i (hist @ commit_event i th th1) = outcome_of th1"
    using replayed_step [of D A M T P "P i", OF _ _ _ st] outcome_step [OF st, of i] H old by simp
next
  fix i and th :: "('t, 'h, 'a) thread" and s hist s1 and events :: "'a event list"
  assume "replayed_ok M T (P i) th s \<and> commits_of i hist = outcome_of th" and "moved_on T s s1"
    and "commits_of i events = []"
  then show "replayed_ok M T (P i) th s1 \<and> commits_of i (hist @ events) = outcome_of th"
    by (cases th) (simp_all add: running_ok_moves [where s = s and ?s1.0 = s1])
next
  fix i th s th1 s1
  assume "well_behaved D A M T P \<and> (\<forall>i. protected M (P i))"
    and "thread_step D A (prog_policy (P i)) (prog_snapshot (P i)) (prog_body (P i)) th s = (th1, s1)"
  then show "moved_on T s s1 \<and> (commit_event i th th1 = [] \<longrightarrow> untouched T s s1)"
    using step_moves [of D A M T "prog_policy (P i)" "prog_snapshot (P i)" "prog_body (P i)" th s th1 s1 i]
    by (simp add: well_behaved_def)
qed simp

lemma serial_history:
  assumes "interleaving D A T P s0 c" and "well_behaved D A M T P" and "\<forall>i. protected M (P i)"
  shows "case c of (ths, s, hist) \<Rightarrow> serial M P (tr_view T s0) hist (tr_view T s)"
  using assms(1)
proof (induction rule: interleaving.induct)
  case start
  show ?case by (simp add: serial.nothing)
next
  case (own ths s hist i th s1)
  have d: "detects_conflicts D A M T" "quiet T (prog_policy (P i))"
    using assms(2) by (simp_all add: well_behaved_def)
  show ?case
  proof (cases "commit_event i (ths i) th = []")
    case True
    with step_moves [OF d own.hyps(2), of i] have "untouched T s s1" by simp
    with own.IH True show ?thesis by (simp add: untouched_view)
  next
    case False
    then obtain j t a r where th: "ths i = Running j t (Done (Inr a))" "th = Returned r"
      by (cases "(i, ths i, th)" rule: commit_event.cases) auto
    then obtain u where co: "tdb_commit D t s = (Inr u, s1)"
      using own.hyps(2) by (auto split: prod.splits sum.splits)
    have "running_ok M T (P i) t (Done (Inr a)) s"
      using replayed.always [OF own.hyps(1), of M i] assms(2,3) th by simp
    from running_ok_commit [OF d(1) this co] own.IH show ?thesis
      by (simp add: th serial.commits)
  qed
next
  case (outside ths s hist s1 f)
  then show ?case by (simp add: serial.writes)
qed

lemma serial_keeps:
  assumes "serial M P w hist w1" and "K w"
    and "\<And>i w a w1. executes M (prog_body (P i)) w a w1 \<Longrightarrow> K w \<Longrightarrow> K w1"
    and "\<And>f w. Outside f \<in> set hist \<Longrightarrow> K w \<Longrightarrow> K (f w)"
  shows "K w1"
  using assms(1,4)
proof (induction rule: serial.induct)
  case nothing
  show ?case by (rule assms(2))
next
  case (commits hist w1 i a w2)
  then show ?case using assms(3) [of i w1 a w2] by simp
next
  case (writes hist w1 f)
  then show ?case by simp
qed

subsection \<open>Every conflict is paid for by a write of somebody else\<close>

text \<open>
  \<open>m\<close> is the length of the history when the attempt began; as long as the history is no longer, no key
  can be challenged.
\<close>

fun charged :: "('s, 't, 'h) tracking \<Rightarrow> ('t, 'h, 'a) thread \<Rightarrow> 's \<Rightarrow> 'a event list \<Rightarrow> bool" where
  "charged T (Starting i) s hist = (unat i \<le> length hist)"
| "charged T (Running i t b) s hist =
     (\<exists>m. unat i \<le> m \<and> m \<le> length hist \<and>
        (m = length hist \<longrightarrow> (\<forall>c n. tr_base T t c = Some n \<longrightarrow> tr_seq T s \<le> n)
          \<and> (\<forall>n. tr_snap T t = Some n \<longrightarrow> tr_seq T s \<le> n)))"
| "charged T (Conflicted i e) s hist = (unat i + 1 \<le> length hist)"
| "charged T (Returned r) s hist = True"

lemma unat_next: "unat (i + 1) \<le> unat i + 1" for i :: usize
  using unat_word_ariths(1) [of i 1] by simp

lemma charged_foreign:
  assumes "charged T th s hist" and "events = [] \<longrightarrow> untouched T s s1"
  shows "charged T th s1 (hist @ events)"
proof (cases "events = []")
  case True
  with assms show ?thesis by (cases th) (simp_all add: untouched_def)
next
  case False
  then have "length hist < length (hist @ events)" by simp
  with assms(1) show ?thesis
    by (cases th) (auto simp del: length_append intro!: exI [of _ "length hist"])
qed

lemma charged_write:
  assumes "detects_conflicts D A M T" and "call_write A x (t, s) = (r, t1, s1)"
    and "charged T (Running i t (Write x f)) s hist"
  shows "charged T (Running i t1 (f r)) s1 hist"
proof -
  note w = detects_write [OF assms(1,2)]
  have un: "tr_seq T s1 = tr_seq T s" and snap: "tr_snap T t1 = tr_snap T t"
    using w by (simp_all add: untouched_def)
  have "tr_base T t1 = tr_base T t \<or> tr_base T t1 = tracked T t s (written M x)"
    using w by (auto split: sum.splits)
  then have base: "tr_base T t1 c = Some n \<Longrightarrow>
      tr_base T t c = Some n \<or> tr_snap T t = Some n \<or> tr_seq T s \<le> n" for c n
    by (auto simp: tracked_def split: if_splits option.splits)
  from assms(3) show ?thesis
    using base un snap by (simp del: split_paired_All) blast
qed

lemma charged_step:
  assumes "detects_conflicts D A M T" and "quiet T policy" and "only_conflicts D T" and "charged T th s hist"
    and "thread_step D A policy snapshot b0 th s = (th1, s1)"
  shows "charged T th1 s1 (hist @ commit_event i th th1)"
proof (cases th)
  case (Starting j)
  obtain t s2 where new: "tdb_begin D snapshot s = (t, s2)" by fastforce
  note b = detects_begin [OF assms(1) new]
  have "charged T (Running j t b0) s2 hist"
    using assms(4) Starting b by (auto simp: untouched_def intro!: exI [of _ "length hist"])
  then show ?thesis using assms(5) Starting new by auto
next
  case (Running j t b)
  show ?thesis
  proof (cases b)
    case (Done r)
    show ?thesis
    proof (cases r)
      case (Inl e)
      with assms(5) Running Done show ?thesis by auto
    next
      case (Inr a)
      obtain q s2 where co: "tdb_commit D t s = (q, s2)" by fastforce
      show ?thesis
      proof (cases q)
        case (Inr u)
        with assms(5) Running Done \<open>r = Inr a\<close> co show ?thesis by auto
      next
        case (Inl e)
        then have "\<not> unchallenged T t s" using assms(3) co unfolding only_conflicts_def by fastforce
        then obtain c n where c: "tr_base T t c = Some n" "n < tr_stamp T s c"
          unfolding unchallenged_def by (metis not_le)
        moreover have "tr_stamp T s c \<le> tr_seq T s" by (rule detects_stamp [OF assms(1)])
        ultimately have "\<not> tr_seq T s \<le> n" by simp
        with assms(4) Running c(1) have "unat j + 1 \<le> length hist"
          by (simp del: split_paired_All) (metis Suc_leI le_neq_implies_less le_trans not_less_eq_eq)
        with assms(5) Running Done \<open>r = Inr a\<close> co Inl show ?thesis by auto
      qed
    qed
  next
    case (Read g k f)
    with assms(4,5) Running show ?thesis by auto
  next
    case (Write x f)
    obtain r t1 s2 where w: "call_write A x (t, s) = (r, t1, s2)" using prod_cases3 by blast
    have "charged T (Running j t1 (f r)) s2 hist"
      by (rule charged_write [OF assms(1) w]) (use assms(4) Running Write in simp)
    with assms(5) Running Write w show ?thesis by (auto simp del: charged.simps)
  qed
next
  case (Conflicted j e)
  with assms(4,5) unat_next [of j] show ?thesis by (auto split: prod.splits sum.splits)
next
  case (Returned r)
  with assms(5) show ?thesis by auto
qed

interpretation paid: thread_invariant D A T P s0 "well_behaved D A M T P \<and> only_conflicts D T"
    "\<lambda>i th s hist. charged T th s hist"
  for D :: "('s, 't) txn_db" and A :: "('t \<times> 's, 'h) rocks_api" and M :: "('t \<times> 's, 'h) rocks_meaning"
    and T :: "('s, 't, 'h) tracking" and P :: "nat \<Rightarrow> ('s, 'h, 'a) program" and s0 :: 's
proof
  fix i th s hist th1 s1
  assume "well_behaved D A M T P \<and> only_conflicts D T" and "charged T th s hist"
    and "thread_step D A (prog_policy (P i)) (prog_snapshot (P i)) (prog_body (P i)) th s = (th1, s1)"
  then show "charged T th1 s1 (hist @ commit_event i th th1)"
    using charged_step [of D A M T "prog_policy (P i)"] by (simp add: well_behaved_def)
next
  fix i and th :: "('t, 'h, 'a) thread" and s hist s1 and events :: "'a event list"
  assume "charged T th s hist" and "events = [] \<longrightarrow> untouched T s s1"
  then show "charged T th s1 (hist @ events)" by (rule charged_foreign)
next
  fix i th s th1 s1
  assume "well_behaved D A M T P \<and> only_conflicts D T"
    and "thread_step D A (prog_policy (P i)) (prog_snapshot (P i)) (prog_body (P i)) th s = (th1, s1)"
  then show "moved_on T s s1 \<and> (commit_event i th th1 = [] \<longrightarrow> untouched T s s1)"
    using step_moves [of D A M T "prog_policy (P i)" "prog_snapshot (P i)" "prog_body (P i)" th s th1 s1 i]
    by (simp add: well_behaved_def)
qed simp

subsection \<open>Playing a schedule\<close>

definition play ::
    "('s, 't) txn_db \<Rightarrow> ('t \<times> 's, 'h) rocks_api \<Rightarrow> (nat \<Rightarrow> ('s, 'h, 'a) program)
     \<Rightarrow> nat list \<Rightarrow> ('s, 't, 'h, 'a) system \<Rightarrow> ('s, 't, 'h, 'a) system" where
  "play D A P schedule c = foldl (\<lambda>(ths, s, hist) i.
     case thread_step D A (prog_policy (P i)) (prog_snapshot (P i)) (prog_body (P i)) (ths i) s of
       (th, s1) \<Rightarrow> (ths(i := th), s1, hist @ commit_event i (ths i) th)) c schedule"

lemma play_simps:
  "play D A P [] c = c"
  "play D A P (i # is) (ths, s, hist) =
     (case thread_step D A (prog_policy (P i)) (prog_snapshot (P i)) (prog_body (P i)) (ths i) s of
       (th, s1) \<Rightarrow> play D A P is (ths(i := th), s1, hist @ commit_event i (ths i) th))"
  by (simp_all add: play_def split: prod.splits)

lemma interleaving_play:
  "interleaving D A T P s0 c \<Longrightarrow> interleaving D A T P s0 (play D A P is c)"
proof (induction "is" arbitrary: c)
  case (Cons i "is")
  obtain ths s hist where c: "c = (ths, s, hist)" using prod_cases3 by blast
  obtain th s1 where st: "thread_step D A (prog_policy (P i)) (prog_snapshot (P i)) (prog_body (P i)) (ths i) s
      = (th, s1)" by fastforce
  from Cons.IH [OF interleaving.own [OF Cons.prems [unfolded c] st]] st show ?case
    by (simp add: c play_simps)
qed (simp add: play_simps)

section \<open>Properties\<close>

text \<open>
  C2: Serializability. Let any number of threads run protected closures, in either mode of the builder or
  as \<open>execute_transaction\<close>, with retries, interleaved in any way with each other and with other writes.
  Then at every moment the database is what the closures committed so far and the other writes give when
  they are executed one after the other in the order of the commits; and the commits of each thread in
  that history are exactly the one whose result it has returned, or none.
\<close>

theorem interleaving_serializable:
  assumes "well_behaved D A M T P" and "\<forall>i. protected M (P i)"
    and "interleaving D A T P s0 (ths, s, hist)"
  shows "serial M P (tr_view T s0) hist (tr_view T s)
    \<and> (\<forall>i. commits_of i hist = outcome_of (ths i))"
  using serial_history [OF assms(3,1,2)] replayed.always [OF assms(3), of M] assms(1,2) by simp

text \<open>A closure that adds one to a byte: it reads the key and writes it.\<close>

definition bump :: "bytes \<Rightarrow> (string, unit) body" where
  "bump k = Read DefaultCf k (\<lambda>r. case r of
      Inl e \<Rightarrow> Done (Inl (RocksDb e))
    | Inr x \<Rightarrow> Write (PutW DefaultCf k [1 + (case x of Some (n # _) \<Rightarrow> n | _ \<Rightarrow> 0)])
        (\<lambda>r. Done (map_err RocksDb r)))"

definition bumps :: "bool \<Rightarrow> nat \<Rightarrow> (occ_db, string, unit) program" where
  "bumps snapshot i = \<lparr>prog_policy = fixed_should_retry (\<lambda>n s. s) fixed_retry_default,
     prog_snapshot = snapshot, prog_body = bump [7]\<rparr>"

definition empty_occ :: occ_db where
  "empty_occ = \<lparr>occ_view = (\<lambda>cf k. None), occ_seq = 0, occ_stamps = (\<lambda>c. 0)\<rparr>"

text \<open>Both threads begin and read; then one writes and commits, and then the other.\<close>

definition race :: "bool \<Rightarrow> (occ_db, occ_txn, string, unit) system" where
  "race snapshot = play occ_db_calls occ_api (bumps snapshot)
     [0, 1, 0, 1, 0, 0, 1, 1, 1, 1, 1, 1, 1] (\<lambda>_. Starting 0, empty_occ, [])"

lemma protects_bump: "protects occ_meaning True (bump k) {} {}"
  by (auto simp: bump_def split: sum.splits option.splits list.splits)

lemma bumps_well_behaved: "well_behaved occ_db_calls occ_api occ_meaning occ_tracking (bumps snapshot)"
  by (simp add: well_behaved_def bumps_def quiet_fixed)

lemma race_interleaving:
  "interleaving occ_db_calls occ_api occ_tracking (bumps snapshot) empty_occ (race snapshot)"
  unfolding race_def by (rule interleaving_play) (rule interleaving.start)

lemmas occ_eval = occ_db_calls_def occ_begin_def occ_api_def occ_stage_def occ_since_def occ_base_def
  occ_ops_def occ_commit_def occ_write_def occ_stamp_def empty_occ_def apply_ops_def upd_def occ_simps
  DEFAULT_COLUMN_FAMILY_NAME_def Let_def

lemma ten_attempts: "\<not> (10 :: usize) \<le> 1"
  by (simp add: word_le_nat_alt)

lemma race_result:
  "occ_view (fst (snd (race True))) ''default'' [7] = Some [2]"
  "snd (snd (race True)) = [Committed 0 (), Committed 1 ()]"
  "occ_view (fst (snd (race False))) ''default'' [7] = Some [1]"
  "snd (snd (race False)) = [Committed 0 (), Committed 1 ()]"
  by (simp_all add: race_def play_simps bumps_def bump_def occ_eval fixed_should_retry_def
      fixed_retry_default_def ten_attempts)

theorem interleaving_serializable_witness:
  "serial occ_meaning (bumps True) (\<lambda>cf k. None) [Committed 0 (), Committed 1 ()]
     (occ_view (fst (snd (race True))))
   \<and> occ_view (fst (snd (race True))) ''default'' [7] = Some [2]"
proof -
  obtain ths s hist where c: "race True = (ths, s, hist)" using prod_cases3 by blast
  have "protected occ_meaning (bumps True i)" for i
    by (simp add: protected_def bumps_def protects_bump)
  with interleaving_serializable [OF bumps_well_behaved _ race_interleaving [of True, unfolded c]]
  have "serial occ_meaning (bumps True) (occ_view empty_occ) hist (occ_view s)"
    by (simp add: occ_simps)
  then show ?thesis using race_result(1,2) c by (simp add: empty_occ_def)
qed

text \<open>
  What every closure keeps, the system keeps. A predicate of the database that each of the protected
  closures preserves when it is executed alone, and that the other writes preserve, holds at every
  moment of every interleaved execution, at whatever point the transactions under way are.
\<close>

theorem invariants_survive:
  assumes "well_behaved D A M T P" and "\<forall>i. protected M (P i)"
    and "interleaving D A T P s0 (ths, s, hist)" and "K (tr_view T s0)"
    and "\<And>i w a w1. executes M (prog_body (P i)) w a w1 \<Longrightarrow> K w \<Longrightarrow> K w1"
    and "\<And>f w. Outside f \<in> set hist \<Longrightarrow> K w \<Longrightarrow> K (f w)"
  shows "K (tr_view T s)"
proof -
  have "serial M P (tr_view T s0) hist (tr_view T s)"
    using serial_history [OF assms(3,1,2)] by simp
  then show ?thesis
  proof (rule serial_keeps [where K = K])
    show "K (tr_view T s0)" by (rule assms(4))
  qed (fact assms(5,6))+
qed

text \<open>The bytes of the other column families are never touched by the two threads.\<close>

lemma bump_keeps: "executes M (bump k) w a w1 \<Longrightarrow> w1 ''users'' = w ''users''"
  by (auto simp: bump_def executes_simps upd_def DEFAULT_COLUMN_FAMILY_NAME_def split: sum.splits)

theorem invariants_survive_witness:
  "occ_view (fst (snd (race True))) ''users'' [7] = None"
proof -
  obtain ths s hist where c: "race True = (ths, s, hist)" using prod_cases3 by blast
  have hist: "hist = [Committed 0 (), Committed 1 ()]" using race_result(2) c by simp
  have "(\<lambda>w. w ''users'' [7] = None) (tr_view occ_tracking s)"
  proof (rule invariants_survive [OF bumps_well_behaved _ race_interleaving [of True, unfolded c]])
    show "\<forall>i. protected occ_meaning (bumps True i)"
      by (simp add: protected_def bumps_def protects_bump)
    show "tr_view occ_tracking empty_occ ''users'' [7] = None"
      by (simp add: empty_occ_def occ_simps)
  qed (auto simp: bumps_def hist dest: bump_keeps)
  then show ?thesis by (simp add: c occ_simps)
qed


text \<open>The race up to the refused commit.\<close>

definition refused_race :: "(occ_db, occ_txn, string, unit) system" where
  "refused_race = play occ_db_calls occ_api (bumps True) [0, 1, 0, 1, 0, 0, 1, 1] (\<lambda>_. Starting 0, empty_occ, [])"

lemma refused_race_result:
  "fst refused_race 1 = Conflicted 0 ''Resource busy: ''" "snd (snd refused_race) = [Committed 0 ()]"
  by (simp_all add: refused_race_def play_simps bumps_def bump_def occ_eval)


end
