(* ===== verification/Isolation.thy ===== *)
theory Isolation
  imports Interleaving
begin

text \<open>
  What the conflict detection does and does not give the users of the crate: the transfer of
  \<open>examples/optimistic_transaction.rs\<close>, which is protected and keeps the sum of the accounts however
  many transfers race; an update that is lost where the closure is not protected; and a context
  that commits although a key that it has read was changed.
\<close>

section \<open>The transfer\<close>

record account =
  acc_id :: string
  acc_balance :: "64 word"
  acc_version :: u64

text \<open>The operator \<open>?\<close> in a closure.\<close>

definition try_body :: "'b store_result \<Rightarrow> ('b \<Rightarrow> ('h, 'a) body) \<Rightarrow> ('h, 'a) body" where
  "try_body r f = (case r of Inl e \<Rightarrow> Done (Inl e) | Inr b \<Rightarrow> f b)"

definition account_not_found :: "string \<Rightarrow> store_error" where
  "account_not_found key = Other (''Account not found: '' @ key)"

text \<open>
  The balance is an \<open>i64\<close>, whose arithmetic wraps in a release build.
\<close>

definition safe_transfer ::
    "'h store_result \<Rightarrow> account codec \<Rightarrow> string \<Rightarrow> string \<Rightarrow> 64 word \<Rightarrow> ('h, unit) body" where
  "safe_transfer handle c from_key to_key amount =
     try_body handle (\<lambda>cf_handle.
     Read (Cf cf_handle) (str_bytes from_key) (\<lambda>r1.
     try_body (map_err RocksDb r1) (\<lambda>x1.
     try_body (ok_or (account_not_found from_key) x1) (\<lambda>from_bytes.
     try_body (deserialize_value c from_bytes) (\<lambda>from_acct.
     Read (Cf cf_handle) (str_bytes to_key) (\<lambda>r2.
     try_body (map_err RocksDb r2) (\<lambda>x2.
     try_body (ok_or (account_not_found to_key) x2) (\<lambda>to_bytes.
     try_body (deserialize_value c to_bytes) (\<lambda>to_acct.
       if sint (acc_balance from_acct) < sint amount then
         Done (Inl (Other (''Insufficient funds for '' @ acc_id from_acct)))
       else
         let from_acct1 = from_acct\<lparr>acc_balance := acc_balance from_acct - amount,
                                    acc_version := acc_version from_acct + 1\<rparr>;
             to_acct1 = to_acct\<lparr>acc_balance := acc_balance to_acct + amount,
                                acc_version := acc_version to_acct + 1\<rparr> in
         try_body (serialize_value c from_acct1) (\<lambda>from_ser.
         Write (PutW (Cf cf_handle) (str_bytes from_key) from_ser) (\<lambda>w1.
         try_body (map_err RocksDb w1) (\<lambda>_.
         try_body (serialize_value c to_acct1) (\<lambda>to_ser.
         Write (PutW (Cf cf_handle) (str_bytes to_key) to_ser) (\<lambda>w2.
         try_body (map_err RocksDb w2) (\<lambda>_. Done (Inr ()))))))))))))))))"

lemma try_body_simps [simp]:
  "try_body (Inl e) f = Done (Inl e)"
  "try_body (Inr b) f = f b"
  by (simp_all add: try_body_def)

lemma executes_try:
  "executes M (try_body r f) w a w1 \<longleftrightarrow> (\<exists>b. r = Inr b \<and> executes M (f b) w a w1)"
  by (cases r) (auto simp: executes_Done)

lemma protects_try:
  "protects M snapshot (try_body r f) R W \<longleftrightarrow> (\<forall>b. r = Inr b \<longrightarrow> protects M snapshot (f b) R W)"
  by (cases r) simp_all

definition balance_at :: "account codec \<Rightarrow> kv_view \<Rightarrow> string \<Rightarrow> string \<Rightarrow> 64 word" where
  "balance_at c w cf key =
     (case w cf (str_bytes key) of
        None \<Rightarrow> 0
      | Some bs \<Rightarrow> (case deserialize_value c bs of Inl e \<Rightarrow> 0 | Inr acct \<Rightarrow> acc_balance acct))"

definition total :: "account codec \<Rightarrow> kv_view \<Rightarrow> string \<Rightarrow> string list \<Rightarrow> 64 word" where
  "total c w cf keys = (\<Sum>key \<in> set keys. balance_at c w cf key)"

lemma balance_at_upd:
  "balance_at c (upd w cf (str_bytes k) (Some bs)) cf key =
     (if key = k then (case deserialize_value c bs of Inl e \<Rightarrow> 0 | Inr acct \<Rightarrow> acc_balance acct)
      else balance_at c w cf key)"
  by (simp add: balance_at_def upd_def)

lemma sum_of_two:
  fixes g :: "'b \<Rightarrow> 'c :: ab_group_add"
  assumes "finite S" and "a \<in> S" and "b \<in> S" and "a \<noteq> b"
    and "h a + h b = g a + g b" and "\<And>x. x \<in> S \<Longrightarrow> x \<noteq> a \<Longrightarrow> x \<noteq> b \<Longrightarrow> h x = g x"
  shows "sum h S = sum g S"
proof -
  have "sum f S = f a + f b + sum f (S - {a} - {b})" for f :: "'b \<Rightarrow> 'c"
    using assms(1-4) by (simp add: sum.remove [of S a] sum.remove [of "S - {a}" b] add.assoc)
  moreover have "sum h (S - {a} - {b}) = sum g (S - {a} - {b})"
    using assms(6) by (intro sum.cong) auto
  ultimately show ?thesis using assms(5) by simp
qed

lemma transfer_executes:
  assumes "codec_ok c" and "executes M (safe_transfer (Inr h) c from_key to_key amount) w a w1"
  shows "\<exists>from_acct to_acct.
      (\<exists>bs. w (m_name M h) (str_bytes from_key) = Some bs \<and> deserialize_value c bs = Inr from_acct)
    \<and> (\<exists>bs. w (m_name M h) (str_bytes to_key) = Some bs \<and> deserialize_value c bs = Inr to_acct)
    \<and> \<not> sint (acc_balance from_acct) < sint amount
    \<and> (\<exists>f t f1 t1. deserialize_value c f = Inr f1 \<and> acc_balance f1 = acc_balance from_acct - amount
         \<and> deserialize_value c t = Inr t1 \<and> acc_balance t1 = acc_balance to_acct + amount
         \<and> w1 = upd (upd w (m_name M h) (str_bytes from_key) (Some f)) (m_name M h) (str_bytes to_key) (Some t))"
  using assms(2)
  by (auto simp: safe_transfer_def executes_simps executes_try Let_def
      dest!: codec_okD [OF assms(1)] split: if_splits) force

lemma transfer_total:
  assumes "codec_ok c" and "executes M (safe_transfer (Inr h) c from_key to_key amount) w a w1"
    and "from_key \<in> set keys" and "to_key \<in> set keys"
  shows "total c w1 (m_name M h) keys
    = total c w (m_name M h) keys + (if from_key = to_key then amount else 0)"
proof -
  obtain fa ta fb tb f t f1 t1 where
    old: "w (m_name M h) (str_bytes from_key) = Some fb" "deserialize_value c fb = Inr fa"
      "w (m_name M h) (str_bytes to_key) = Some tb" "deserialize_value c tb = Inr ta"
    and new: "deserialize_value c f = Inr f1" "acc_balance f1 = acc_balance fa - amount"
      "deserialize_value c t = Inr t1" "acc_balance t1 = acc_balance ta + amount"
      "w1 = upd (upd w (m_name M h) (str_bytes from_key) (Some f)) (m_name M h) (str_bytes to_key) (Some t)"
    using transfer_executes [OF assms(1,2)] by blast
  have at: "balance_at c w (m_name M h) from_key = acc_balance fa"
    "balance_at c w (m_name M h) to_key = acc_balance ta"
    by (simp_all add: balance_at_def old)
  have b1: "balance_at c w1 (m_name M h) key = (if key = to_key then acc_balance ta + amount
      else if key = from_key then acc_balance fa - amount else balance_at c w (m_name M h) key)" for key
    by (simp add: new balance_at_upd)
  show ?thesis
  proof (cases "from_key = to_key")
    case True
    have "(\<Sum>key \<in> set keys - {to_key}. balance_at c w1 (m_name M h) key)
        = (\<Sum>key \<in> set keys - {to_key}. balance_at c w (m_name M h) key)"
      by (rule sum.cong) (simp_all add: b1 True)
    with True show ?thesis
      unfolding total_def using assms(4) by (simp add: sum.remove [of _ to_key] b1 at(2))
  next
    case False
    have "total c w1 (m_name M h) keys = total c w (m_name M h) keys"
      unfolding total_def
      by (rule sum_of_two [where a = from_key and b = to_key]) (use assms(3,4) False in \<open>simp_all add: b1 at\<close>)
    with False show ?thesis by simp
  qed
qed

lemma transfer_protected: "protects M True (safe_transfer handle c from_key to_key amount) {} {}"
  by (auto simp: safe_transfer_def protects_try Let_def)

section \<open>Properties\<close>

text \<open>
  C15: Racing transfers keep the money. Any number of threads transfer between different accounts of one
  column family with \<open>execute_with_snapshot\<close>, each with its retries, interleaved in any way; other writes
  may happen that keep the sum. Then at every moment the sum of the balances is what it was.
\<close>

theorem transfers_keep_total:
  assumes "well_behaved D A M T P" and "codec_ok c"
    and "\<And>i. prog_snapshot (P i) \<and> prog_body (P i) = safe_transfer (Inr h) c (payer i) (payee i) (amount i)"
    and "\<And>i. payer i \<noteq> payee i \<and> payer i \<in> set keys \<and> payee i \<in> set keys"
    and "interleaving D A T P s0 (ths, s, hist)"
    and "\<And>f w. Outside f \<in> set hist \<Longrightarrow> total c (f w) (m_name M h) keys = total c w (m_name M h) keys"
  shows "total c (tr_view T s) (m_name M h) keys = total c (tr_view T s0) (m_name M h) keys"
proof -
  have prot: "\<forall>i. protected M (P i)"
    using assms(3) by (simp add: protected_def transfer_protected)
  have "serial M P (tr_view T s0) hist (tr_view T s)"
    using serial_history [OF assms(5,1) prot] by simp
  then show ?thesis
  proof (rule serial_keeps [where K = "\<lambda>w. total c w (m_name M h) keys = total c (tr_view T s0) (m_name M h) keys"])
    fix i w a w1
    assume "executes M (prog_body (P i)) w a w1"
      and "total c w (m_name M h) keys = total c (tr_view T s0) (m_name M h) keys"
    with transfer_total [OF assms(2), of M h "payer i" "payee i" "amount i" w a w1 keys] assms(3,4) [of i]
    show "total c w1 (m_name M h) keys = total c (tr_view T s0) (m_name M h) keys" by simp
  qed (simp_all add: assms(6))
qed

text \<open>Accounts without a name, as their balance and version.\<close>

definition plain_codec :: "account codec" where
  "plain_codec = \<lparr>
     codec_ser = (\<lambda>a. if acc_id a = '''' then Inr (to_be_bytes (acc_balance a) @ to_be_bytes (acc_version a))
       else Inl ''named''),
     codec_de = (\<lambda>bs. Inr \<lparr>acc_id = '''', acc_balance = from_be_bytes (take 8 bs),
       acc_version = from_be_bytes (drop 8 bs)\<rparr>)\<rparr>"

lemma codec_ok_plain [simp]: "codec_ok plain_codec"
  by (auto simp: codec_ok_def plain_codec_def split: if_splits)

definition account_bytes :: "64 word \<Rightarrow> bytes" where
  "account_bytes n = to_be_bytes n @ to_be_bytes 1"

lemma balance_account_bytes:
  "deserialize_value plain_codec (account_bytes n) = Inr \<lparr>acc_id = '''', acc_balance = n, acc_version = 1\<rparr>"
  by (simp add: deserialize_value_def plain_codec_def account_bytes_def)

definition bank :: occ_db where
  "bank = \<lparr>occ_view = (\<lambda>cf k. if cf = ''accounts'' \<and> (k = str_bytes ''acc_a'' \<or> k = str_bytes ''acc_b'')
     then Some (account_bytes 100) else None), occ_seq = 0, occ_stamps = (\<lambda>c. 0)\<rparr>"

definition tellers :: "nat \<Rightarrow> (occ_db, string, unit) program" where
  "tellers i = \<lparr>prog_policy = fixed_should_retry (\<lambda>n s. s) fixed_retry_default, prog_snapshot = True,
     prog_body = safe_transfer (Inr ''accounts'') plain_codec (if even i then ''acc_b'' else ''acc_a'')
       (if even i then ''acc_a'' else ''acc_b'') 10\<rparr>"

lemma play_no_outside:
  assumes "Outside f \<notin> set (snd (snd c))"
  shows "Outside f \<notin> set (snd (snd (play D A P is c)))"
  using assms
proof (induction "is" arbitrary: c)
  case (Cons i "is")
  obtain ths s hist where c: "c = (ths, s, hist)" using prod_cases3 by blast
  obtain th s1 where st: "thread_step D A (prog_policy (P i)) (prog_snapshot (P i)) (prog_body (P i)) (ths i) s
      = (th, s1)" by fastforce
  have "Outside f \<notin> set (commit_event i (ths i) th)"
    by (cases "(i, ths i, th)" rule: commit_event.cases) simp_all
  then show ?case using Cons by (simp add: c play_simps st)
qed (simp add: play_simps)

theorem transfers_keep_total_witness:
  "\<forall>schedule. total plain_codec (occ_view (fst (snd (play occ_db_calls occ_api tellers schedule
      (\<lambda>_. Starting 0, bank, []))))) ''accounts'' [''acc_a'', ''acc_b''] = 200"
proof
  fix schedule
  let ?c = "play occ_db_calls occ_api tellers schedule (\<lambda>_. Starting 0, bank, [])"
  obtain ths s hist where c: "?c = (ths, s, hist)" using prod_cases3 by blast
  have name: "m_name occ_meaning ''accounts'' = ''accounts''" by (simp add: occ_meaning_def)
  have "total plain_codec (tr_view occ_tracking s) (m_name occ_meaning ''accounts'') [''acc_a'', ''acc_b'']
      = total plain_codec (tr_view occ_tracking bank) (m_name occ_meaning ''accounts'') [''acc_a'', ''acc_b'']"
  proof (rule transfers_keep_total)
    show "well_behaved occ_db_calls occ_api occ_meaning occ_tracking tellers"
      by (simp add: well_behaved_def tellers_def quiet_fixed)
    show "prog_snapshot (tellers i) \<and> prog_body (tellers i) = safe_transfer (Inr ''accounts'') plain_codec
        (if even i then ''acc_b'' else ''acc_a'') (if even i then ''acc_a'' else ''acc_b'') 10" for i
      by (simp add: tellers_def)
    show "interleaving occ_db_calls occ_api occ_tracking tellers bank (ths, s, hist)"
      unfolding c [symmetric] by (rule interleaving_play) (rule interleaving.start)
    show "Outside f \<in> set hist \<Longrightarrow> total plain_codec (f w) (m_name occ_meaning ''accounts'') [''acc_a'', ''acc_b'']
        = total plain_codec w (m_name occ_meaning ''accounts'') [''acc_a'', ''acc_b'']" for f w
      using play_no_outside [of f "(\<lambda>_. Starting 0, bank, [])" occ_db_calls occ_api tellers schedule] c by simp
  qed simp_all
  moreover have "total plain_codec (occ_view bank) ''accounts'' [''acc_a'', ''acc_b''] = 200"
    by (simp add: total_def balance_at_def bank_def balance_account_bytes)
  ultimately show "total plain_codec (occ_view (fst (snd ?c))) ''accounts'' [''acc_a'', ''acc_b''] = 200"
    by (simp add: c name occ_simps)
qed

text \<open>
  A transfer of an account to itself makes money. Executed alone with equal keys, the closure reads
  the account twice, takes the amount from one copy and adds it to the other, and stores the second.
\<close>

theorem self_transfer_mints:
  assumes "codec_ok c" and "executes M (safe_transfer (Inr h) c key key amount) w a w1"
  shows "balance_at c w1 (m_name M h) key = balance_at c w (m_name M h) key + amount"
  using transfer_total [OF assms, of "[key]"] by (simp add: total_def)

theorem self_transfer_mints_witness:
  "\<exists>w1. executes occ_meaning (safe_transfer (Inr ''accounts'') plain_codec ''acc_a'' ''acc_a'' 10) (occ_view bank) () w1
     \<and> balance_at plain_codec w1 ''accounts'' ''acc_a'' = 110"
proof -
  have ser: "serialize_value plain_codec \<lparr>acc_id = '''', acc_balance = n, acc_version = m\<rparr>
      = Inr (to_be_bytes n @ to_be_bytes m)" for n m
    by (simp add: serialize_value_def plain_codec_def)
  have ge: "\<not> sint (100 :: 64 word) < sint (10 :: 64 word)" by simp
  have old: "occ_view bank ''accounts'' (str_bytes ''acc_a'') = Some (account_bytes 100)"
    by (simp add: bank_def)
  have name: "m_name occ_meaning ''accounts'' = ''accounts''" by (simp add: occ_meaning_def)
  obtain w1 where ex: "executes occ_meaning (safe_transfer (Inr ''accounts'') plain_codec ''acc_a'' ''acc_a'' 10)
      (occ_view bank) () w1"
    unfolding safe_transfer_def
    by (simp add: executes_simps executes_try occ_simps old name balance_account_bytes ser Let_def)
  from self_transfer_mints [OF codec_ok_plain ex] ex show ?thesis
    by (auto simp: name balance_at_def old balance_account_bytes)
qed

text \<open>
  C34: Keys that a context has only read are not checked. A context with conflict detection reads a key and
  stages a value computed from what it read under another key. Whatever other transactions commit in
  the meantime, to the key that was read as well, the commit succeeds as long as nobody has written
  the key that is written: the value computed from the old read stands beside the new one.
\<close>

theorem stale_read_commits:
  assumes "detects_conflicts D A M T" and "only_conflicts D T" and "lookup_ok M H"
    and "opt_new (life_of D) True w0 = (ctx, t, s1)"
    and "opt_get_cf A H c ctx (t, s1) cf k = Inr x"
    and "opt_put_cf_raw A H ctx (t, s1) cf2 k2 (f x) = (Inr (), t2, s2)"
    and "moved_on T s2 s3" and "tr_stamp T s3 (cf2, as_bytes k2) \<le> tr_seq T s1"
    and "(cf, as_bytes k) \<noteq> (cf2, as_bytes k2)"
  shows "\<exists>s4. opt_commit (life_of D True) ctx (t2, s3) = (Inr (), (t2, s4), [Commit, Destroy])
    \<and> tr_view T s4 cf2 (as_bytes k2) = Some (f x)
    \<and> tr_view T s4 cf (as_bytes k) = tr_view T s3 cf (as_bytes k)"
proof -
  have live: "\<not> opt_completed ctx" and new: "tdb_begin D True (snd w0) = (t, s1)"
    using assms(4) by (auto simp: opt_new_def life_of_def)
  note b = detects_begin [OF assms(1) new]
  obtain h where h: "H (t, s1) cf2 = Inr h" and put: "api_put A (t, s1) (Cf h) (as_bytes k2) (f x) = (Inr (), t2, s2)"
    using assms(6) unfolding opt_raw_eqs(1) [OF live]
    by (auto simp: write_on_def split: sum.splits prod.splits)
  have name: "m_name M h = cf2" using assms(3) h by (simp add: lookup_ok_def)
  have "call_write A (PutW (Cf h) (as_bytes k2) (f x)) (t, s1) = (Inr (), t2, s2)" using put by simp
  note w = detects_write [OF assms(1) this]
  have "unchallenged T t2 s3"
    using w b assms(8) by (simp add: unchallenged_def tracked_def name untouched_def)
  then obtain s4 where co: "tdb_commit D t2 s3 = (Inr (), s4)"
    using assms(2) unfolding only_conflicts_def by blast
  have "tr_view T s4 = upd (tr_view T s3) cf2 (as_bytes k2) (Some (f x))"
    using detects_commit [OF assms(1) co] w b by (simp add: apply_ops_def name)
  then show ?thesis
    using assms(9) co by (auto simp: opt_commit_live [OF live] life_of_def upd_other)
qed

theorem stale_read_commits_witness:
  "\<exists>t2 s4. opt_put_cf_raw occ_api (\<lambda>w cf. Inr cf) \<lparr>opt_completed = False\<rparr> (occ_begin True bank)
          ''accounts'' (KVec [2]) [0] = (Inr (), t2, bank)
     \<and> opt_commit (life_of occ_db_calls True) \<lparr>opt_completed = False\<rparr>
          (t2, occ_write [PutW (Cf ''accounts'') [1] [9]] bank) = (Inr (), (t2, s4), [Commit, Destroy])
     \<and> occ_view s4 ''accounts'' [1] = Some [9] \<and> occ_view s4 ''accounts'' [2] = Some [0]"
proof -
  define ctx where "ctx = \<lparr>opt_completed = False\<rparr>"
  define H where "H = (\<lambda>(w :: occ_txn \<times> occ_db) cf :: string. (Inr cf :: string store_result))"
  define s3 where "s3 = occ_write [PutW (Cf ''accounts'') [1] [9]] bank"
  define t0 where "t0 = \<lparr>occ_staged = [], occ_snap = Some (occ_seq bank)\<rparr>"
  have bg: "occ_begin True bank = (t0, bank)" by (simp add: occ_begin_def t0_def)
  have empty: "occ_view bank ''accounts'' [1] = None"
    by (simp add: bank_def str_bytes_def)
  obtain t2 where put: "opt_put_cf_raw occ_api H ctx (occ_begin True bank) ''accounts'' (KVec [2]) [0] = (Inr (), t2, bank)"
    by (simp add: opt_put_cf_raw_def opt_check_completed_def ctx_def H_def occ_begin_def occ_api_def occ_stage_def
        on_handle_def prepare_def)
  have get: "opt_get_cf occ_api H raw_codec ctx (occ_begin True bank) ''accounts'' (KVec [1]) = Inr None"
    by (simp add: opt_get_cf_def opt_check_completed_def ctx_def H_def occ_begin_def occ_api_def occ_ops_def empty)
  have new: "opt_new (life_of occ_db_calls) True (t2, bank) = (ctx, t0, bank)"
    by (simp add: opt_new_def life_of_def occ_db_calls_def bg ctx_def)
  have lk: "lookup_ok occ_meaning H" by (simp add: lookup_ok_def H_def occ_meaning_def)
  have mv: "moved_on occ_tracking bank s3" unfolding s3_def by (rule occ_moved_on)
  have st: "tr_stamp occ_tracking s3 (''accounts'', [2]) \<le> tr_seq occ_tracking bank"
    by (simp add: s3_def occ_write_def occ_simps occ_stamp_def bank_def)
  obtain s4 where "opt_commit (life_of occ_db_calls True) ctx (t2, s3) = (Inr (), (t2, s4), [Commit, Destroy])"
      "occ_view s4 ''accounts'' [2] = Some [0]" "occ_view s4 ''accounts'' [1] = occ_view s3 ''accounts'' [1]"
    using stale_read_commits [OF occ_detects occ_only_conflicts lk new get [unfolded bg], where f = "\<lambda>_. [0]",
        OF put [unfolded bg] mv] st by (auto simp: occ_simps)
  moreover have "occ_view s3 ''accounts'' [1] = Some [9]"
    by (simp add: s3_def occ_write_def apply_ops_def occ_meaning_def)
  ultimately show ?thesis
    using put unfolding ctx_def H_def s3_def by (intro exI [of _ t2] exI [of _ s4]) simp
qed

text \<open>Two threads that each raise the byte under the key \<open>[7]\<close>, as \<open>execute_transaction\<close> runs them.\<close>

definition plain_bumps :: "nat \<Rightarrow> (occ_db, string, unit) program" where
  "plain_bumps i = \<lparr>prog_policy = no_should_retry, prog_snapshot = False, prog_body = bump [7]\<rparr>"

definition lost :: "(occ_db, occ_txn, string, unit) system" where
  "lost = play occ_db_calls occ_api plain_bumps [0, 1, 0, 1, 0, 0, 1, 1] (\<lambda>_. Starting 0, empty_occ, [])"

lemma bump_adds:
  "executes M (bump k) w a w1 \<longleftrightarrow> w1 = upd w DEFAULT_COLUMN_FAMILY_NAME k
     (Some [1 + (case w DEFAULT_COLUMN_FAMILY_NAME k of Some (n # _) \<Rightarrow> n | _ \<Rightarrow> 0)])"
  by (auto simp: bump_def executes_simps)

lemma serial_two:
  assumes "serial M P w [Committed i a, Committed j b] w2"
  shows "\<exists>w1. executes M (prog_body (P i)) w a w1 \<and> executes M (prog_body (P j)) w1 b w2"
proof -
  have nil: "serial M P w hist w1 \<Longrightarrow> hist = [] \<Longrightarrow> w1 = w" for hist w1
    by (erule serial.cases) simp_all
  have one: "serial M P w hist w1 \<Longrightarrow> hist = [Committed i a] \<Longrightarrow> executes M (prog_body (P i)) w a w1" for hist w1
    by (erule serial.cases) (auto dest: nil)
  from assms show ?thesis by (rule serial.cases) (auto dest: one)
qed


end
