(* ===== verification/Float64.thy ===== *)
theory Float64
  imports Prelude Complex_Main
begin

text \<open>
  The part of Rust's \<open>f64\<close> that the tuning profiles compute with: conversion of a \<open>usize\<close>,
  multiplication, comparison with a literal and the saturating \<open>as\<close> casts to integers, with IEEE 754
  binary64 rounding to nearest, ties to even.

  A finite double is the rational number that it stands for. The two zeros are one value here: no
  operation that is used tells them apart.
\<close>

datatype f64 = Finite rat | Infinite bool | NaN

text \<open>\<open>Infinite True\<close> is the negative infinity.\<close>

section \<open>Rounding\<close>

function bit_count :: "int \<Rightarrow> int" where
  "bit_count n = (if n \<le> 0 then 0 else 1 + bit_count (n div 2))"
  by pat_completeness auto
termination by (relation "measure nat") auto

declare bit_count.simps [simp del]

definition pow2 :: "int \<Rightarrow> rat" where
  "pow2 e = (if 0 \<le> e then 2 ^ nat e else 1 / 2 ^ nat (- e))"

text \<open>The exponent of a positive number: the greatest \<open>e\<close> with \<open>pow2 e \<le> x\<close>.\<close>

definition exponent :: "rat \<Rightarrow> int" where
  "exponent x =
     (case quotient_of x of
        (p, q) \<Rightarrow>
          (let e = bit_count p - bit_count q in
           if pow2 e \<le> x then e else e - 1))"

definition round_half_even :: "rat \<Rightarrow> int" where
  "round_half_even x =
     (let f = \<lfloor>x\<rfloor>; d = x - of_int f in
      if d < 1 / 2 then f else if 1 / 2 < d then f + 1 else if even f then f else f + 1)"

text \<open>53 bits of precision, subnormal numbers below exponent -1022, overflow from \<open>2 ^ 1024\<close>.\<close>

definition round64 :: "rat \<Rightarrow> f64" where
  "round64 x =
     (if x = 0 then Finite 0
      else
        (let e = max (exponent \<bar>x\<bar>) (- 1022);
             ulp = pow2 (e - 52);
             y = of_int (round_half_even (\<bar>x\<bar> / ulp)) * ulp
         in if 2 ^ 1024 \<le> y then Infinite (x < 0)
            else Finite (if x < 0 then - y else y)))"

section \<open>Operations\<close>

definition f64_of_usize :: "usize \<Rightarrow> f64" where
  "f64_of_usize n = round64 (of_int (uint n))"

definition neg_sign :: "rat \<Rightarrow> bool" where
  "neg_sign x = (x < 0)"

fun f64_mul :: "f64 \<Rightarrow> f64 \<Rightarrow> f64" where
  "f64_mul (Finite a) (Finite b) = round64 (a * b)"
| "f64_mul (Infinite s) (Finite b) = (if b = 0 then NaN else Infinite (s \<noteq> neg_sign b))"
| "f64_mul (Finite a) (Infinite s) = (if a = 0 then NaN else Infinite (neg_sign a \<noteq> s))"
| "f64_mul (Infinite s) (Infinite t) = Infinite (s \<noteq> t)"
| "f64_mul NaN _ = NaN"
| "f64_mul _ NaN = NaN"

text \<open>Every comparison with a NaN is false.\<close>

fun f64_less :: "f64 \<Rightarrow> f64 \<Rightarrow> bool" where
  "f64_less (Finite a) (Finite b) = (a < b)"
| "f64_less (Infinite s) (Finite b) = s"
| "f64_less (Finite a) (Infinite s) = (\<not> s)"
| "f64_less (Infinite s) (Infinite t) = (s \<and> \<not> t)"
| "f64_less NaN _ = False"
| "f64_less _ NaN = False"

section \<open>Saturating integer operations\<close>

definition clamp :: "int \<Rightarrow> int \<Rightarrow> int \<Rightarrow> int" where
  "clamp lo hi x = max lo (min hi x)"

definition truncate :: "rat \<Rightarrow> int" where
  "truncate x = (if x < 0 then - \<lfloor>- x\<rfloor> else \<lfloor>x\<rfloor>)"

text \<open>\<open>x as T\<close>: towards zero, to the nearest value of the type, NaN to 0.\<close>

fun f64_cast :: "int \<Rightarrow> int \<Rightarrow> f64 \<Rightarrow> int" where
  "f64_cast lo hi (Finite x) = clamp lo hi (truncate x)"
| "f64_cast lo hi (Infinite s) = (if s then lo else hi)"
| "f64_cast lo hi NaN = 0"

type_synonym i64 = "64 word"
type_synonym i32 = "32 word"

definition i64_min :: int where "i64_min = - (2 ^ 63)"
definition i64_max :: int where "i64_max = 2 ^ 63 - 1"
definition usize_max :: int where "usize_max = 2 ^ 64 - 1"

definition f64_to_i64 :: "f64 \<Rightarrow> i64" where
  "f64_to_i64 x = word_of_int (f64_cast i64_min i64_max x)"

definition f64_to_usize :: "f64 \<Rightarrow> usize" where
  "f64_to_usize x = word_of_int (f64_cast 0 usize_max x)"

definition i64_saturating_mul :: "i64 \<Rightarrow> i64 \<Rightarrow> i64" where
  "i64_saturating_mul a b = word_of_int (clamp i64_min i64_max (sint a * sint b))"

definition usize_saturating_mul :: "usize \<Rightarrow> usize \<Rightarrow> usize" where
  "usize_saturating_mul a b = word_of_int (clamp 0 usize_max (uint a * uint b))"

section \<open>Lemmas\<close>

lemma clamp_bounds: "lo \<le> hi \<Longrightarrow> lo \<le> clamp lo hi x \<and> clamp lo hi x \<le> hi"
  by (simp add: clamp_def)

lemma sint_word_of_int_clamp:
  "sint (word_of_int (clamp i64_min i64_max x) :: i64) = clamp i64_min i64_max x"
  by (simp add: signed_of_int signed_take_bit_int_eq_self_iff clamp_def i64_min_def i64_max_def)

lemma sint_i64_saturating_mul:
  "sint (i64_saturating_mul a b) = clamp i64_min i64_max (sint a * sint b)"
  unfolding i64_saturating_mul_def by (rule sint_word_of_int_clamp)

lemma uint_usize_saturating_mul:
  "uint (usize_saturating_mul a b) = min usize_max (uint a * uint b)"
proof -
  have "0 \<le> uint a * uint b" by simp
  then show ?thesis
    by (simp add: usize_saturating_mul_def clamp_def unsigned_of_int usize_max_def take_bit_int_eq_self_iff)
qed

lemma f64_cast_range: "lo \<le> 0 \<Longrightarrow> 0 \<le> hi \<Longrightarrow> lo \<le> f64_cast lo hi x \<and> f64_cast lo hi x \<le> hi"
  by (cases x) (auto simp: clamp_def)

lemma sint_f64_to_i64: "sint (f64_to_i64 x) = f64_cast i64_min i64_max x"
proof -
  have "f64_cast i64_min i64_max x = clamp i64_min i64_max (f64_cast i64_min i64_max x)"
    using f64_cast_range [of i64_min i64_max x] by (simp add: clamp_def i64_min_def i64_max_def)
  then show ?thesis
    unfolding f64_to_i64_def by (metis sint_word_of_int_clamp)
qed

lemma f64_not_less_cast:
  assumes "\<not> f64_less x (Finite c)" and "x \<noteq> NaN" and "0 \<le> c" and "lo \<le> \<lfloor>c\<rfloor>" and "\<lfloor>c\<rfloor> \<le> hi"
  shows "\<lfloor>c\<rfloor> \<le> f64_cast lo hi x"
proof (cases x)
  case (Finite a)
  with assms have "c \<le> a" by simp
  then have "\<lfloor>c\<rfloor> \<le> \<lfloor>a\<rfloor>" by (rule floor_mono)
  with Finite assms \<open>c \<le> a\<close> show ?thesis by (simp add: clamp_def truncate_def)
qed (use assms in auto)

end
