(* ===== verification/Tunable.thy ===== *)
theory Tunable
  imports Float64
begin

text \<open>
  \<open>src/tuner/tunable.rs\<close>: the wrapper around the options of RocksDB that remembers which settings were
  made explicitly. A \<open>set\<close> method makes the setting and locks its key; the \<open>tune\<close> method of the same
  name makes it only while the key is not locked.

  The options are a value of the crate \<open>rocksdb\<close>. What a setter does to them is RocksDB's business, so the
  model keeps the setter calls in the order in which they were made.
\<close>

section \<open>Options\<close>

datatype compression_lib =
    NoneCompression | Bz2Compression | Lz4Compression | Lz4hcCompression | SnappyCompression
  | ZlibCompression | ZstdCompression

datatype compaction_style = LevelStyle | UniversalStyle | FifoStyle

datatype recovery_lib =
    LibAbsoluteConsistency | LibPointInTime | LibSkipAnyCorruptedRecord
  | LibTolerateCorruptedTailRecords

datatype block_call =
    BloomFilter f64 bool
  | WholeKeyFiltering bool
  | CacheIndexAndFilterBlocks bool
  | PinL0FilterAndIndexBlocksInCache bool

datatype fifo_call = MaxTableFilesSize u64
datatype universal_call = SizeRatio i32 | MinMergeWidth i32 | MaxMergeWidth i32

datatype ordering = OrdLess | OrdEqual | OrdGreater
type_synonym comparator = "bytes \<Rightarrow> bytes \<Rightarrow> ordering"

text \<open>The setters behind the methods that the macro generates.\<close>

datatype macro_opt =
    CreateIfMissing bool
  | CreateMissingColumnFamilies bool
  | IncreaseParallelism i32
  | MaxOpenFiles i32
  | MaxBackgroundJobs i32
  | StatsDumpPeriodSec "32 word"
  | RateLimiter i64 i64 i32
  | BytesPerSync u64
  | WalBytesPerSync u64
  | AllowConcurrentMemtableWrite bool
  | EnableWriteThreadAdaptiveYield bool
  | AtomicFlush bool
  | WriteBufferSize usize
  | MaxWriteBufferNumber i32
  | NumLevels i32
  | Level0FileNumCompactionTrigger i32
  | Level0SlowdownWritesTrigger i32
  | Level0StopWritesTrigger i32
  | TargetFileSizeBase u64
  | MaxBytesForLevelBase u64
  | MaxCompactionBytes u64
  | MemtableWholeKeyFiltering bool
  | MemtablePrefixBloomSizeRatio f64
  | OptimizeLevelStyleCompaction usize
  | OptimizeUniversalStyleCompaction usize
  | OptimizeFiltersForHits bool

text \<open>
  All setter calls that the crate and its examples make on options. A cache is its capacity, a write buffer manager its
  size and its stall flag.
\<close>

datatype ('m, 'f) opt_call =
    Macro macro_opt
  | RowCache usize
  | WriteBufferManager usize bool
  | BlockBasedTableFactory "block_call list"
  | CompactionStyle compaction_style
  | CompressionTypeOpt compression_lib
  | BottommostCompressionType compression_lib
  | FifoCompaction "fifo_call list"
  | UniversalCompaction "universal_call list"
  | WalRecoveryMode recovery_lib
  | EnableStatistics
  | MergeOperator string 'm 'm
  | SetComparator string comparator
  | CompactionFilterOpt string 'f
  | DbLogDir string

type_synonym ('m, 'f) options = "('m, 'f) opt_call list"

section \<open>Tunable\<close>

record ('m, 'f) tunable =
  inner :: "('m, 'f) options"
  locked :: "string set"

definition tunable_new :: "('m, 'f) options \<Rightarrow> ('m, 'f) tunable" where
  "tunable_new x = \<lparr>inner = x, locked = {}\<rparr>"

definition into_inner :: "('m, 'f) tunable \<Rightarrow> ('m, 'f) options" where
  "into_inner t = inner t"

definition is_locked :: "('m, 'f) tunable \<Rightarrow> string \<Rightarrow> bool" where
  "is_locked t k \<longleftrightarrow> k \<in> locked t"

definition lock :: "string \<Rightarrow> ('m, 'f) tunable \<Rightarrow> ('m, 'f) tunable" where
  "lock k t = t\<lparr>locked := insert k (locked t)\<rparr>"

text \<open>A setter call on the public field \<open>inner\<close>.\<close>

definition call :: "('m, 'f) opt_call \<Rightarrow> ('m, 'f) tunable \<Rightarrow> ('m, 'f) tunable" where
  "call x t = t\<lparr>inner := inner t @ [x]\<rparr>"

text \<open>The keys of the generated methods.\<close>

fun macro_key :: "macro_opt \<Rightarrow> string" where
  "macro_key (CreateIfMissing _) = ''db_create_if_missing''"
| "macro_key (CreateMissingColumnFamilies _) = ''db_create_missing_column_families''"
| "macro_key (IncreaseParallelism _) = ''db_increase_parallelism''"
| "macro_key (MaxOpenFiles _) = ''db_max_open_files''"
| "macro_key (MaxBackgroundJobs _) = ''db_max_background_jobs''"
| "macro_key (StatsDumpPeriodSec _) = ''db_stats_dump_period_sec''"
| "macro_key (RateLimiter _ _ _) = ''db_rate_limiter''"
| "macro_key (BytesPerSync _) = ''db_bytes_per_sync''"
| "macro_key (WalBytesPerSync _) = ''db_wal_bytes_per_sync''"
| "macro_key (AllowConcurrentMemtableWrite _) = ''db_allow_concurrent_memtable_write''"
| "macro_key (EnableWriteThreadAdaptiveYield _) = ''db_enable_write_thread_adaptive_yield''"
| "macro_key (AtomicFlush _) = ''db_atomic_flush''"
| "macro_key (WriteBufferSize _) = ''cf_write_buffer_size''"
| "macro_key (MaxWriteBufferNumber _) = ''cf_max_write_buffer_number''"
| "macro_key (NumLevels _) = ''cf_num_levels''"
| "macro_key (Level0FileNumCompactionTrigger _) = ''cf_level0_file_num_compaction_trigger''"
| "macro_key (Level0SlowdownWritesTrigger _) = ''cf_level0_slowdown_writes_trigger''"
| "macro_key (Level0StopWritesTrigger _) = ''cf_level0_stop_writes_trigger''"
| "macro_key (TargetFileSizeBase _) = ''cf_target_file_size_base''"
| "macro_key (MaxBytesForLevelBase _) = ''cf_max_bytes_for_level_base''"
| "macro_key (MaxCompactionBytes _) = ''cf_max_compaction_bytes''"
| "macro_key (MemtableWholeKeyFiltering _) = ''cf_memtable_whole_key_filtering''"
| "macro_key (MemtablePrefixBloomSizeRatio _) = ''cf_memtable_prefix_bloom_size_ratio''"
| "macro_key (OptimizeLevelStyleCompaction _) = ''cf_optimize_level_style_compaction''"
| "macro_key (OptimizeUniversalStyleCompaction _) = ''cf_optimize_universal_style_compaction''"
| "macro_key (OptimizeFiltersForHits _) = ''cf_optimize_filters_for_hits''"

text \<open>The two methods that the macro generates for each of them.\<close>

definition set_opt :: "macro_opt \<Rightarrow> ('m, 'f) tunable \<Rightarrow> ('m, 'f) tunable" where
  "set_opt x t = lock (macro_key x) (call (Macro x) t)"

definition tune_opt :: "macro_opt \<Rightarrow> ('m, 'f) tunable \<Rightarrow> ('m, 'f) tunable" where
  "tune_opt x t = (if \<not> is_locked t (macro_key x) then call (Macro x) t else t)"

subsection \<open>The methods written by hand\<close>

definition set_row_cache :: "usize \<Rightarrow> ('m, 'f) tunable \<Rightarrow> ('m, 'f) tunable" where
  "set_row_cache cache t = lock ''db_row_cache'' (call (RowCache cache) t)"

definition tune_set_row_cache :: "usize \<Rightarrow> ('m, 'f) tunable \<Rightarrow> ('m, 'f) tunable" where
  "tune_set_row_cache cache t =
     (if \<not> is_locked t ''db_row_cache'' then call (RowCache cache) t else t)"

definition set_write_buffer_manager :: "usize \<Rightarrow> bool \<Rightarrow> ('m, 'f) tunable \<Rightarrow> ('m, 'f) tunable" where
  "set_write_buffer_manager bytes stall t =
     lock ''db_write_buffer_manager'' (call (WriteBufferManager bytes stall) t)"

definition tune_set_write_buffer_manager :: "usize \<Rightarrow> bool \<Rightarrow> ('m, 'f) tunable \<Rightarrow> ('m, 'f) tunable" where
  "tune_set_write_buffer_manager bytes stall t =
     (if \<not> is_locked t ''db_write_buffer_manager'' then call (WriteBufferManager bytes stall) t else t)"

definition set_block_based_table_factory :: "block_call list \<Rightarrow> ('m, 'f) tunable \<Rightarrow> ('m, 'f) tunable" where
  "set_block_based_table_factory factory_opts t =
     lock ''cf_block_based_table_factory'' (call (BlockBasedTableFactory factory_opts) t)"

definition tune_set_block_based_table_factory ::
    "block_call list \<Rightarrow> ('m, 'f) tunable \<Rightarrow> ('m, 'f) tunable" where
  "tune_set_block_based_table_factory factory_opts t =
     (if \<not> is_locked t ''cf_block_based_table_factory''
      then call (BlockBasedTableFactory factory_opts) t else t)"

definition set_compaction_style :: "compaction_style \<Rightarrow> ('m, 'f) tunable \<Rightarrow> ('m, 'f) tunable" where
  "set_compaction_style style t = lock ''cf_compaction_style'' (call (CompactionStyle style) t)"

definition tune_set_compaction_style :: "compaction_style \<Rightarrow> ('m, 'f) tunable \<Rightarrow> ('m, 'f) tunable" where
  "tune_set_compaction_style style t =
     (if \<not> is_locked t ''cf_compaction_style'' then call (CompactionStyle style) t else t)"

definition set_compression_type :: "compression_lib \<Rightarrow> ('m, 'f) tunable \<Rightarrow> ('m, 'f) tunable" where
  "set_compression_type ctype t = lock ''cf_compression_type'' (call (CompressionTypeOpt ctype) t)"

definition tune_set_compression_type :: "compression_lib \<Rightarrow> ('m, 'f) tunable \<Rightarrow> ('m, 'f) tunable" where
  "tune_set_compression_type ctype t =
     (if \<not> is_locked t ''cf_compression_type'' then call (CompressionTypeOpt ctype) t else t)"

definition set_bottommost_compression_type :: "compression_lib \<Rightarrow> ('m, 'f) tunable \<Rightarrow> ('m, 'f) tunable" where
  "set_bottommost_compression_type ctype t =
     lock ''cf_bottommost_compression_type'' (call (BottommostCompressionType ctype) t)"

definition tune_set_bottommost_compression_type ::
    "compression_lib \<Rightarrow> ('m, 'f) tunable \<Rightarrow> ('m, 'f) tunable" where
  "tune_set_bottommost_compression_type ctype t =
     (if \<not> is_locked t ''cf_bottommost_compression_type''
      then call (BottommostCompressionType ctype) t else t)"

definition set_compaction_options_fifo :: "fifo_call list \<Rightarrow> ('m, 'f) tunable \<Rightarrow> ('m, 'f) tunable" where
  "set_compaction_options_fifo fifo_opts t =
     lock ''cf_compaction_options_fifo'' (call (FifoCompaction fifo_opts) t)"

definition tune_set_compaction_options_fifo :: "fifo_call list \<Rightarrow> ('m, 'f) tunable \<Rightarrow> ('m, 'f) tunable" where
  "tune_set_compaction_options_fifo fifo_opts t =
     (if \<not> is_locked t ''cf_compaction_options_fifo'' then call (FifoCompaction fifo_opts) t else t)"

definition set_universal_compaction_options ::
    "universal_call list \<Rightarrow> ('m, 'f) tunable \<Rightarrow> ('m, 'f) tunable" where
  "set_universal_compaction_options univ_opts t =
     lock ''cf_universal_compaction_options'' (call (UniversalCompaction univ_opts) t)"

definition tune_set_universal_compaction_options ::
    "universal_call list \<Rightarrow> ('m, 'f) tunable \<Rightarrow> ('m, 'f) tunable" where
  "tune_set_universal_compaction_options univ_opts t =
     (if \<not> is_locked t ''cf_universal_compaction_options''
      then call (UniversalCompaction univ_opts) t else t)"


section \<open>Every method as one of two\<close>

text \<open>The key of a setter; the setters without one are only called on \<open>inner\<close>.\<close>

fun opt_key :: "('m, 'f) opt_call \<Rightarrow> string option" where
  "opt_key (Macro x) = Some (macro_key x)"
| "opt_key (RowCache _) = Some ''db_row_cache''"
| "opt_key (WriteBufferManager _ _) = Some ''db_write_buffer_manager''"
| "opt_key (BlockBasedTableFactory _) = Some ''cf_block_based_table_factory''"
| "opt_key (CompactionStyle _) = Some ''cf_compaction_style''"
| "opt_key (CompressionTypeOpt _) = Some ''cf_compression_type''"
| "opt_key (BottommostCompressionType _) = Some ''cf_bottommost_compression_type''"
| "opt_key (FifoCompaction _) = Some ''cf_compaction_options_fifo''"
| "opt_key (UniversalCompaction _) = Some ''cf_universal_compaction_options''"
| "opt_key _ = None"

datatype method_kind = SetMethod | TuneMethod

text \<open>A method call: the method for the setter \<open>x\<close>, which must have a key.\<close>

fun run_method :: "method_kind \<Rightarrow> ('m, 'f) opt_call \<Rightarrow> ('m, 'f) tunable \<Rightarrow> ('m, 'f) tunable" where
  "run_method SetMethod (Macro x) t = set_opt x t"
| "run_method TuneMethod (Macro x) t = tune_opt x t"
| "run_method SetMethod (RowCache c) t = set_row_cache c t"
| "run_method TuneMethod (RowCache c) t = tune_set_row_cache c t"
| "run_method SetMethod (WriteBufferManager n b) t = set_write_buffer_manager n b t"
| "run_method TuneMethod (WriteBufferManager n b) t = tune_set_write_buffer_manager n b t"
| "run_method SetMethod (BlockBasedTableFactory x) t = set_block_based_table_factory x t"
| "run_method TuneMethod (BlockBasedTableFactory x) t = tune_set_block_based_table_factory x t"
| "run_method SetMethod (CompactionStyle x) t = set_compaction_style x t"
| "run_method TuneMethod (CompactionStyle x) t = tune_set_compaction_style x t"
| "run_method SetMethod (CompressionTypeOpt x) t = set_compression_type x t"
| "run_method TuneMethod (CompressionTypeOpt x) t = tune_set_compression_type x t"
| "run_method SetMethod (BottommostCompressionType x) t = set_bottommost_compression_type x t"
| "run_method TuneMethod (BottommostCompressionType x) t = tune_set_bottommost_compression_type x t"
| "run_method SetMethod (FifoCompaction x) t = set_compaction_options_fifo x t"
| "run_method TuneMethod (FifoCompaction x) t = tune_set_compaction_options_fifo x t"
| "run_method SetMethod (UniversalCompaction x) t = set_universal_compaction_options x t"
| "run_method TuneMethod (UniversalCompaction x) t = tune_set_universal_compaction_options x t"
| "run_method _ _ t = t"

lemmas tunable_method_defs =
  set_opt_def tune_opt_def set_row_cache_def tune_set_row_cache_def set_write_buffer_manager_def
  tune_set_write_buffer_manager_def set_block_based_table_factory_def
  tune_set_block_based_table_factory_def set_compaction_style_def tune_set_compaction_style_def
  set_compression_type_def tune_set_compression_type_def set_bottommost_compression_type_def
  tune_set_bottommost_compression_type_def set_compaction_options_fifo_def
  tune_set_compaction_options_fifo_def set_universal_compaction_options_def
  tune_set_universal_compaction_options_def

lemma call_simps [simp]:
  "inner (call x t) = inner t @ [x]" "locked (call x t) = locked t"
  by (simp_all add: call_def)

lemma lock_simps [simp]:
  "inner (lock k t) = inner t" "locked (lock k t) = insert k (locked t)"
  by (simp_all add: lock_def)

lemma run_set:
  "opt_key x = Some k \<Longrightarrow> run_method SetMethod x t = lock k (call x t)"
  by (cases x) (simp_all add: tunable_method_defs)

lemma run_tune:
  "opt_key x = Some k \<Longrightarrow> run_method TuneMethod x t = (if k \<in> locked t then t else call x t)"
  by (cases x) (simp_all add: tunable_method_defs is_locked_def)

section \<open>What is in effect\<close>

text \<open>The calls that concern a key; the last one is in effect.\<close>

definition calls_of :: "string \<Rightarrow> ('m, 'f) options \<Rightarrow> ('m, 'f) options" where
  "calls_of k xs = filter (\<lambda>x. opt_key x = Some k) xs"

definition last_call :: "string \<Rightarrow> ('m, 'f) options \<Rightarrow> ('m, 'f) opt_call option" where
  "last_call k xs = (case rev (calls_of k xs) of [] \<Rightarrow> None | x # _ \<Rightarrow> Some x)"

lemma calls_of_simps [simp]:
  "calls_of k [] = []"
  "calls_of k (x # xs) = (if opt_key x = Some k then x # calls_of k xs else calls_of k xs)"
  "calls_of k (xs @ ys) = calls_of k xs @ calls_of k ys"
  by (simp_all add: calls_of_def)

lemma last_call_Nil [simp]: "last_call k [] = None"
  by (simp add: last_call_def)

lemma last_call_snoc [simp]:
  "last_call k (xs @ [x]) = (if opt_key x = Some k then Some x else last_call k xs)"
  by (simp add: last_call_def)

lemma last_call_cong: "calls_of k xs = calls_of k ys \<Longrightarrow> last_call k xs = last_call k ys"
  by (simp add: last_call_def)

fun run_methods :: "(method_kind \<times> ('m, 'f) opt_call) list \<Rightarrow> ('m, 'f) tunable \<Rightarrow> ('m, 'f) tunable" where
  "run_methods [] t = t"
| "run_methods ((m, x) # rest) t = run_methods rest (run_method m x t)"

text \<open>The arguments of the calls of one kind of method.\<close>

definition of_kind :: "method_kind \<Rightarrow> (method_kind \<times> ('m, 'f) opt_call) list \<Rightarrow> ('m, 'f) options" where
  "of_kind m ms = map snd (filter (\<lambda>c. fst c = m) ms)"

lemma run_methods_snoc: "run_methods (ms @ [(m, x)]) t = run_method m x (run_methods ms t)"
  by (induction ms arbitrary: t) auto

lemma of_kind_simps [simp]:
  "of_kind m [] = []"
  "of_kind m (ms @ [(n, x)]) = (if n = m then of_kind m ms @ [x] else of_kind m ms)"
  by (auto simp: of_kind_def)

lemma run_method_no_key: "opt_key x = None \<Longrightarrow> run_method m x t = t"
  by (cases x; cases m) simp_all

lemma run_methods_locked:
  "k \<in> locked (run_methods ms (tunable_new [])) \<longleftrightarrow> last_call k (of_kind SetMethod ms) \<noteq> None"
proof (induction ms rule: rev_induct)
  case (snoc c ms)
  obtain m x where c: "c = (m, x)" by fastforce
  show ?case
  proof (cases "opt_key x")
    case None
    with snoc show ?thesis by (simp add: c run_methods_snoc run_method_no_key)
  next
    case (Some j)
    with snoc show ?thesis
      by (cases m) (auto simp: c run_methods_snoc run_set [OF Some] run_tune [OF Some])
  qed
qed (simp add: tunable_new_def)

lemma run_methods_last:
  "last_call k (inner (run_methods ms (tunable_new [])))
     = (case last_call k (of_kind SetMethod ms) of
          Some x \<Rightarrow> Some x
        | None \<Rightarrow> last_call k (of_kind TuneMethod ms))"
proof (induction ms rule: rev_induct)
  case (snoc c ms)
  obtain m x where c: "c = (m, x)" by fastforce
  show ?case
  proof (cases "opt_key x")
    case None
    with snoc show ?thesis
      by (cases m) (auto simp: c run_methods_snoc run_method_no_key split: option.splits)
  next
    case (Some j)
    with snoc run_methods_locked [of k ms] show ?thesis
      by (cases m)
         (auto simp: c run_methods_snoc run_set [OF Some] run_tune [OF Some] split: option.splits)
  qed
qed (simp add: tunable_new_def)

section \<open>Functions that respect the locks\<close>

text \<open>
  A function on tunable options respects the locks, the keys in \<open>E\<close> exempted, if it keeps the calls of
  every locked key as they are and unlocks nothing.
\<close>

definition keeps_locks :: "string set \<Rightarrow> (('m, 'f) tunable \<Rightarrow> ('m, 'f) tunable) \<Rightarrow> bool" where
  "keeps_locks E f \<longleftrightarrow>
     (\<forall>t. locked t \<subseteq> locked (f t)
        \<and> (\<forall>k \<in> locked t. k \<notin> E \<longrightarrow> calls_of k (inner (f t)) = calls_of k (inner t)))"

lemma keeps_locks_id [simp, intro]: "keeps_locks E (\<lambda>t. t)" "keeps_locks E id"
  by (simp_all add: keeps_locks_def)

lemma keeps_locks_comp [intro]: "keeps_locks E f \<Longrightarrow> keeps_locks E g \<Longrightarrow> keeps_locks E (\<lambda>t. g (f t))"
  unfolding keeps_locks_def by (metis subsetD subsetI)

lemma keeps_locks_mono: "keeps_locks E f \<Longrightarrow> E \<subseteq> F \<Longrightarrow> keeps_locks F f"
  unfolding keeps_locks_def by blast

text \<open>Statements one after the other.\<close>

definition stmts :: "(('m, 'f) tunable \<Rightarrow> ('m, 'f) tunable) list \<Rightarrow> ('m, 'f) tunable \<Rightarrow> ('m, 'f) tunable" where
  "stmts fs t = foldl (\<lambda>t f. f t) t fs"

definition only_if :: "bool \<Rightarrow> (('m, 'f) tunable \<Rightarrow> ('m, 'f) tunable) \<Rightarrow> ('m, 'f) tunable \<Rightarrow> ('m, 'f) tunable" where
  "only_if b f t = (if b then f t else t)"

lemma stmts_simps [simp]:
  "stmts [] t = t"
  "stmts (f # fs) t = stmts fs (f t)"
  by (simp_all add: stmts_def)

lemma only_if_simps [simp]: "only_if True f = f" "only_if False f = id"
  by (auto simp: only_if_def fun_eq_iff)

lemma keeps_locks_only_if [intro]: "(b \<Longrightarrow> keeps_locks E f) \<Longrightarrow> keeps_locks E (only_if b f)"
  by (cases b) auto

lemma keeps_locks_stmts [intro]: "(\<And>f. f \<in> set fs \<Longrightarrow> keeps_locks E f) \<Longrightarrow> keeps_locks E (stmts fs)"
proof (induction fs)
  case (Cons f fs)
  have "keeps_locks E (\<lambda>t. stmts fs (f t))"
    by (rule keeps_locks_comp) (use Cons in auto)
  moreover have "(\<lambda>t. stmts fs (f t)) = stmts (f # fs)" by (simp add: fun_eq_iff)
  ultimately show ?case by simp
qed (simp add: keeps_locks_def)

section \<open>Properties\<close>


end
