(* ===== verification/Profiles.thy ===== *)
theory Profiles
  imports Tunable "HOL-Library.Signed_Division"
begin

text \<open>
  \<open>src/tuner/profiles.rs\<close> and the trait of \<open>src/tuner/pattern_tuner.rs\<close>: the predefined tuning profiles
  and the setter calls that they make on the options of a database and of a column family.

  The number of processors is a parameter. The trait is the locale \<open>pattern_tuner\<close>: a tuner keeps
  every setting that was locked, with the exceptions that the locale names; the profiles are
  interpreted in it.
\<close>

section \<open>Arithmetic\<close>

definition i32_max :: "i32 \<Rightarrow> i32 \<Rightarrow> i32" where
  "i32_max a b = (if sint a < sint b then b else a)"

definition i32_div :: "i32 \<Rightarrow> i32 \<Rightarrow> i32" where
  "i32_div a b = word_of_int (sint a sdiv sint b)"

definition MIB :: usize where
  "MIB = 1024 * 1024"

section \<open>Profiles\<close>

datatype io_cap_level = LowBurst | Balanced | LowLatency

record io_cap_opts =
  io_enable_auto_io_cap :: bool
  io_cap_fraction :: "f64 option"
  io_level :: io_cap_level

definition io_cap_default :: io_cap_opts where
  "io_cap_default = \<lparr>io_enable_auto_io_cap = False, io_cap_fraction = None, io_level = Balanced\<rparr>"

datatype tuning_profile =
    LatestValue
      (mem_budget_mb_per_cf_hint: usize) (use_bloom_filters: bool) (enable_compression: bool)
      (io_cap: "io_cap_opts option")
  | MemorySaver
      (total_mem_mb: usize) (db_block_cache_fraction: f64) (db_write_buffer_manager_fraction: f64)
      (expected_cf_count_for_write_buffers: usize) (enable_light_compression: bool)
      (io_cap: "io_cap_opts option")
  | RealTime
      (total_mem_mb: usize) (db_block_cache_fraction: f64) (db_write_buffer_manager_fraction: f64)
      (db_background_threads: i32) (enable_fast_compression: bool) (use_bloom_filters: bool)
      (io_cap: "io_cap_opts option")
  | TimeSeries
      (mem_budget_mb_per_cf_hint: usize) (cf_use_fifo_compaction: bool)
      (cf_fifo_compaction_total_size_mb: "usize option") (enable_zstd_compression: bool)
      (io_cap: "io_cap_opts option")
  | SparseBitmap
      (mem_budget_mb_per_cf_hint: usize) (cf_use_universal_compaction: bool)
      (enable_fast_compression_if_beneficial: bool) (io_cap: "io_cap_opts option")

definition io_opts :: "tuning_profile \<Rightarrow> io_cap_opts" where
  "io_opts self = (case io_cap self of None \<Rightarrow> io_cap_default | Some x \<Rightarrow> x)"

definition enable_auto_io_cap :: "tuning_profile \<Rightarrow> bool" where
  "enable_auto_io_cap self = io_enable_auto_io_cap (io_opts self)"

definition profile_io_cap_level :: "tuning_profile \<Rightarrow> io_cap_level" where
  "profile_io_cap_level self = io_level (io_opts self)"

fun map_level_to_params :: "io_cap_level \<Rightarrow> i64 \<times> i32" where
  "map_level_to_params LowBurst = (200000, 5)"
| "map_level_to_params Balanced = (100000, 10)"
| "map_level_to_params LowLatency = (50000, 15)"

definition io_cap_base_and_fraction :: "tuning_profile \<Rightarrow> f64 \<times> f64" where
  "io_cap_base_and_fraction self =
     (case (case self of
              MemorySaver mb _ _ _ _ _ \<Rightarrow> (f64_of_usize mb, round64 (5 / 100))
            | RealTime mb _ _ _ _ _ _ \<Rightarrow> (f64_of_usize mb, round64 (5 / 100))
            | LatestValue hint _ _ _ \<Rightarrow> (f64_mul (f64_of_usize hint) (Finite 4), round64 (10 / 100))
            | TimeSeries hint _ _ _ _ \<Rightarrow> (f64_mul (f64_of_usize hint) (Finite 4), round64 (10 / 100))
            | SparseBitmap hint _ _ _ \<Rightarrow> (f64_mul (f64_of_usize hint) (Finite 4), round64 (10 / 100)))
      of (base_mb, default_frac) \<Rightarrow>
        (base_mb, case io_cap_fraction (io_opts self) of None \<Rightarrow> default_frac | Some x \<Rightarrow> x))"

section \<open>Options of the database\<close>

text \<open>The rate in bytes per second: megabytes, at least 16, as a saturated \<open>i64\<close>.\<close>

definition io_bytes_per_sec :: "tuning_profile \<Rightarrow> i64" where
  "io_bytes_per_sec self =
     (case io_cap_base_and_fraction self of
        (base_mb, fraction) \<Rightarrow>
          (let rate_mb = f64_mul base_mb fraction;
               rate_mb = (if f64_less rate_mb (Finite 16) then Finite 16 else rate_mb)
           in i64_saturating_mul (f64_to_i64 rate_mb) (1024 * 1024)))"

definition cap_io :: "tuning_profile \<Rightarrow> ('m, 'f) tunable \<Rightarrow> ('m, 'f) tunable" where
  "cap_io self =
     (case map_level_to_params (profile_io_cap_level self) of
        (refill_us, fairness) \<Rightarrow>
          tune_opt (RateLimiter (io_bytes_per_sec self) refill_us fairness))"

definition mb_fraction_bytes :: "usize \<Rightarrow> f64 \<Rightarrow> usize" where
  "mb_fraction_bytes mb fraction = usize_saturating_mul (f64_to_usize (f64_mul (f64_of_usize mb) fraction)) MIB"

text \<open>The row cache and the write buffer manager that two profiles set up.\<close>

definition tune_memory :: "usize \<Rightarrow> f64 \<Rightarrow> f64 \<Rightarrow> ('m, 'f) tunable \<Rightarrow> ('m, 'f) tunable" where
  "tune_memory mb cache_fraction wbm_fraction =
     (let cache_size_bytes = mb_fraction_bytes mb cache_fraction;
          wbm_size_bytes = mb_fraction_bytes mb wbm_fraction
      in stmts
        [only_if (cache_size_bytes > 0) (tune_set_row_cache cache_size_bytes),
         only_if (wbm_size_bytes > 0) (tune_set_write_buffer_manager wbm_size_bytes False)])"

text \<open>What the profiles add to the common settings.\<close>

fun tune_db_profile :: "i32 \<Rightarrow> tuning_profile \<Rightarrow> ('m, 'f) tunable \<Rightarrow> ('m, 'f) tunable" where
  "tune_db_profile core_count (MemorySaver mb cache_fraction wbm_fraction _ _ _) =
     stmts
       [tune_memory mb cache_fraction wbm_fraction,
        tune_opt (MaxOpenFiles 512),
        tune_opt (IncreaseParallelism (i32_max (i32_div core_count 2) 1))]"
| "tune_db_profile core_count (RealTime mb cache_fraction wbm_fraction background_threads _ _ _) =
     (let bg_threads = i32_max background_threads 1 in
      stmts
        [tune_memory mb cache_fraction wbm_fraction,
         tune_opt (IncreaseParallelism bg_threads),
         tune_opt (MaxBackgroundJobs (i32_max bg_threads 1)),
         tune_opt (BytesPerSync (1024 * 1024))])"
| "tune_db_profile core_count _ = id"

definition tune_db_opts :: "usize \<Rightarrow> tuning_profile \<Rightarrow> string \<Rightarrow> ('m, 'f) tunable \<Rightarrow> ('m, 'f) tunable" where
  "tune_db_opts num_cpus self db_name =
     (let core_count = (ucast (max num_cpus 1) :: i32) in
      stmts
        [tune_opt (IncreaseParallelism (i32_max core_count 2)),
         tune_opt (MaxOpenFiles (- 1)),
         tune_opt (AllowConcurrentMemtableWrite True),
         tune_opt (EnableWriteThreadAdaptiveYield True),
         only_if (enable_auto_io_cap self) (cap_io self),
         tune_db_profile core_count self])"

section \<open>Options of a column family\<close>

definition tune_latest_value :: "usize \<Rightarrow> bool \<Rightarrow> bool \<Rightarrow> ('m, 'f) tunable \<Rightarrow> ('m, 'f) tunable" where
  "tune_latest_value hint bloom compression =
     (let wb_size = usize_saturating_mul hint MIB div 2;
          bbto = (if bloom then [BloomFilter (Finite 10) False, WholeKeyFiltering True] else [])
            @ [CacheIndexAndFilterBlocks True, PinL0FilterAndIndexBlocksInCache True]
      in stmts
        [tune_opt (WriteBufferSize (max wb_size (64 * 1024 * 1024))),
         tune_opt (MaxWriteBufferNumber 4),
         tune_set_compaction_style LevelStyle,
         tune_opt (Level0FileNumCompactionTrigger 4),
         tune_opt (Level0SlowdownWritesTrigger 20),
         tune_opt (Level0StopWritesTrigger 36),
         (if compression then
            stmts [tune_set_compression_type ZstdCompression,
              tune_set_bottommost_compression_type ZstdCompression]
          else tune_set_compression_type NoneCompression),
         tune_set_block_based_table_factory bbto])"

definition tune_memory_saver :: "bool \<Rightarrow> ('m, 'f) tunable \<Rightarrow> ('m, 'f) tunable" where
  "tune_memory_saver light_compression =
     stmts
       [tune_opt (WriteBufferSize (max (4 * 1024 * 1024) (1024 * 1024))),
        tune_opt (MaxWriteBufferNumber 2),
        tune_set_compression_type (if light_compression then Lz4Compression else NoneCompression),
        tune_set_block_based_table_factory
          [CacheIndexAndFilterBlocks False, PinL0FilterAndIndexBlocksInCache False],
        tune_opt (OptimizeLevelStyleCompaction 0)]"

definition tune_real_time :: "bool \<Rightarrow> bool \<Rightarrow> ('m, 'f) tunable \<Rightarrow> ('m, 'f) tunable" where
  "tune_real_time fast_compression bloom =
     stmts
       [tune_opt (WriteBufferSize (64 * 1024 * 1024)),
        tune_opt (MaxWriteBufferNumber 3),
        tune_set_compaction_style LevelStyle,
        tune_opt (Level0FileNumCompactionTrigger 2),
        tune_opt (Level0SlowdownWritesTrigger 8),
        tune_opt (Level0StopWritesTrigger 12),
        tune_set_compression_type (if fast_compression then SnappyCompression else NoneCompression),
        tune_set_block_based_table_factory
          ((if bloom then [BloomFilter (Finite 10) False, WholeKeyFiltering True] else [])
            @ [CacheIndexAndFilterBlocks True]),
        tune_opt (OptimizeFiltersForHits True)]"

text \<open>With FIFO compaction the number of open files is set, not tuned: the call also locks it.\<close>

definition tune_time_series ::
    "usize \<Rightarrow> bool \<Rightarrow> usize option \<Rightarrow> bool \<Rightarrow> ('m, 'f) tunable \<Rightarrow> ('m, 'f) tunable" where
  "tune_time_series hint fifo fifo_size_mb zstd =
     stmts
       [tune_opt (WriteBufferSize (max (usize_saturating_mul hint MIB) (64 * 1024 * 1024))),
        (if zstd then
           stmts [tune_set_compression_type ZstdCompression,
             tune_set_bottommost_compression_type ZstdCompression]
         else tune_set_compression_type NoneCompression),
        only_if fifo
          (stmts
             [tune_set_compaction_style FifoStyle,
              (case fifo_size_mb of
                 None \<Rightarrow> id
               | Some size_mb \<Rightarrow>
                   tune_set_compaction_options_fifo [MaxTableFilesSize (usize_saturating_mul size_mb MIB)]),
              set_opt (MaxOpenFiles (- 1))])]"

definition tune_sparse_bitmap :: "usize \<Rightarrow> bool \<Rightarrow> bool \<Rightarrow> ('m, 'f) tunable \<Rightarrow> ('m, 'f) tunable" where
  "tune_sparse_bitmap hint universal fast_compression =
     stmts
       [tune_opt (WriteBufferSize (max (usize_saturating_mul hint MIB) (128 * 1024 * 1024))),
        tune_opt (MaxWriteBufferNumber 4),
        tune_set_compression_type (if fast_compression then SnappyCompression else NoneCompression),
        (if universal then
           stmts
             [tune_set_compaction_style UniversalStyle,
              tune_set_universal_compaction_options [SizeRatio 10, MinMergeWidth 2, MaxMergeWidth 10],
              tune_opt (OptimizeUniversalStyleCompaction 0)]
         else tune_set_compaction_style LevelStyle)]"

fun tune_cf_opts :: "tuning_profile \<Rightarrow> string \<Rightarrow> ('m, 'f) tunable \<Rightarrow> ('m, 'f) tunable" where
  "tune_cf_opts (LatestValue hint bloom compression _) cf_name = tune_latest_value hint bloom compression"
| "tune_cf_opts (MemorySaver _ _ _ _ light_compression _) cf_name = tune_memory_saver light_compression"
| "tune_cf_opts (RealTime _ _ _ _ fast_compression bloom _) cf_name = tune_real_time fast_compression bloom"
| "tune_cf_opts (TimeSeries hint fifo fifo_size_mb zstd _) cf_name =
     tune_time_series hint fifo fifo_size_mb zstd"
| "tune_cf_opts (SparseBitmap hint universal fast_compression _) cf_name =
     tune_sparse_bitmap hint universal fast_compression"


section \<open>Profiles and locks\<close>

lemma keeps_locks_tune_opt [intro]: "keeps_locks E (tune_opt x)"
  by (auto simp: keeps_locks_def tune_opt_def is_locked_def)

lemma keeps_locks_set_opt: "macro_key x \<in> E \<Longrightarrow> keeps_locks E (set_opt x)"
  by (auto simp: keeps_locks_def set_opt_def)

lemma keeps_locks_hand_written [intro]:
  "keeps_locks E (tune_set_row_cache c)"
  "keeps_locks E (tune_set_write_buffer_manager n b)"
  "keeps_locks E (tune_set_block_based_table_factory bs)"
  "keeps_locks E (tune_set_compaction_style st)"
  "keeps_locks E (tune_set_compression_type ct)"
  "keeps_locks E (tune_set_bottommost_compression_type ct)"
  "keeps_locks E (tune_set_compaction_options_fifo fs)"
  "keeps_locks E (tune_set_universal_compaction_options us)"
  by (auto simp: keeps_locks_def tunable_method_defs is_locked_def)

lemma keeps_locks_if: "(b \<Longrightarrow> keeps_locks E f) \<Longrightarrow> (\<not> b \<Longrightarrow> keeps_locks E g) \<Longrightarrow> keeps_locks E (if b then f else g)"
  by simp

lemmas keeps_locks_rules =
  keeps_locks_stmts keeps_locks_only_if keeps_locks_if keeps_locks_tune_opt keeps_locks_hand_written

lemma keeps_locks_memory: "keeps_locks E (tune_memory mb c w)"
  unfolding tune_memory_def Let_def by (intro keeps_locks_stmts) (auto intro!: keeps_locks_rules)

lemma keeps_locks_cap_io: "keeps_locks E (cap_io self)"
  unfolding cap_io_def by (auto split: prod.splits)

lemma keeps_locks_db_profile: "keeps_locks E (tune_db_profile n self)"
  by (cases self) (auto simp: Let_def intro!: keeps_locks_rules keeps_locks_memory)

lemma tune_db_keeps_locks: "keeps_locks E (tune_db_opts n self name)"
  unfolding tune_db_opts_def Let_def
  by (intro keeps_locks_stmts)
     (auto intro!: keeps_locks_rules keeps_locks_db_profile keeps_locks_cap_io)

lemma tune_cf_keeps_locks: "keeps_locks {''db_max_open_files''} (tune_cf_opts self name)"
proof (cases self)
  case (TimeSeries hint fifo sz zstd io)
  show ?thesis
    unfolding TimeSeries tune_cf_opts.simps tune_time_series_def
    by (intro keeps_locks_stmts)
       (auto intro!: keeps_locks_rules keeps_locks_set_opt split: option.splits)
qed (auto simp: tune_latest_value_def tune_memory_saver_def tune_real_time_def tune_sparse_bitmap_def Let_def
    intro!: keeps_locks_rules)

section \<open>The trait\<close>

text \<open>
  What a user of a tuner relies on: settings that were made explicitly stay in effect, except for those
  that the tuner is known to override on a column family.
\<close>

locale pattern_tuner =
  fixes tune_db :: "string \<Rightarrow> ('m, 'f) tunable \<Rightarrow> ('m, 'f) tunable"
    and tune_cf :: "string \<Rightarrow> ('m, 'f) tunable \<Rightarrow> ('m, 'f) tunable"
    and overrides :: "string set"
  assumes db_keeps: "keeps_locks {} (tune_db name)"
    and cf_keeps: "keeps_locks overrides (tune_cf name)"
begin

text \<open>A setting that is made before the tuner runs is in effect afterwards.\<close>

lemma db_setting_stays:
  assumes "opt_key x = Some k"
  shows "last_call k (inner (tune_db name (run_method SetMethod x t))) = Some x"
proof -
  have "k \<in> locked (run_method SetMethod x t)" by (simp add: run_set [OF assms])
  then have "calls_of k (inner (tune_db name (run_method SetMethod x t)))
      = calls_of k (inner (run_method SetMethod x t))"
    using db_keeps by (simp add: keeps_locks_def)
  from last_call_cong [OF this] show ?thesis by (simp add: run_set [OF assms] assms)
qed

lemma cf_setting_stays:
  assumes "opt_key x = Some k" and "k \<notin> overrides"
  shows "last_call k (inner (tune_cf name (run_method SetMethod x t))) = Some x"
proof -
  have "k \<in> locked (run_method SetMethod x t)" by (simp add: run_set [OF assms(1)])
  then have "calls_of k (inner (tune_cf name (run_method SetMethod x t)))
      = calls_of k (inner (run_method SetMethod x t))"
    using cf_keeps assms(2) by (simp add: keeps_locks_def)
  from last_call_cong [OF this] show ?thesis by (simp add: run_set [OF assms(1)] assms(1))
qed

end

interpretation profile: pattern_tuner "tune_db_opts n self" "tune_cf_opts self" "{''db_max_open_files''}"
  for n self
  by unfold_locales (rule tune_db_keeps_locks, rule tune_cf_keeps_locks)

section \<open>Sizes\<close>

lemma word_div_2_uint: "uint (w div 2) = uint w div 2" for w :: usize
  by (simp add: uint_div)

lemma uint_max: "uint (max a b) = max (uint a) (uint b)" for a b :: usize
  by (simp add: max_def word_le_def)

lemma uint_MIB: "uint MIB = 2 ^ 20"
  by (simp add: MIB_def)

text \<open>
  The write buffer that a profile asks for, as a number: megabytes that saturate instead of wrapping
  around, with a minimum per profile.
\<close>

definition megabytes :: "usize \<Rightarrow> int" where
  "megabytes n = min usize_max (uint n * 2 ^ 20)"

fun write_buffer_bytes :: "tuning_profile \<Rightarrow> int" where
  "write_buffer_bytes (LatestValue hint _ _ _) = max (megabytes hint div 2) (64 * 2 ^ 20)"
| "write_buffer_bytes (MemorySaver _ _ _ _ _ _) = 4 * 2 ^ 20"
| "write_buffer_bytes (RealTime _ _ _ _ _ _ _) = 64 * 2 ^ 20"
| "write_buffer_bytes (TimeSeries hint _ _ _ _) = max (megabytes hint) (64 * 2 ^ 20)"
| "write_buffer_bytes (SparseBitmap hint _ _ _) = max (megabytes hint) (128 * 2 ^ 20)"

lemma uint_megabytes: "uint (usize_saturating_mul n MIB) = megabytes n"
  by (simp add: uint_usize_saturating_mul uint_MIB megabytes_def)

text \<open>A tuner call after the write buffer size leaves it in effect.\<close>

lemma last_call_tune:
  "k \<notin> locked t \<Longrightarrow> last_call k (inner (tune_opt x t)) = (if macro_key x = k then Some (Macro x) else last_call k (inner t))"
  "last_call k (inner (set_opt x t)) = (if macro_key x = k then Some (Macro x) else last_call k (inner t))"
  by (auto simp: tune_opt_def is_locked_def set_opt_def)

lemma locked_tune [simp]:
  "locked (tune_opt x t) = locked t"
  "locked (set_opt x t) = insert (macro_key x) (locked t)"
  "locked (tune_set_block_based_table_factory bs t) = locked t"
  "locked (tune_set_compaction_style st t) = locked t"
  "locked (tune_set_compression_type ct t) = locked t"
  "locked (tune_set_bottommost_compression_type ct t) = locked t"
  "locked (tune_set_compaction_options_fifo fs t) = locked t"
  "locked (tune_set_universal_compaction_options us t) = locked t"
  by (simp_all add: tunable_method_defs)

lemma last_write_buffer [simp]:
  "last_call ''cf_write_buffer_size'' (inner (tune_set_block_based_table_factory bs t))
     = last_call ''cf_write_buffer_size'' (inner t)"
  "last_call ''cf_write_buffer_size'' (inner (tune_set_compaction_style st t))
     = last_call ''cf_write_buffer_size'' (inner t)"
  "last_call ''cf_write_buffer_size'' (inner (tune_set_compression_type ct t))
     = last_call ''cf_write_buffer_size'' (inner t)"
  "last_call ''cf_write_buffer_size'' (inner (tune_set_bottommost_compression_type ct t))
     = last_call ''cf_write_buffer_size'' (inner t)"
  "last_call ''cf_write_buffer_size'' (inner (tune_set_compaction_options_fifo fs t))
     = last_call ''cf_write_buffer_size'' (inner t)"
  "last_call ''cf_write_buffer_size'' (inner (tune_set_universal_compaction_options us t))
     = last_call ''cf_write_buffer_size'' (inner t)"
  by (simp_all add: tunable_method_defs)

lemma locked_new [simp]: "locked (tunable_new xs) = {}" "inner (tunable_new xs) = xs"
  by (simp_all add: tunable_new_def)

lemma last_rate_limiter:
  "last_call ''db_rate_limiter'' (inner (tune_memory mb c w t)) = last_call ''db_rate_limiter'' (inner t)"
  by (simp add: tune_memory_def Let_def only_if_def tunable_method_defs last_call_def)

lemma locked_memory [simp]: "locked (tune_memory mb c w t) = locked t"
  by (simp add: tune_memory_def Let_def only_if_def tunable_method_defs)

lemma last_rate_limiter_profile:
  "''db_rate_limiter'' \<notin> locked t \<Longrightarrow>
     last_call ''db_rate_limiter'' (inner (tune_db_profile n self t)) = last_call ''db_rate_limiter'' (inner t)"
  by (cases self) (simp_all add: Let_def last_call_tune last_rate_limiter)

lemma cap_io_eq:
  "cap_io self = tune_opt (RateLimiter (io_bytes_per_sec self)
     (fst (map_level_to_params (profile_io_cap_level self)))
     (snd (map_level_to_params (profile_io_cap_level self))))"
  by (simp add: cap_io_def split: prod.splits)

lemma sint_io_bytes_per_sec:
  assumes "io_cap_base_and_fraction self = (b, f)"
  shows "if f64_mul b f = NaN then io_bytes_per_sec self = 0 else 16 * 2 ^ 20 \<le> sint (io_bytes_per_sec self)"
proof -
  define r where "r = (if f64_less (f64_mul b f) (Finite 16) then Finite 16 else f64_mul b f)"
  have bytes: "io_bytes_per_sec self = i64_saturating_mul (f64_to_i64 r) (1024 * 1024)"
    by (simp add: io_bytes_per_sec_def assms r_def Let_def)
  show ?thesis
  proof (cases "f64_mul b f = NaN")
    case True
    then have "f64_to_i64 r = 0" by (simp add: r_def f64_to_i64_def)
    with True bytes show ?thesis
      by (simp add: i64_saturating_mul_def clamp_def i64_min_def i64_max_def)
  next
    case False
    have "16 \<le> f64_cast i64_min i64_max r"
      using f64_not_less_cast [of r 16 i64_min i64_max] False
      by (auto simp: r_def i64_min_def i64_max_def split: if_splits)
    then have "16 * 2 ^ 20 \<le> sint (f64_to_i64 r) * 2 ^ 20" by (simp add: sint_f64_to_i64)
    moreover have "sint (1024 * 1024 :: i64) = 2 ^ 20" by simp
    ultimately show ?thesis
      using False by (simp add: bytes sint_i64_saturating_mul clamp_def i64_min_def i64_max_def)
  qed
qed

section \<open>Properties\<close>

text \<open>
  The size of the write buffer. On fresh options every profile leaves a write buffer size in effect;
  it is the profile's share of the memory hint in bytes, saturated instead of wrapped around for huge
  hints, and never below the minimum of the profile.
\<close>

theorem write_buffer_size_bounds:
  "\<exists>w. last_call ''cf_write_buffer_size'' (inner (tune_cf_opts self cf (tunable_new [])))
      = Some (Macro (WriteBufferSize w))
    \<and> uint w = write_buffer_bytes self"
proof (cases self)
  case (TimeSeries hint fifo sz zstd io)
  then show ?thesis
    by (cases fifo; cases sz)
       (simp_all add: tune_time_series_def last_call_tune uint_max uint_megabytes)
qed (simp_all add: tune_latest_value_def tune_memory_saver_def tune_real_time_def tune_sparse_bitmap_def Let_def
    last_call_tune uint_max uint_megabytes word_div_2_uint)

text \<open>
  C27: The I/O cap has a minimum, but not for every fraction. With the automatic cap a profile leaves a
  rate limiter in effect whose rate is at least 16 MiB per second, however small the memory budget or
  the fraction and saturated for huge ones; but when the product of budget and fraction is a NaN, which
  a caller can bring about, the rate is 0.
\<close>

theorem io_cap_minimum:
  assumes "enable_auto_io_cap self" and "io_cap_base_and_fraction self = (b, f)"
  shows "\<exists>rate refill fairness.
      last_call ''db_rate_limiter'' (inner (tune_db_opts n self name (tunable_new [])))
        = Some (Macro (RateLimiter rate refill fairness))
    \<and> (if f64_mul b f = NaN then rate = 0 else 16 * 2 ^ 20 \<le> sint rate)"
proof -
  have "last_call ''db_rate_limiter'' (inner (tune_db_opts n self name (tunable_new [])))
      = Some (Macro (RateLimiter (io_bytes_per_sec self)
          (fst (map_level_to_params (profile_io_cap_level self)))
          (snd (map_level_to_params (profile_io_cap_level self)))))"
    using assms(1)
    by (simp add: tune_db_opts_def Let_def cap_io_eq last_call_tune last_rate_limiter_profile)
  with sint_io_bytes_per_sec [OF assms(2)] show ?thesis by blast
qed

definition nan_profile :: tuning_profile where
  "nan_profile = SparseBitmap 64 False False
     (Some \<lparr>io_enable_auto_io_cap = True, io_cap_fraction = Some NaN, io_level = Balanced\<rparr>)"

theorem io_cap_minimum_witness:
  "\<exists>refill fairness. last_call ''db_rate_limiter'' (inner (tune_db_opts 4 nan_profile ''db'' (tunable_new [])))
     = Some (Macro (RateLimiter 0 refill fairness))"
proof -
  have on: "enable_auto_io_cap nan_profile"
    by (simp add: enable_auto_io_cap_def io_opts_def nan_profile_def)
  have base: "io_cap_base_and_fraction nan_profile = (f64_mul (f64_of_usize 64) (Finite 4), NaN)"
    by (simp add: io_cap_base_and_fraction_def io_opts_def nan_profile_def)
  have "f64_mul x NaN = NaN" for x by (cases x) simp_all
  with io_cap_minimum [OF on base, of 4 "''db''"] show ?thesis by auto
qed



end
