(* ===== verification/Merge_Router.thy ===== *)
theory Merge_Router
  imports Codec
begin

text \<open>
  \<open>src/merge.rs\<close> and the default merge functions of \<open>src/config.rs\<close>: the two process-wide routers
  from key patterns to merge handlers, the builder that fills them, the merge functions that are
  registered with the database, and the two helpers that decode a list of operands.

  The router type is that of the crate \<open>matchit\<close>, a parameter: \<open>router_api\<close> with its documented
  behaviour on literal patterns in \<open>router_contract\<close>, and \<open>list_router\<close> as an instance. The two
  statics behind their locks are the record \<open>statics\<close>, which the builder methods take and return.
  A panic is the value \<open>None\<close>.
\<close>

section \<open>The router of matchit\<close>

record ('r, 'f, 'p) router_api =
  router_new :: 'r
  router_insert :: "'r \<Rightarrow> string \<Rightarrow> 'f \<Rightarrow> (string, 'r) result"
  router_at :: "'r \<Rightarrow> string \<Rightarrow> ('f \<times> 'p) option"

text \<open>A pattern without parameters matches itself only, before any pattern with parameters.\<close>

definition literal :: "string \<Rightarrow> bool" where
  "literal pat \<longleftrightarrow> CHR 0x7B \<notin> set pat \<and> CHR 0x7D \<notin> set pat"

definition router_contract :: "('r, 'f, 'p) router_api \<Rightarrow> bool" where
  "router_contract R \<longleftrightarrow>
     (\<forall>path. router_at R (router_new R) path = None)
   \<and> (\<forall>r pat f r'. router_insert R r pat f = Inr r' \<longrightarrow> literal pat \<longrightarrow>
        (\<exists>p. router_at R r' pat = Some (f, p))
      \<and> (\<forall>path. path \<noteq> pat \<longrightarrow> router_at R r' path = router_at R r path))
   \<and> (\<forall>r pat f g r'. router_insert R r pat f = Inr r' \<longrightarrow> (\<exists>e. router_insert R r' pat g = Inl e))"

lemma router_contract_insert:
  "router_contract R \<Longrightarrow> router_insert R r pat f = Inr r' \<Longrightarrow> literal pat \<Longrightarrow>
     \<exists>p. router_at R r' pat = Some (f, p)"
  by (simp add: router_contract_def)

lemma router_contract_other:
  "router_contract R \<Longrightarrow> router_insert R r pat f = Inr r' \<Longrightarrow> literal pat \<Longrightarrow> path \<noteq> pat \<Longrightarrow>
     router_at R r' path = router_at R r path"
  by (simp add: router_contract_def)

lemma router_contract_conflict:
  "router_contract R \<Longrightarrow> router_insert R r pat f = Inr r' \<Longrightarrow> \<exists>e. router_insert R r' pat g = Inl e"
  by (simp add: router_contract_def)

definition list_router :: "((string \<times> 'f) list, 'f, unit) router_api" where
  "list_router = \<lparr>
     router_new = [],
     router_insert = (\<lambda>r pat f.
       if pat \<in> fst ` set r then Inl ''insertion failed due to conflict'' else Inr ((pat, f) # r)),
     router_at = (\<lambda>r path. map_option (\<lambda>f. (f, ())) (map_of r path))\<rparr>"

lemma router_contract_list [simp]: "router_contract list_router"
  by (auto simp: router_contract_def list_router_def split: if_splits)

section \<open>Handlers and statics\<close>

type_synonym 'p merge_route_handler = "bytes \<Rightarrow> bytes option \<Rightarrow> bytes list \<Rightarrow> 'p \<Rightarrow> bytes option"

record 'r statics =
  full_merge_router :: 'r
  partial_merge_router :: 'r

type_synonym 'r merge_fn = "'r statics \<Rightarrow> bytes \<Rightarrow> bytes option \<Rightarrow> bytes list \<Rightarrow> bytes option"

record 'r merge_operator_config =
  moc_name :: string
  moc_full_merge_fn :: "'r merge_fn option"
  moc_partial_merge_fn :: "'r merge_fn option"

section \<open>The default merge functions\<close>

definition default_full_merge :: "bytes \<Rightarrow> bytes option \<Rightarrow> bytes list \<Rightarrow> bytes option" where
  "default_full_merge new_key existing_val operands =
     (case existing_val of
        Some existing \<Rightarrow> Some (foldl (\<lambda>result_val op1. result_val @ op1) existing operands)
      | None \<Rightarrow>
          (if operands = [] then None
           else Some (foldl (\<lambda>result_val op_idx. result_val @ operands ! op_idx) (operands ! 0)
                  [1..<length operands])))"

definition default_partial_merge :: "bytes \<Rightarrow> bytes option \<Rightarrow> bytes list \<Rightarrow> bytes option" where
  "default_partial_merge new_key existing_val operands = None"

section \<open>The registered merge functions\<close>

definition router_full_merge_fn :: "('r, 'p merge_route_handler, 'p) router_api \<Rightarrow> 'r merge_fn" where
  "router_full_merge_fn R st key_bytes existing_val_opt operands =
     (case from_utf8 key_bytes of
        Some key_str \<Rightarrow>
          (case router_at R (full_merge_router st) key_str of
             Some (handler, params) \<Rightarrow> handler key_bytes existing_val_opt operands params
           | None \<Rightarrow> default_full_merge key_bytes existing_val_opt operands)
      | None \<Rightarrow> default_full_merge key_bytes existing_val_opt operands)"

definition router_partial_merge_fn :: "('r, 'p merge_route_handler, 'p) router_api \<Rightarrow> 'r merge_fn" where
  "router_partial_merge_fn R st key_bytes existing_val_opt operands =
     (case from_utf8 key_bytes of
        Some key_str \<Rightarrow>
          (case router_at R (partial_merge_router st) key_str of
             Some (handler, params) \<Rightarrow> handler key_bytes existing_val_opt operands params
           | None \<Rightarrow> default_partial_merge key_bytes existing_val_opt operands)
      | None \<Rightarrow> default_partial_merge key_bytes existing_val_opt operands)"

section \<open>The builder\<close>

record merge_router_builder =
  mrb_operator_name :: "string option"
  mrb_routes_added :: bool

definition mrb_new :: merge_router_builder where
  "mrb_new = \<lparr>mrb_operator_name = None, mrb_routes_added = False\<rparr>"

definition operator_name :: "merge_router_builder \<Rightarrow> string \<Rightarrow> merge_router_builder" where
  "operator_name b name = b\<lparr>mrb_operator_name := Some name\<rparr>"

text \<open>A failing \<open>insert\<close> leaves the router and the builder as they were.\<close>

definition invalid_route :: "string \<Rightarrow> string \<Rightarrow> string \<Rightarrow> store_error" where
  "invalid_route kind pat e = InvalidConfiguration
     (''Invalid '' @ kind @ '' merge route pattern '' @ [CHR 0x27] @ pat @ [CHR 0x27] @ '': '' @ e)"

definition add_full_merge_route ::
    "('r, 'f, 'p) router_api \<Rightarrow> merge_router_builder \<Rightarrow> string \<Rightarrow> 'f \<Rightarrow> 'r statics
     \<Rightarrow> unit store_result \<times> merge_router_builder \<times> 'r statics" where
  "add_full_merge_route R b route_pattern handler st =
     (case map_err (invalid_route ''full'' route_pattern)
             (router_insert R (full_merge_router st) route_pattern handler) of
        Inl e \<Rightarrow> (Inl e, b, st)
      | Inr router \<Rightarrow> (Inr (), b\<lparr>mrb_routes_added := True\<rparr>, st\<lparr>full_merge_router := router\<rparr>))"

definition add_partial_merge_route ::
    "('r, 'f, 'p) router_api \<Rightarrow> merge_router_builder \<Rightarrow> string \<Rightarrow> 'f \<Rightarrow> 'r statics
     \<Rightarrow> unit store_result \<times> merge_router_builder \<times> 'r statics" where
  "add_partial_merge_route R b route_pattern handler st =
     (case map_err (invalid_route ''partial'' route_pattern)
             (router_insert R (partial_merge_router st) route_pattern handler) of
        Inl e \<Rightarrow> (Inl e, b, st)
      | Inr router \<Rightarrow> (Inr (), b\<lparr>mrb_routes_added := True\<rparr>, st\<lparr>partial_merge_router := router\<rparr>))"

definition add_route ::
    "('r, 'f, 'p) router_api \<Rightarrow> merge_router_builder \<Rightarrow> string \<Rightarrow> 'f \<Rightarrow> 'f \<Rightarrow> 'r statics
     \<Rightarrow> unit store_result \<times> merge_router_builder \<times> 'r statics" where
  "add_route R b route_pattern full_merge_handler partial_merge_handler st =
     (case add_full_merge_route R b route_pattern full_merge_handler st of
        (Inl e, b1, st1) \<Rightarrow> (Inl e, b1, st1)
      | (Inr _, b1, st1) \<Rightarrow>
          (case add_partial_merge_route R b1 route_pattern partial_merge_handler st1 of
             (Inl e, b2, st2) \<Rightarrow> (Inl e, b2, st2)
           | (Inr _, b2, st2) \<Rightarrow> (Inr (), b2, st2)))"

definition build ::
    "('r, 'p merge_route_handler, 'p) router_api \<Rightarrow> merge_router_builder
     \<Rightarrow> 'r merge_operator_config store_result" where
  "build R b =
     and_then
       (ok_or (InvalidConfiguration ''Merge router operator name must be set'') (mrb_operator_name b))
       (\<lambda>name. Inr \<lparr>moc_name = name,
                      moc_full_merge_fn = Some (router_full_merge_fn R),
                      moc_partial_merge_fn = Some (router_partial_merge_fn R)\<rparr>)"

section \<open>Decoding the operands\<close>

definition merge_mismatch :: store_error where
  "merge_mismatch = MergeError ''merge lvalue != merge rvalue''"

fun validate_loop ::
    "'p merge_value codec \<Rightarrow> merge_value_operator \<Rightarrow> 'p merge_value list \<Rightarrow> bytes list
     \<Rightarrow> 'p merge_value list store_result" where
  "validate_loop c merge_lvalue_op merge_values [] = Inr merge_values"
| "validate_loop c merge_lvalue_op merge_values (bs # rest) =
     and_then (deserialize_value c bs) (\<lambda>merge_rvalue.
       if merge_lvalue_op \<noteq> mv_op merge_rvalue then Inl merge_mismatch
       else validate_loop c merge_lvalue_op (merge_values @ [merge_rvalue]) rest)"

definition validate_mergevalues_associativity ::
    "'p merge_value codec \<Rightarrow> bytes list \<Rightarrow> 'p merge_value list store_result option" where
  "validate_mergevalues_associativity c operands =
     (case operands of
        [] \<Rightarrow> None
      | l_op # rest \<Rightarrow> Some
          (and_then (deserialize_value c l_op) (\<lambda>merge_lvalue.
             validate_loop c (mv_op merge_lvalue) [merge_lvalue] rest)))"

text \<open>
  With expiry, an operand that is shorter than the header panics, so the loop may end in \<open>None\<close>.
\<close>

fun validate_expirable_loop ::
    "'p merge_value codec \<Rightarrow> merge_value_operator \<Rightarrow> 'p merge_value list \<Rightarrow> u64 \<Rightarrow> bytes list
     \<Rightarrow> ('p merge_value list \<times> u64) store_result option" where
  "validate_expirable_loop c merge_lvalue_op merge_values t [] = Some (Inr (merge_values, t))"
| "validate_expirable_loop c merge_lvalue_op merge_values t (bs # rest) =
     (case vwe_from_bytes bs of
        None \<Rightarrow> None
      | Some r_op \<Rightarrow>
          (case vwe_get c r_op of
             Inl e \<Rightarrow> Some (Inl e)
           | Inr merge_rvalue \<Rightarrow>
               (let t1 = (if t < expire_time r_op then expire_time r_op else t) in
                if merge_lvalue_op \<noteq> mv_op merge_rvalue then Some (Inl merge_mismatch)
                else validate_expirable_loop c merge_lvalue_op (merge_values @ [merge_rvalue]) t1 rest)))"

definition validate_expirable_mergevalues_associativity ::
    "'p merge_value codec \<Rightarrow> bytes list \<Rightarrow> ('p merge_value list \<times> u64) store_result option" where
  "validate_expirable_mergevalues_associativity c operands =
     (case operands of
        [] \<Rightarrow> None
      | first # rest \<Rightarrow>
          (case vwe_from_bytes first of
             None \<Rightarrow> None
           | Some l_op \<Rightarrow>
               (case vwe_get c l_op of
                  Inl e \<Rightarrow> Some (Inl e)
                | Inr merge_lvalue \<Rightarrow>
                    validate_expirable_loop c (mv_op merge_lvalue) [merge_lvalue] (expire_time l_op) rest)))"

section \<open>Lemmas\<close>

lemma foldl_append_concat: "foldl (\<lambda>a b. a @ b) x xs = x @ concat xs"
  by (induction xs arbitrary: x) simp_all

lemma foldl_index_from:
  "foldl (\<lambda>a i. a @ xs ! i) x [n..<length xs] = x @ concat (drop n xs)"
proof (induction "length xs - n" arbitrary: n x)
  case 0
  then show ?case by simp
next
  case (Suc m)
  then have "n < length xs" by simp
  with Suc(1) [of "Suc n" "x @ xs ! n"] Suc(2) show ?case
    by (simp add: upt_conv_Cons Cons_nth_drop_Suc [symmetric])
qed

lemma default_full_merge_concat:
  "default_full_merge k e xs =
     (case e of
        Some x \<Rightarrow> Some (x @ concat xs)
      | None \<Rightarrow> (if xs = [] then None else Some (concat xs)))"
proof (cases e)
  case None
  have "foldl (\<lambda>a i. a @ xs ! i) (xs ! 0) [1..<length xs] = concat xs" if "xs \<noteq> []"
    using that foldl_index_from [of xs "xs ! 0" 1] by (cases xs) simp_all
  with None show ?thesis by (simp add: default_full_merge_def)
qed (simp add: default_full_merge_def foldl_append_concat)

definition same_op :: "merge_value_operator \<Rightarrow> 'p merge_value list \<Rightarrow> bool" where
  "same_op m ws \<longleftrightarrow> (\<forall>w \<in> set ws. mv_op w = m)"

lemma same_op_simps [simp]:
  "same_op m []"
  "same_op m (w # ws) \<longleftrightarrow> m = mv_op w \<and> same_op m ws"
  by (auto simp: same_op_def)

lemma validate_loop_Inr:
  "validate_loop c m acc ops = Inr vs \<longleftrightarrow>
     (\<exists>ws. collect_ok (map (deserialize_value c) ops) = Inr ws \<and> vs = acc @ ws
        \<and> same_op m ws)"
proof (induction ops arbitrary: acc)
  case (Cons bs ops)
  show ?case
  proof (cases "deserialize_value c bs")
    case (Inr w)
    show ?thesis
    proof (cases "m = mv_op w")
      case True
      with Inr have eq: "validate_loop c m acc (bs # ops) = validate_loop c m (acc @ [w]) ops" by simp
      show ?thesis
        unfolding eq Cons.IH using True Inr by (auto simp: and_then_eq_Inr)
    qed (use Inr in \<open>auto simp: and_then_eq_Inr\<close>)
  qed simp
qed auto

lemma vwe_from_bytes_eq: "vwe_from_bytes bs = Some v \<longleftrightarrow> bs = serialize_for_storage v"
  by (auto simp: vwe_from_bytes_def vwe_from_vec_slice vwe_from_slice_Inr_iff split: sum.splits)

text \<open>The operands as containers, when each has a header.\<close>

fun as_vwes :: "bytes list \<Rightarrow> value_with_expiry list option" where
  "as_vwes [] = Some []"
| "as_vwes (bs # rest) =
     (case vwe_from_bytes bs of
        None \<Rightarrow> None
      | Some v \<Rightarrow> (case as_vwes rest of None \<Rightarrow> None | Some vs \<Rightarrow> Some (v # vs)))"

lemma as_vwes_Some: "as_vwes ops = Some vwes \<Longrightarrow> ops = map serialize_for_storage vwes"
  by (induction ops arbitrary: vwes) (auto simp: vwe_from_bytes_eq split: option.splits)

lemma as_vwes_map [simp]: "as_vwes (map serialize_for_storage vwes) = Some vwes"
proof -
  have "vwe_from_bytes (serialize_for_storage v) = Some v" for v by (simp add: vwe_from_bytes_eq)
  then show ?thesis by (induction vwes) simp_all
qed

lemma validate_expirable_loop_Inr:
  "validate_expirable_loop c m acc t ops = Some (Inr (vs, u)) \<longleftrightarrow>
     (\<exists>vwes ws. as_vwes ops = Some vwes \<and> collect_ok (map (vwe_get c) vwes) = Inr ws
        \<and> vs = acc @ ws \<and> same_op m ws
        \<and> u = foldl max t (map expire_time vwes))"
proof (induction ops arbitrary: acc t)
  case (Cons bs ops)
  show ?case
  proof (cases "vwe_from_bytes bs")
    case (Some r)
    have max: "(if t < expire_time r then expire_time r else t) = max t (expire_time r)"
      by (auto simp: max_def)
    show ?thesis
    proof (cases "vwe_get c r")
      case (Inl e)
      with Some show ?thesis by (auto split: option.splits)
    next
      case (Inr w)
      show ?thesis
      proof (cases "m = mv_op w")
        case True
        with Some Inr have eq: "validate_expirable_loop c m acc t (bs # ops)
            = validate_expirable_loop c m (acc @ [w]) (max t (expire_time r)) ops"
          by (simp add: Let_def max)
        show ?thesis
          unfolding eq Cons.IH using True Some Inr
          by (auto simp: and_then_eq_Inr split: option.splits)
      qed (use Some Inr in \<open>auto simp: and_then_eq_Inr Let_def split: option.splits\<close>)
    qed
  qed simp
qed auto


lemma foldl_max_Max: "foldl max t xs = Max (insert t (set xs))"
  for t :: "'a :: linorder"
proof -
  have "foldl max t xs = fold max xs t"
    by (induction xs arbitrary: t) (simp_all add: max.commute)
  then show ?thesis using Max.set_eq_fold [of t xs] by simp
qed

lemma validate_expirable_Inr:
  "validate_expirable_mergevalues_associativity c operands = Some (Inr (vs, t))
     \<longleftrightarrow> (\<exists>vwes. vwes \<noteq> [] \<and> as_vwes operands = Some vwes \<and> collect_ok (map (vwe_get c) vwes) = Inr vs
            \<and> same_op (mv_op (hd vs)) vs
            \<and> t = foldl max (expire_time (hd vwes)) (map expire_time (tl vwes)))"
proof (cases operands)
  case Nil
  then show ?thesis by (simp add: validate_expirable_mergevalues_associativity_def)
next
  case (Cons bs rest)
  show ?thesis
  proof (cases "vwe_from_bytes bs")
    case None
    with Cons show ?thesis by (simp add: validate_expirable_mergevalues_associativity_def)
  next
    case (Some r)
    show ?thesis
    proof (cases "vwe_get c r")
      case (Inl e)
      with Cons Some show ?thesis
        by (auto simp: validate_expirable_mergevalues_associativity_def split: option.splits)
    next
      case (Inr w)
      with Cons Some have "validate_expirable_mergevalues_associativity c operands
          = validate_expirable_loop c (mv_op w) [w] (expire_time r) rest"
        by (simp add: validate_expirable_mergevalues_associativity_def)
      then show ?thesis
        by (cases "as_vwes rest")
           (auto simp: validate_expirable_loop_Inr Cons Some Inr and_then_eq_Inr)
    qed
  qed
qed

lemma full_route_effect:
  assumes "router_contract R" and "literal pat"
    and "add_full_merge_route R b pat h st = (Inr (), b1, st1)"
  shows "\<exists>p. \<forall>k e ops. router_full_merge_fn R st1 k e ops
      = (if from_utf8 k = Some pat then h k e ops p else router_full_merge_fn R st k e ops)"
    and "router_partial_merge_fn R st1 = router_partial_merge_fn R st"
proof -
  obtain r where r: "router_insert R (full_merge_router st) pat h = Inr r"
    and st1: "st1 = st\<lparr>full_merge_router := r\<rparr>"
    using assms(3) by (auto simp: add_full_merge_route_def split: sum.splits)
  obtain p where p: "router_at R r pat = Some (h, p)"
    using router_contract_insert [OF assms(1) r assms(2)] by blast
  note other = router_contract_other [OF assms(1) r assms(2)]
  have "router_full_merge_fn R st1 k e ops
      = (if from_utf8 k = Some pat then h k e ops p else router_full_merge_fn R st k e ops)" for k e ops
  proof (cases "from_utf8 k")
    case (Some path)
    then show ?thesis
      by (cases "path = pat") (simp_all add: router_full_merge_fn_def st1 p other)
  qed (simp add: router_full_merge_fn_def)
  then show "\<exists>p. \<forall>k e ops. router_full_merge_fn R st1 k e ops
      = (if from_utf8 k = Some pat then h k e ops p else router_full_merge_fn R st k e ops)" by blast
  have "partial_merge_router st1 = partial_merge_router st" by (simp add: st1)
  then show "router_partial_merge_fn R st1 = router_partial_merge_fn R st"
    by (intro ext) (simp only: router_partial_merge_fn_def)
qed

lemma partial_route_effect:
  assumes "router_contract R" and "literal pat"
    and "add_partial_merge_route R b pat h st = (Inr (), b1, st1)"
  shows "\<exists>p. \<forall>k e ops. router_partial_merge_fn R st1 k e ops
      = (if from_utf8 k = Some pat then h k e ops p else router_partial_merge_fn R st k e ops)"
    and "router_full_merge_fn R st1 = router_full_merge_fn R st"
proof -
  obtain r where r: "router_insert R (partial_merge_router st) pat h = Inr r"
    and st1: "st1 = st\<lparr>partial_merge_router := r\<rparr>"
    using assms(3) by (auto simp: add_partial_merge_route_def split: sum.splits)
  obtain p where p: "router_at R r pat = Some (h, p)"
    using router_contract_insert [OF assms(1) r assms(2)] by blast
  note other = router_contract_other [OF assms(1) r assms(2)]
  have "router_partial_merge_fn R st1 k e ops
      = (if from_utf8 k = Some pat then h k e ops p else router_partial_merge_fn R st k e ops)" for k e ops
  proof (cases "from_utf8 k")
    case (Some path)
    then show ?thesis
      by (cases "path = pat") (simp_all add: router_partial_merge_fn_def st1 p other)
  qed (simp add: router_partial_merge_fn_def)
  then show "\<exists>p. \<forall>k e ops. router_partial_merge_fn R st1 k e ops
      = (if from_utf8 k = Some pat then h k e ops p else router_partial_merge_fn R st k e ops)" by blast
  have "full_merge_router st1 = full_merge_router st" by (simp add: st1)
  then show "router_full_merge_fn R st1 = router_full_merge_fn R st"
    by (intro ext) (simp only: router_full_merge_fn_def)
qed

lemma failed_route:
  "add_full_merge_route R b pat h st = (Inl e, b1, st1) \<Longrightarrow> st1 = st"
  "add_partial_merge_route R b pat h st = (Inl e, b1, st1) \<Longrightarrow> st1 = st"
  by (auto simp: add_full_merge_route_def add_partial_merge_route_def split: sum.splits)

section \<open>Properties\<close>

text \<open>
  The default full merge is concatenation. The result is the existing value followed by all operands
  in order, and nothing only when there is neither a value nor an operand; hence merging the operands
  in two portions, the second onto the result of the first, gives the same value as merging them at
  once, which is what the database relies on when it merges in steps.
\<close>

theorem default_full_merge_steps:
  "default_full_merge k (default_full_merge k e xs) ys = default_full_merge k e (xs @ ys)
   \<and> default_full_merge k e xs
      = (if e = None \<and> xs = [] then None else Some (concat ((case e of None \<Rightarrow> [] | Some x \<Rightarrow> [x]) @ xs)))"
  by (auto simp: default_full_merge_concat split: option.splits)

text \<open>
  Routing of full merges. After a literal pattern was added with success, a full merge of the key
  that spells the pattern goes to the new handler; a full merge of any other key, UTF-8 or not, and
  every partial merge, are what they were before.
\<close>

theorem full_merge_routing:
  assumes "router_contract R" and "literal pat"
    and "add_full_merge_route R b pat h st = (Inr (), b1, st1)"
  shows "\<exists>p. \<forall>k e ops.
      router_full_merge_fn R st1 k e ops
        = (if from_utf8 k = Some pat then h k e ops p else router_full_merge_fn R st k e ops)
    \<and> router_partial_merge_fn R st1 k e ops = router_partial_merge_fn R st k e ops"
  using full_route_effect [OF assms] by simp

definition last_operand :: "unit merge_route_handler" where
  "last_operand k e ops p = (if ops = [] then e else Some (last ops))"

definition no_routes :: "((string \<times> unit merge_route_handler) list) statics" where
  "no_routes = \<lparr>full_merge_router = [], partial_merge_router = []\<rparr>"

theorem full_merge_routing_witness:
  "\<exists>st. snd (snd (add_full_merge_route list_router mrb_new ''ab'' last_operand no_routes)) = st
     \<and> router_full_merge_fn list_router st [97, 98] (Some [1]) [[2], [3]] = Some [3]
     \<and> router_full_merge_fn list_router st [255] (Some [1]) [[2], [3]] = Some [1, 2, 3]"
proof -
  define st where "st = snd (snd (add_full_merge_route list_router mrb_new ''ab'' last_operand no_routes))"
  have ok: "add_full_merge_route list_router mrb_new ''ab'' last_operand no_routes
      = (Inr (), mrb_new\<lparr>mrb_routes_added := True\<rparr>, st)"
    by (simp add: add_full_merge_route_def list_router_def no_routes_def st_def)
  have lit: "literal ''ab''" by (simp add: literal_def)
  have ab: "[97, 98] = str_bytes ''ab''" by (simp add: str_bytes_def)
  have "utf8_valid [97, 98]" by (rule utf8_valid_ascii) simp
  then have keys: "from_utf8 [97, 98] = Some ''ab''"
    unfolding ab from_utf8_def by (simp only: bytes_str_str_bytes if_True)
  have bad: "from_utf8 [255] = None"
    by (simp add: from_utf8_def utf8_valid.simps(2))
  obtain p where p: "\<And>k e ops. router_full_merge_fn list_router st k e ops
      = (if from_utf8 k = Some ''ab'' then last_operand k e ops p
         else router_full_merge_fn list_router no_routes k e ops)"
    using full_merge_routing [OF router_contract_list lit ok] by blast
  have "router_full_merge_fn list_router st [97, 98] (Some [1]) [[2], [3]] = Some [3]"
    by (simp add: p keys last_operand_def)
  moreover have "router_full_merge_fn list_router st [255] (Some [1]) [[2], [3]] = Some [1, 2, 3]"
    by (simp add: p bad) (simp add: router_full_merge_fn_def bad default_full_merge_concat)
  ultimately show ?thesis using st_def by blast
qed

text \<open>
  \<open>add_route\<close> is not atomic. When its partial merge half fails, the full merge half stays
  registered although the call reports the error, and repeating the call fails as well, now on the
  full merge half, which conflicts with itself.
\<close>

theorem add_route_not_atomic:
  assumes "router_contract R"
    and "router_insert R (full_merge_router st) pat f = Inr r"
    and "router_insert R (partial_merge_router st) pat g = Inl e"
    and "add_route R b pat f g st = (res, b1, st1)"
  shows "res = Inl (invalid_route ''partial'' pat e) \<and> full_merge_router st1 = r
    \<and> partial_merge_router st1 = partial_merge_router st
    \<and> (\<exists>e2. add_route R b1 pat f g st1 = (Inl (invalid_route ''full'' pat e2), b1, st1))"
proof -
  have st1: "res = Inl (invalid_route ''partial'' pat e)" "st1 = st\<lparr>full_merge_router := r\<rparr>"
    using assms(2-4) by (auto simp: add_route_def add_full_merge_route_def add_partial_merge_route_def)
  obtain e2 where "router_insert R r pat f = Inl e2"
    using router_contract_conflict [OF assms(1,2)] by blast
  then have "add_route R b1 pat f g st1 = (Inl (invalid_route ''full'' pat e2), b1, st1)"
    by (simp add: add_route_def add_full_merge_route_def st1)
  with st1 show ?thesis by auto
qed

theorem add_route_not_atomic_witness:
  "\<exists>b1 st1. add_route list_router mrb_new ''ab'' last_operand last_operand
       \<lparr>full_merge_router = [], partial_merge_router = [(''ab'', last_operand)]\<rparr>
         = (Inl (invalid_route ''partial'' ''ab'' ''insertion failed due to conflict''), b1, st1)
     \<and> full_merge_router st1 = [(''ab'', last_operand)]"
proof -
  define st where "st = \<lparr>full_merge_router = [], partial_merge_router = [(''ab'', last_operand)]\<rparr>"
  obtain res b1 st1 where res: "add_route list_router mrb_new ''ab'' last_operand last_operand st = (res, b1, st1)"
    using prod_cases3 by blast
  have "router_insert list_router (full_merge_router st) ''ab'' last_operand = Inr [(''ab'', last_operand)]"
    and "router_insert list_router (partial_merge_router st) ''ab'' last_operand
      = Inl ''insertion failed due to conflict''"
    by (simp_all add: st_def list_router_def)
  from add_route_not_atomic [OF router_contract_list this res] res
  show ?thesis unfolding st_def by blast
qed

text \<open>
  Decoding the operands of a merge. On a non-empty list of operands the helper returns exactly the
  decoded operands, in order, and it does so if and only if all of them decode and carry the same
  operator as the first one.
\<close>

theorem validate_mergevalues_correct:
  assumes "operands \<noteq> []"
  shows "validate_mergevalues_associativity c operands = Some (Inr vs)
    \<longleftrightarrow> map (deserialize_value c) operands = map Inr vs \<and> (\<forall>v \<in> set vs. mv_op v = mv_op (hd vs))"
proof -
  obtain first rest where ops: "operands = first # rest" using assms by (cases operands) auto
  have "validate_mergevalues_associativity c operands = Some (Inr vs)
      \<longleftrightarrow> collect_ok (map (deserialize_value c) operands) = Inr vs \<and> same_op (mv_op (hd vs)) vs"
    by (auto simp: ops validate_mergevalues_associativity_def and_then_eq_Inr validate_loop_Inr)
  then show ?thesis by (simp add: collect_ok_Inr_iff same_op_def)
qed

definition tag_codec :: "bytes merge_value codec" where
  "tag_codec = \<lparr>
     codec_ser = (\<lambda>m. Inr ((if mv_op m = Add then 0 else 1) # mv_patch m)),
     codec_de = (\<lambda>bs. case bs of [] \<Rightarrow> Inl ''empty''
       | b # rest \<Rightarrow> Inr (MergeValue (if b = 0 then Add else Remove) rest))\<rparr>"

theorem validate_mergevalues_correct_witness:
  "validate_mergevalues_associativity tag_codec [[0, 5], [0, 6]]
     = Some (Inr [MergeValue Add [5], MergeValue Add [6]])"
proof -
  have "[[0, 5], [0, 6]] \<noteq> ([] :: bytes list)" by simp
  from validate_mergevalues_correct [OF this, of tag_codec "[MergeValue Add [5], MergeValue Add [6]]"]
  show ?thesis by (simp add: tag_codec_def deserialize_value_def)
qed

text \<open>
  Decoding expirable operands. The helper succeeds exactly when there is an operand, every operand
  is a stored container whose value decodes, and all values carry the operator of the first one; the
  result then holds the decoded values in order and the greatest of the expiry times.
\<close>

theorem validate_expirable_correct:
  "validate_expirable_mergevalues_associativity c operands = Some (Inr (vs, t))
     \<longleftrightarrow> (\<exists>vwes. vwes \<noteq> [] \<and> operands = map serialize_for_storage vwes
            \<and> map (vwe_get c) vwes = map Inr vs \<and> (\<forall>v \<in> set vs. mv_op v = mv_op (hd vs))
            \<and> t = Max (set (map expire_time vwes)))"
proof -
  have "foldl max (expire_time (hd vwes)) (map expire_time (tl vwes)) = Max (set (map expire_time vwes))"
    if "vwes \<noteq> []" for vwes :: "value_with_expiry list"
    using that by (cases vwes) (simp_all add: foldl_max_Max)
  moreover have "as_vwes operands = Some vwes \<longleftrightarrow> operands = map serialize_for_storage vwes" for vwes
    using as_vwes_Some by auto
  ultimately show ?thesis
    unfolding validate_expirable_Inr collect_ok_Inr_iff same_op_def
    by (intro ex_cong1) metis
qed

theorem validate_expirable_correct_witness:
  "validate_expirable_mergevalues_associativity tag_codec
     [[0, 0, 0, 0, 0, 0, 0, 9, 0, 5], [0, 0, 0, 0, 0, 0, 0, 7, 0, 6]]
     = Some (Inr ([MergeValue Add [5], MergeValue Add [6]], 9))"
proof -
  define vwes where "vwes = [\<lparr>expire_time = 9, raw_value = [0, 5]\<rparr>, \<lparr>expire_time = 7, raw_value = [0, 6]\<rparr>]"
  have ops: "[[0, 0, 0, 0, 0, 0, 0, 9, 0, 5], [0, 0, 0, 0, 0, 0, 0, 7, 0, 6]] = map serialize_for_storage vwes"
    by (simp add: vwes_def serialize_for_storage_def to_be_bytes_def)
  have "map (vwe_get tag_codec) vwes = map Inr [MergeValue Add [5], MergeValue Add [6]]"
    "9 = Max (set (map expire_time vwes))" "vwes \<noteq> []"
    "\<forall>v \<in> set [MergeValue Add [5], MergeValue Add [6]].
      mv_op v = mv_op (hd [MergeValue Add [5], MergeValue Add [6 :: byte]])"
    by (simp_all add: vwes_def vwe_get_def tag_codec_def deserialize_value_def)
  then show ?thesis
    unfolding ops by (intro validate_expirable_correct [THEN iffD2] exI [of _ vwes] conjI refl)
qed

end
