(* ===== verification/Compaction_Filter.thy ===== *)
theory Compaction_Filter
  imports Merge_Router Rocks_API
begin

text \<open>
  \<open>src/compaction_filter/mod.rs\<close> and \<open>src/compaction_filter/binary.rs\<close>: the two process-wide tables
  of compaction filter handlers, one by UTF-8 key pattern and one by binary key prefix, their builders,
  and the filter functions registered with the database.

  The tables are a \<open>matchit\<close> router (see \<open>Merge_Router\<close>) and a \<open>RadixMap\<close> of the crate
  \<open>fast_radix_trie\<close>; the latter is the parameter \<open>radix_api\<close> with its documented behaviour in
  \<open>radix_contract\<close> and the instance \<open>list_radix\<close>.
\<close>

section \<open>Decisions and configuration\<close>

datatype filter_decision = FilterKeep | FilterRemove | FilterChange bytes

type_synonym u32 = "32 word"
type_synonym filter_handler = "u32 \<Rightarrow> bytes \<Rightarrow> bytes \<Rightarrow> filter_decision"
type_synonym 'p filter_route_handler = "u32 \<Rightarrow> bytes \<Rightarrow> bytes \<Rightarrow> 'p \<Rightarrow> filter_decision"

text \<open>The registered function reads its table at each call: it takes the table as an argument.\<close>

record 't filter_router_config =
  frc_name :: string
  frc_filter_fn_ptr :: "'t \<Rightarrow> filter_handler"

record filter_builder =
  fb_operator_name :: "string option"
  fb_routes_added :: bool

definition fb_new :: filter_builder where
  "fb_new = \<lparr>fb_operator_name = None, fb_routes_added = False\<rparr>"

definition fb_set_operator_name :: "filter_builder \<Rightarrow> string \<Rightarrow> filter_builder" where
  "fb_set_operator_name b name = b\<lparr>fb_operator_name := Some name\<rparr>"

section \<open>The router by key pattern\<close>

definition router_compaction_filter_fn ::
    "('r, 'p filter_route_handler, 'p) router_api \<Rightarrow> 'r \<Rightarrow> filter_handler" where
  "router_compaction_filter_fn R router level key_bytes value_bytes =
     (case from_utf8 key_bytes of
        Some key_str \<Rightarrow>
          (case router_at R router key_str of
             Some (handler, params) \<Rightarrow> handler level key_bytes value_bytes params
           | None \<Rightarrow> FilterKeep)
      | None \<Rightarrow> FilterKeep)"

definition filter_add_route ::
    "('r, 'f, 'p) router_api \<Rightarrow> filter_builder \<Rightarrow> string \<Rightarrow> 'f \<Rightarrow> 'r
     \<Rightarrow> unit store_result \<times> filter_builder \<times> 'r" where
  "filter_add_route R b route_pattern handler router =
     (case router_insert R router route_pattern handler of
        Inl e \<Rightarrow>
          (Inl (InvalidConfiguration (''Invalid compaction filter route pattern '' @ [CHR 0x27]
             @ route_pattern @ [CHR 0x27] @ '': '' @ e)), b, router)
      | Inr router1 \<Rightarrow> (Inr (), b\<lparr>fb_routes_added := True\<rparr>, router1))"

definition filter_build ::
    "('r, 'p filter_route_handler, 'p) router_api \<Rightarrow> filter_builder \<Rightarrow> 'r filter_router_config store_result" where
  "filter_build R b =
     and_then
       (ok_or (InvalidConfiguration ''Compaction filter router operator name must be set'')
          (fb_operator_name b))
       (\<lambda>name. Inr \<lparr>frc_name = name, frc_filter_fn_ptr = router_compaction_filter_fn R\<rparr>)"

text \<open>The body of the function is compiled only with the feature \<open>test-utils\<close>.\<close>

definition clear_compaction_filter_routes :: "('r, 'f, 'p) router_api \<Rightarrow> bool \<Rightarrow> 'r \<Rightarrow> 'r" where
  "clear_compaction_filter_routes R test_utils router = (if test_utils then router_new R else router)"

section \<open>The router by binary prefix\<close>

record ('m, 'f) radix_api =
  radix_new :: 'm
  radix_insert :: "'m \<Rightarrow> bytes \<Rightarrow> 'f \<Rightarrow> 'm"
  radix_longest :: "'m \<Rightarrow> bytes \<Rightarrow> (bytes \<times> 'f) option"

text \<open>
  \<open>get_longest_common_prefix\<close> gives the entry whose key is the longest of the keys that are a prefix
  of the argument; \<open>content\<close> is the map from keys to entries that a table holds.
\<close>

definition longest_prefix_entry :: "(bytes \<Rightarrow> 'f option) \<Rightarrow> bytes \<Rightarrow> (bytes \<times> 'f) option \<Rightarrow> bool" where
  "longest_prefix_entry content k r =
     (case r of
        None \<Rightarrow> \<forall>p. has_prefix p k \<longrightarrow> content p = None
      | Some (p, f) \<Rightarrow> has_prefix p k \<and> content p = Some f
          \<and> (\<forall>q. has_prefix q k \<and> content q \<noteq> None \<longrightarrow> length q \<le> length p))"

definition radix_contract :: "('m, 'f) radix_api \<Rightarrow> ('m \<Rightarrow> bytes \<Rightarrow> 'f option) \<Rightarrow> bool" where
  "radix_contract T content \<longleftrightarrow>
     content (radix_new T) = (\<lambda>_. None)
   \<and> (\<forall>m p f. content (radix_insert T m p f) = (content m)(p \<mapsto> f))
   \<and> (\<forall>m k. longest_prefix_entry (content m) k (radix_longest T m k))"

definition binary_router_fn :: "('m, filter_handler) radix_api \<Rightarrow> 'm \<Rightarrow> filter_handler" where
  "binary_router_fn T m level key_bytes value_bytes =
     (case radix_longest T m key_bytes of
        Some (_, handler) \<Rightarrow> handler level key_bytes value_bytes
      | None \<Rightarrow> FilterKeep)"

definition add_prefix_route ::
    "('m, 'f) radix_api \<Rightarrow> filter_builder \<Rightarrow> bytes \<Rightarrow> 'f \<Rightarrow> 'm \<Rightarrow> unit store_result \<times> filter_builder \<times> 'm" where
  "add_prefix_route T b prefix handler m =
     (let m1 = radix_insert T m prefix handler in (Inr (), b\<lparr>fb_routes_added := True\<rparr>, m1))"

definition binary_build ::
    "('m, filter_handler) radix_api \<Rightarrow> filter_builder \<Rightarrow> 'm filter_router_config store_result" where
  "binary_build T b =
     and_then
       (ok_or (InvalidConfiguration ''Binary compaction filter operator name must be set'')
          (fb_operator_name b))
       (\<lambda>name. Inr \<lparr>frc_name = name, frc_filter_fn_ptr = binary_router_fn T\<rparr>)"

subsection \<open>An instance of the table\<close>

fun longest_in :: "(bytes \<times> 'f) list \<Rightarrow> bytes \<Rightarrow> nat \<Rightarrow> (bytes \<times> 'f) option" where
  "longest_in es k 0 = map_option (\<lambda>f. ([], f)) (map_of es [])"
| "longest_in es k (Suc n) =
     (case map_of es (take (Suc n) k) of
        Some f \<Rightarrow> Some (take (Suc n) k, f)
      | None \<Rightarrow> longest_in es k n)"

definition list_radix :: "((bytes \<times> 'f) list, 'f) radix_api" where
  "list_radix = \<lparr>radix_new = [], radix_insert = (\<lambda>m p f. (p, f) # m),
     radix_longest = (\<lambda>es k. longest_in es k (length k))\<rparr>"

lemma has_prefix_take: "has_prefix p k \<longleftrightarrow> p = take (length p) k \<and> length p \<le> length k"
  by (auto simp: has_prefix_iff) (metis append_take_drop_id)

lemma longest_in_correct:
  assumes "n \<le> length k"
  shows "case longest_in es k n of
      None \<Rightarrow> \<forall>p. has_prefix p k \<and> length p \<le> n \<longrightarrow> map_of es p = None
    | Some (p, f) \<Rightarrow> has_prefix p k \<and> map_of es p = Some f
        \<and> (\<forall>q. has_prefix q k \<and> map_of es q \<noteq> None \<and> length q \<le> n \<longrightarrow> length q \<le> length p)"
  using assms
proof (induction n)
  case 0
  then show ?case by (auto simp: has_prefix_take split: option.splits)
next
  case (Suc n)
  have eq: "q = take (Suc n) k" if "has_prefix q k" "length q = Suc n" for q
    using that by (simp add: has_prefix_take)
  show ?case
  proof (cases "map_of es (take (Suc n) k)")
    case (Some f)
    with Suc.prems show ?thesis by (auto simp: has_prefix_take)
  next
    case None
    have "length q \<le> n" if "has_prefix q k" "map_of es q \<noteq> None" "length q \<le> Suc n" for q
      using that eq [of q] None by (cases "length q = Suc n") auto
    with Suc None show ?thesis
      by (cases "longest_in es k n") (auto simp: le_Suc_eq dest: eq)
  qed
qed

lemma radix_contract_list [simp]: "radix_contract (list_radix :: (_, 'f) radix_api) map_of"
proof -
  have "longest_prefix_entry (map_of es) k (longest_in es k (length k))" for es :: "(bytes \<times> 'f) list" and k
    using longest_in_correct [of "length k" k es]
    by (cases "longest_in es k (length k)")
       (auto simp: longest_prefix_entry_def has_prefix_take)
  then show ?thesis by (simp add: radix_contract_def list_radix_def fun_eq_iff)
qed

section \<open>Lemmas\<close>

lemma has_prefix_same_length: "has_prefix p k \<Longrightarrow> has_prefix q k \<Longrightarrow> length p = length q \<Longrightarrow> p = q"
  by (simp add: has_prefix_take)

lemma longest_prefix_entry_unique:
  assumes "longest_prefix_entry c k r" and "longest_prefix_entry c k r'"
  shows "r = r'"
proof (cases r)
  case None
  with assms show ?thesis by (cases r') (auto simp: longest_prefix_entry_def)
next
  case (Some a)
  obtain p f where a: "a = (p, f)" by fastforce
  with Some assms obtain q g where r': "r' = Some (q, g)"
    by (cases r') (auto simp: longest_prefix_entry_def)
  have "length p = length q"
    using assms Some a r' unfolding longest_prefix_entry_def by (auto intro: order.antisym)
  then have "p = q"
    using assms Some a r' unfolding longest_prefix_entry_def by (auto intro: has_prefix_same_length)
  with assms Some a r' show ?thesis unfolding longest_prefix_entry_def by auto
qed

text \<open>A table filled through the builder.\<close>

fun add_prefix_routes ::
    "('m, 'f) radix_api \<Rightarrow> filter_builder \<Rightarrow> (bytes \<times> 'f) list \<Rightarrow> 'm \<Rightarrow> filter_builder \<times> 'm" where
  "add_prefix_routes T b [] m = (b, m)"
| "add_prefix_routes T b ((p, f) # rs) m =
     (case add_prefix_route T b p f m of (_, b1, m1) \<Rightarrow> add_prefix_routes T b1 rs m1)"

lemma add_prefix_routes_content:
  "radix_contract T content \<Longrightarrow>
     content (snd (add_prefix_routes T b rs m)) = (\<lambda>p. case map_of (rev rs) p of None \<Rightarrow> content m p | Some f \<Rightarrow> Some f)"
proof (induction rs arbitrary: b m)
  case (Cons r rs)
  obtain p f where "r = (p, f)" by fastforce
  then show ?case
    using Cons by (auto simp: add_prefix_route_def Let_def radix_contract_def map_add_def fun_eq_iff
        split: option.splits)
qed simp


lemma binary_decision:
  assumes "radix_contract T content" and "longest_prefix_entry (content m) k r"
  shows "binary_router_fn T m level k v
    = (case r of None \<Rightarrow> FilterKeep | Some (_, handler) \<Rightarrow> handler level k v)"
proof -
  have "longest_prefix_entry (content m) k (radix_longest T m k)"
    using assms(1) by (simp add: radix_contract_def)
  from longest_prefix_entry_unique [OF this assms(2)] show ?thesis
    by (simp add: binary_router_fn_def)
qed

lemma table_content:
  "radix_contract T content \<Longrightarrow> content (snd (add_prefix_routes T b rs (radix_new T))) = map_of (rev rs)"
  using add_prefix_routes_content [of T content b rs "radix_new T"]
  by (auto simp: radix_contract_def fun_eq_iff split: option.splits)

section \<open>Properties\<close>

text \<open>
  C29: The binary filter decides by the longest prefix. After any registrations through the builder, the
  decision on a key is that of the handler that was registered last for the longest of the registered
  prefixes of the key; a key without one is kept.
\<close>

theorem binary_filter_longest_prefix:
  assumes "radix_contract T content" and "longest_prefix_entry (map_of (rev rs)) k r"
  shows "binary_router_fn T (snd (add_prefix_routes T b rs (radix_new T))) level k v
    = (case r of None \<Rightarrow> FilterKeep | Some (_, handler) \<Rightarrow> handler level k v)"
  by (rule binary_decision [OF assms(1)]) (simp add: table_content [OF assms(1)] assms(2))

definition remove_handler :: filter_handler where
  "remove_handler level k v = FilterRemove"

definition tag_handler :: filter_handler where
  "tag_handler level k v = FilterChange (0 # v)"

theorem binary_filter_longest_prefix_witness:
  "binary_router_fn list_radix
     (snd (add_prefix_routes list_radix fb_new [([1], remove_handler), ([1, 2], tag_handler)] []))
     0 [1, 2, 3] [7] = FilterChange [0, 7]"
proof -
  have "longest_prefix_entry (map_of (rev [([1], remove_handler), ([1, 2], tag_handler)])) [1, 2, 3]
      (Some ([1, 2], tag_handler))"
    by (auto simp: longest_prefix_entry_def split: if_splits)
  from binary_filter_longest_prefix [OF radix_contract_list this, of fb_new 0 "[7]"]
  show ?thesis by (simp add: tag_handler_def list_radix_def)
qed

text \<open>
  The order of registration does not matter. Two builders that register the same handlers, each
  prefix once, give the same decision on every key, in whatever order they did it.
\<close>

theorem binary_filter_order_irrelevant:
  assumes "radix_contract T content" and "distinct (map fst rs)" and "distinct (map fst rs')"
    and "set rs = set rs'"
  shows "binary_router_fn T (snd (add_prefix_routes T b rs (radix_new T))) level k v
    = binary_router_fn T (snd (add_prefix_routes T b' rs' (radix_new T))) level k v"
proof -
  let ?m = "snd (add_prefix_routes T b rs (radix_new T))"
  let ?m' = "snd (add_prefix_routes T b' rs' (radix_new T))"
  have "map_of (rev rs) = map_of (rev rs')"
    using assms(2-4) by (intro map_of_inject_set [THEN iffD2]) (simp_all add: rev_map [symmetric])
  then have "content ?m = content ?m'" using assms(1) by (simp add: table_content)
  moreover have "longest_prefix_entry (content ?m') k (radix_longest T ?m' k)"
    using assms(1) by (simp add: radix_contract_def)
  ultimately show ?thesis
    using binary_decision [OF assms(1), of ?m k "radix_longest T ?m' k" level v]
      binary_decision [OF assms(1), of ?m' k "radix_longest T ?m' k" level v] by simp
qed

theorem binary_filter_order_irrelevant_witness:
  "binary_router_fn list_radix
     (snd (add_prefix_routes list_radix fb_new [([1], remove_handler), ([1, 2], tag_handler)]
        (radix_new list_radix))) 0 [1, 2, 3] [7]
   = binary_router_fn list_radix
     (snd (add_prefix_routes list_radix fb_new [([1, 2], tag_handler), ([1], remove_handler)]
        (radix_new list_radix))) 0 [1, 2, 3] [7]"
  by (rule binary_filter_order_irrelevant [OF radix_contract_list]) auto

text \<open>
  The filter by key pattern. After a literal pattern was added with success, the key that spells
  the pattern goes to the new handler and the decision on every other key is what it was; a key that is
  not UTF-8 is kept, whatever is registered.
\<close>

theorem filter_routing:
  assumes "router_contract R" and "literal pat"
    and "filter_add_route R b pat h router = (Inr (), b1, router1)"
  shows "\<exists>p. \<forall>level k v. router_compaction_filter_fn R router1 level k v
    = (case from_utf8 k of
         None \<Rightarrow> FilterKeep
       | Some s \<Rightarrow> if s = pat then h level k v p else router_compaction_filter_fn R router level k v)"
proof -
  have r: "router_insert R router pat h = Inr router1"
    using assms(3) by (simp add: filter_add_route_def split: sum.splits)
  obtain p where p: "router_at R router1 pat = Some (h, p)"
    using router_contract_insert [OF assms(1) r assms(2)] by blast
  note other = router_contract_other [OF assms(1) r assms(2)]
  have "router_compaction_filter_fn R router1 level k v
    = (case from_utf8 k of
         None \<Rightarrow> FilterKeep
       | Some s \<Rightarrow> if s = pat then h level k v p else router_compaction_filter_fn R router level k v)"
    for level k v
  proof (cases "from_utf8 k")
    case (Some s)
    then show ?thesis
      by (cases "s = pat") (simp_all add: router_compaction_filter_fn_def p other)
  qed (simp add: router_compaction_filter_fn_def)
  then show ?thesis by blast
qed

theorem filter_routing_witness:
  "router_compaction_filter_fn list_router [(''ab'', \<lambda>level k v p. FilterRemove)] 1 [97, 98] [] = FilterRemove"
proof -
  have ok: "filter_add_route list_router fb_new ''ab'' (\<lambda>level k v p. FilterRemove) []
      = (Inr (), fb_new\<lparr>fb_routes_added := True\<rparr>, [(''ab'', \<lambda>level k v p. FilterRemove)])"
    by (simp add: filter_add_route_def list_router_def)
  have lit: "literal ''ab''" by (simp add: literal_def)
  have ab: "[97, 98] = str_bytes ''ab''" by (simp add: str_bytes_def)
  have "utf8_valid [97, 98]" by (rule utf8_valid_ascii) simp
  then have key: "from_utf8 [97, 98] = Some ''ab''"
    unfolding ab from_utf8_def by (simp only: bytes_str_str_bytes if_True)
  obtain p where "\<And>level k v. router_compaction_filter_fn list_router
      [(''ab'', \<lambda>level k v p. FilterRemove)] level k v
    = (case from_utf8 k of
         None \<Rightarrow> FilterKeep
       | Some s \<Rightarrow> if s = ''ab'' then FilterRemove
           else router_compaction_filter_fn list_router [] level k v)"
    using filter_routing [OF router_contract_list lit ok] by auto
  from this [of 1 "[97, 98]" "[]"] show ?thesis by (simp add: key)
qed

end
