(* ===== verification/Config.thy ===== *)
theory Config
  imports Profiles Compaction_Filter
begin

text \<open>
  \<open>src/config.rs\<close> and the configuration types of \<open>src/tx/\<close>: the enumerations that are parsed from text,
  the choice of a comparator, the configuration records of the stores, and the conversions from the
  records for the default column family into those for many column families.

  A \<open>HashMap\<close> of configurations is the list of its entries in the order in which it iterates, which is
  unspecified; its keys are distinct. The comparison functions of the crates \<open>natlex_sort\<close> and
  \<open>natord\<close> are the parameter \<open>comparator_crates\<close>.
\<close>

section \<open>Enumerations\<close>

datatype compression_type =
    CompressNone | Bz2 | Lz4 | Lz4hc | Snappy | Zlib | Zstd

datatype recovery_mode =
    AbsoluteConsistency | PointInTime | SkipAnyCorruptedRecord | TolerateCorruptedTailRecords

text \<open>
  \<open>str::to_lowercase\<close>, as far as a comparison with ASCII text can tell: ASCII letters, and the Kelvin
  sign (bytes E2 84 AA), the only other character whose lower case is an ASCII letter alone. The
  lower case of any other character keeps a byte outside of ASCII.
\<close>

definition ascii_lower :: "char \<Rightarrow> char" where
  "ascii_lower c =
     (let n = (of_char c :: nat) in if 65 \<le> n \<and> n \<le> 90 then char_of (n + 32) else c)"

fun to_lowercase :: "string \<Rightarrow> string" where
  "to_lowercase [] = []"
| "to_lowercase (c # rest) =
     (if c = CHR 0xE2 \<and> take 2 rest = [CHR 0x84, CHR 0xAA] then CHR ''k'' # to_lowercase (drop 2 rest)
      else ascii_lower c # to_lowercase rest)"

definition compression_from_str :: "string \<Rightarrow> compression_type store_result" where
  "compression_from_str val =
     (let v = to_lowercase val in
      if v = ''none'' then Inr CompressNone
      else if v = ''bz2'' then Inr Bz2
      else if v = ''lz4'' then Inr Lz4
      else if v = ''lz4hc'' then Inr Lz4hc
      else if v = ''snappy'' then Inr Snappy
      else if v = ''zlib'' then Inr Zlib
      else if v = ''zstd'' then Inr Zstd
      else Inl (InvalidConfiguration val))"

definition recovery_from_str :: "string \<Rightarrow> recovery_mode store_result" where
  "recovery_from_str val =
     (let v = to_lowercase val in
      if v = ''absolute'' \<or> v = ''absoluteconsistency'' then Inr AbsoluteConsistency
      else if v = ''pointintime'' \<or> v = ''point_in_time'' then Inr PointInTime
      else if v = ''skipanycorruptedrecord'' \<or> v = ''skip_corrupted'' then Inr SkipAnyCorruptedRecord
      else if v = ''toleratecorruptedtailrecords'' \<or> v = ''tolerate_corrupted_tail''
        then Inr TolerateCorruptedTailRecords
      else Inl (InvalidConfiguration val))"

fun convert_compression_type :: "compression_type \<Rightarrow> compression_lib" where
  "convert_compression_type CompressNone = NoneCompression"
| "convert_compression_type Bz2 = Bz2Compression"
| "convert_compression_type Lz4 = Lz4Compression"
| "convert_compression_type Lz4hc = Lz4hcCompression"
| "convert_compression_type Snappy = SnappyCompression"
| "convert_compression_type Zlib = ZlibCompression"
| "convert_compression_type Zstd = ZstdCompression"

fun convert_recovery_mode :: "recovery_mode \<Rightarrow> recovery_lib" where
  "convert_recovery_mode AbsoluteConsistency = LibAbsoluteConsistency"
| "convert_recovery_mode PointInTime = LibPointInTime"
| "convert_recovery_mode SkipAnyCorruptedRecord = LibSkipAnyCorruptedRecord"
| "convert_recovery_mode TolerateCorruptedTailRecords = LibTolerateCorruptedTailRecords"

section \<open>Comparators\<close>

record comparator_crates =
  nat_lex_byte_cmp :: comparator
  nat_lex_byte_cmp_ignore :: comparator
  natord_compare :: "string \<Rightarrow> string \<Rightarrow> ordering"
  natord_compare_ignore_case :: "string \<Rightarrow> string \<Rightarrow> ordering"

datatype comparator_opt = NoComparator | NaturalLexicographical bool | Natural bool

type_synonym ('r, 't) store_options = "('r merge_fn, 't \<Rightarrow> filter_handler) options"
type_synonym ('r, 't) store_tunable = "('r merge_fn, 't \<Rightarrow> filter_handler) tunable"

text \<open>The closure of the natural order: a key that is not UTF-8 counts as the empty string.\<close>

definition natural_cmp :: "comparator_crates \<Rightarrow> bool \<Rightarrow> comparator" where
  "natural_cmp X ic a b =
     (let s_a = (case from_utf8 a of None \<Rightarrow> [] | Some s \<Rightarrow> s);
          s_b = (case from_utf8 b of None \<Rightarrow> [] | Some s \<Rightarrow> s)
      in if ic then natord_compare_ignore_case X s_a s_b else natord_compare X s_a s_b)"

fun apply_to_opts ::
    "comparator_crates \<Rightarrow> comparator_opt \<Rightarrow> string \<Rightarrow> ('r, 't) store_options \<Rightarrow> ('r, 't) store_options" where
  "apply_to_opts X NoComparator cf_name opts = opts"
| "apply_to_opts X (NaturalLexicographical ignore_case) cf_name opts =
     (if ignore_case then opts @ [SetComparator ''rocksolid_natlex_ci'' (nat_lex_byte_cmp_ignore X)]
      else opts @ [SetComparator ''rocksolid_natlex_cs'' (nat_lex_byte_cmp X)])"
| "apply_to_opts X (Natural ignore_case) cf_name opts =
     (let comparator_name = (if ignore_case then ''rocksolid_natural_ci'' else ''rocksolid_natural_cs'')
      in opts @ [SetComparator comparator_name (natural_cmp X ignore_case)])"

section \<open>Configuration of a column family\<close>

record 'r cf_merge_operator =
  cmo_name :: string
  cmo_full_merge_fn :: "'r merge_fn option"
  cmo_partial_merge_fn :: "'r merge_fn option"

definition cmo_from :: "'r merge_operator_config \<Rightarrow> 'r cf_merge_operator" where
  "cmo_from original = \<lparr>
     cmo_name = moc_name original,
     cmo_full_merge_fn = moc_full_merge_fn original,
     cmo_partial_merge_fn = moc_partial_merge_fn original\<rparr>"

record ('r, 't) base_cf_config =
  tuning_profile_of :: "tuning_profile option"
  merge_operator_of :: "'r cf_merge_operator option"
  comparator_of :: "comparator_opt option"
  compaction_filter_router_of :: "'t filter_router_config option"

text \<open>
  The configuration of earlier versions, which no store takes any more. \<open>'p\<close> is the type of prefix extractors of
  RocksDB, \<open>cpus\<close> is \<open>num_cpus::get()\<close>.
\<close>

record ('r, 't, 'p) rocks_db_config =
  rc_path :: string
  rc_recovery_mode :: recovery_mode
  rc_compression :: compression_type
  rc_create_if_missing :: bool
  rc_enable_statistics :: bool
  rc_parallelism :: usize
  rc_comparator :: "(string \<times> comparator) option"
  rc_merge_operators :: "'r merge_operator_config list"
  rc_prefix_extractor :: "'p option"
  rc_custom_options :: "(('r, 't) store_options \<Rightarrow> ('r, 't) store_options) option"

definition rocks_db_config_default :: "usize \<Rightarrow> ('r, 't, 'p) rocks_db_config" where
  "rocks_db_config_default cpus = \<lparr>
     rc_path = ''./rocksdb_data_compat'', rc_recovery_mode = PointInTime, rc_compression = Lz4,
     rc_create_if_missing = True, rc_enable_statistics = False, rc_parallelism = max cpus 2,
     rc_comparator = None, rc_merge_operators = [], rc_prefix_extractor = None, rc_custom_options = None\<rparr>"

section \<open>Configuration of the stores\<close>

record ('r, 't) cf_store_config =
  cs_path :: string
  cs_create_if_missing :: bool
  cs_db_tuning_profile :: "tuning_profile option"
  cs_column_family_configs :: "(string \<times> ('r, 't) base_cf_config) list"
  cs_column_families_to_open :: "string list"
  cs_custom_options_db_and_cf ::
    "(('r, 't) store_tunable \<Rightarrow> (string \<Rightarrow> ('r, 't) store_tunable option)
      \<Rightarrow> ('r, 't) store_tunable \<times> (string \<Rightarrow> ('r, 't) store_tunable option)) option"
  cs_recovery_mode :: "recovery_mode option"
  cs_parallelism :: "i32 option"
  cs_enable_statistics :: "bool option"

definition cf_store_config_default :: "('r, 't) cf_store_config" where
  "cf_store_config_default = \<lparr>
     cs_path = [], cs_create_if_missing = True, cs_db_tuning_profile = None,
     cs_column_family_configs = [], cs_column_families_to_open = [DEFAULT_COLUMN_FAMILY_NAME],
     cs_custom_options_db_and_cf = None, cs_recovery_mode = None, cs_parallelism = None,
     cs_enable_statistics = None\<rparr>"

record ('r, 't) store_config =
  sc_path :: string
  sc_create_if_missing :: bool
  sc_default_cf_tuning_profile :: "tuning_profile option"
  sc_default_cf_merge_operator :: "'r cf_merge_operator option"
  sc_comparator :: "comparator_opt option"
  sc_compaction_filter_router :: "'t filter_router_config option"
  sc_custom_options_default_cf_and_db ::
    "(('r, 't) store_tunable \<Rightarrow> ('r, 't) store_tunable
      \<Rightarrow> ('r, 't) store_tunable \<times> ('r, 't) store_tunable) option"
  sc_recovery_mode :: "recovery_mode option"
  sc_parallelism :: "i32 option"
  sc_enable_statistics :: "bool option"

definition store_config_default :: "('r, 't) store_config" where
  "store_config_default = \<lparr>
     sc_path = [], sc_create_if_missing = True, sc_default_cf_tuning_profile = None,
     sc_default_cf_merge_operator = None, sc_comparator = None, sc_compaction_filter_router = None,
     sc_custom_options_default_cf_and_db = None, sc_recovery_mode = None, sc_parallelism = None,
     sc_enable_statistics = None\<rparr>"

text \<open>The callback for the database and the default family, as one for a map of families.\<close>

definition lift_custom ::
    "(('r, 't) store_tunable \<Rightarrow> ('r, 't) store_tunable \<Rightarrow> ('r, 't) store_tunable \<times> ('r, 't) store_tunable)
     \<Rightarrow> ('r, 't) store_tunable \<Rightarrow> (string \<Rightarrow> ('r, 't) store_tunable option)
     \<Rightarrow> ('r, 't) store_tunable \<times> (string \<Rightarrow> ('r, 't) store_tunable option)" where
  "lift_custom user_fn db_opts cf_opts_map =
     (case cf_opts_map DEFAULT_COLUMN_FAMILY_NAME of
        Some default_cf_opts \<Rightarrow>
          (case user_fn db_opts default_cf_opts of
             (d, c) \<Rightarrow> (d, cf_opts_map(DEFAULT_COLUMN_FAMILY_NAME \<mapsto> c)))
      | None \<Rightarrow> (db_opts, cf_opts_map))"

definition cf_store_config_from :: "('r, 't) store_config \<Rightarrow> ('r, 't) cf_store_config" where
  "cf_store_config_from cfg =
     (let default_cf_config = \<lparr>
            tuning_profile_of = sc_default_cf_tuning_profile cfg,
            merge_operator_of = sc_default_cf_merge_operator cfg,
            comparator_of = sc_comparator cfg,
            compaction_filter_router_of = sc_compaction_filter_router cfg\<rparr>
      in \<lparr>
        cs_path = sc_path cfg, cs_create_if_missing = sc_create_if_missing cfg,
        cs_db_tuning_profile = None,
        cs_column_family_configs = [(DEFAULT_COLUMN_FAMILY_NAME, default_cf_config)],
        cs_column_families_to_open = [DEFAULT_COLUMN_FAMILY_NAME],
        cs_custom_options_db_and_cf =
          map_option lift_custom (sc_custom_options_default_cf_and_db cfg),
        cs_recovery_mode = sc_recovery_mode cfg, cs_parallelism = sc_parallelism cfg,
        cs_enable_statistics = sc_enable_statistics cfg\<rparr>)"

subsection \<open>Transactional stores\<close>

text \<open>\<open>'o\<close> are the options of a transaction database.\<close>

datatype 'o transactional_engine = Pessimistic 'o | Optimistic

type_synonym ('r, 't) custom_cf_cb = "(string \<Rightarrow> ('r, 't) store_tunable \<Rightarrow> ('r, 't) store_tunable) option"

record ('r, 't, 'o) transactional_store_config =
  tc_path :: string
  tc_create_if_missing :: bool
  tc_db_tuning_profile :: "tuning_profile option"
  tc_column_family_configs :: "(string \<times> ('r, 't) base_cf_config) list"
  tc_column_families_to_open :: "string list"
  tc_custom_options_db_and_cf :: "('r, 't) custom_cf_cb"
  tc_recovery_mode :: "recovery_mode option"
  tc_parallelism :: "i32 option"
  tc_enable_statistics :: "bool option"
  tc_engine :: "'o transactional_engine"

record ('r, 't, 'o) txn_store_config =
  xc_path :: string
  xc_create_if_missing :: bool
  xc_default_cf_tuning_profile :: "tuning_profile option"
  xc_default_cf_merge_operator :: "'r merge_operator_config option"
  xc_compaction_filter_router :: "'t filter_router_config option"
  xc_custom_options_default_cf_and_db :: "('r, 't) custom_cf_cb"
  xc_recovery_mode :: "recovery_mode option"
  xc_parallelism :: "i32 option"
  xc_enable_statistics :: "bool option"
  xc_txn_db_options :: "'o option"

definition txn_store_config_default :: "('r, 't, 'o) txn_store_config" where
  "txn_store_config_default = \<lparr>
     xc_path = ''./rocksdb_data_txn_store'', xc_create_if_missing = True,
     xc_default_cf_tuning_profile = None, xc_default_cf_merge_operator = None,
     xc_compaction_filter_router = None, xc_custom_options_default_cf_and_db = None,
     xc_recovery_mode = None, xc_parallelism = None, xc_enable_statistics = None,
     xc_txn_db_options = None\<rparr>"

text \<open>The user's callback, called for the default family only.\<close>

definition only_default ::
    "(string \<Rightarrow> ('r, 't) store_tunable \<Rightarrow> ('r, 't) store_tunable)
     \<Rightarrow> string \<Rightarrow> ('r, 't) store_tunable \<Rightarrow> ('r, 't) store_tunable" where
  "only_default user_fn cf_name db_opts =
     (if cf_name = DEFAULT_COLUMN_FAMILY_NAME then user_fn cf_name db_opts else db_opts)"

text \<open>\<open>dflt\<close> is \<open>TransactionDBOptions::default()\<close>.\<close>

definition txn_config_from :: "'o \<Rightarrow> ('r, 't, 'o) txn_store_config \<Rightarrow> ('r, 't, 'o) transactional_store_config" where
  "txn_config_from dflt cfg =
     (let default_cf_base_config = \<lparr>
            tuning_profile_of = xc_default_cf_tuning_profile cfg,
            merge_operator_of = map_option
              (\<lambda>mo_config. \<lparr>cmo_name = moc_name mo_config,
                 cmo_full_merge_fn = moc_full_merge_fn mo_config,
                 cmo_partial_merge_fn = moc_partial_merge_fn mo_config\<rparr>)
              (xc_default_cf_merge_operator cfg),
            comparator_of = None,
            compaction_filter_router_of = xc_compaction_filter_router cfg\<rparr>
      in \<lparr>
        tc_path = xc_path cfg, tc_create_if_missing = xc_create_if_missing cfg,
        tc_db_tuning_profile = None,
        tc_column_family_configs = [(DEFAULT_COLUMN_FAMILY_NAME, default_cf_base_config)],
        tc_column_families_to_open = [DEFAULT_COLUMN_FAMILY_NAME],
        tc_custom_options_db_and_cf =
          map_option only_default (xc_custom_options_default_cf_and_db cfg),
        tc_recovery_mode = xc_recovery_mode cfg, tc_parallelism = xc_parallelism cfg,
        tc_enable_statistics = xc_enable_statistics cfg,
        tc_engine = Pessimistic (case xc_txn_db_options cfg of None \<Rightarrow> dflt | Some x \<Rightarrow> x)\<rparr>)"

record ('r, 't) cf_optimistic_config =
  oc_path :: string
  oc_create_if_missing :: bool
  oc_db_tuning_profile :: "tuning_profile option"
  oc_column_family_configs :: "(string \<times> ('r, 't) base_cf_config) list"
  oc_column_families_to_open :: "string list"
  oc_custom_options_db_and_cf :: "('r, 't) custom_cf_cb"
  oc_recovery_mode :: "recovery_mode option"
  oc_parallelism :: "i32 option"
  oc_enable_statistics :: "bool option"

definition optimistic_config_from ::
    "('r, 't) cf_optimistic_config \<Rightarrow> ('r, 't, 'o) transactional_store_config" where
  "optimistic_config_from cfg = \<lparr>
     tc_path = oc_path cfg, tc_create_if_missing = oc_create_if_missing cfg,
     tc_db_tuning_profile = oc_db_tuning_profile cfg,
     tc_column_family_configs = map (\<lambda>(name, opt_cfg). (name, opt_cfg)) (oc_column_family_configs cfg),
     tc_column_families_to_open = oc_column_families_to_open cfg,
     tc_custom_options_db_and_cf = oc_custom_options_db_and_cf cfg,
     tc_recovery_mode = oc_recovery_mode cfg, tc_parallelism = oc_parallelism cfg,
     tc_enable_statistics = oc_enable_statistics cfg, tc_engine = Optimistic\<rparr>"

record ('r, 't) optimistic_store_config =
  dc_path :: string
  dc_create_if_missing :: bool
  dc_default_cf_tuning_profile :: "tuning_profile option"
  dc_default_cf_merge_operator :: "'r merge_operator_config option"
  dc_compaction_filter_router :: "'t filter_router_config option"
  dc_custom_options_default_cf_and_db :: "('r, 't) custom_cf_cb"
  dc_recovery_mode :: "recovery_mode option"
  dc_parallelism :: "i32 option"
  dc_enable_statistics :: "bool option"

definition optimistic_store_config_default :: "('r, 't) optimistic_store_config" where
  "optimistic_store_config_default = \<lparr>
     dc_path = [], dc_create_if_missing = True, dc_default_cf_tuning_profile = None,
     dc_default_cf_merge_operator = None, dc_compaction_filter_router = None,
     dc_custom_options_default_cf_and_db = None, dc_recovery_mode = None, dc_parallelism = None,
     dc_enable_statistics = None\<rparr>"

definition default_base_config :: "('r, 't) optimistic_store_config \<Rightarrow> ('r, 't) base_cf_config" where
  "default_base_config cfg = \<lparr>
     tuning_profile_of = dc_default_cf_tuning_profile cfg,
     merge_operator_of = map_option cmo_from (dc_default_cf_merge_operator cfg),
     comparator_of = None,
     compaction_filter_router_of = dc_compaction_filter_router cfg\<rparr>"

text \<open>The two conversions of the optimistic configuration for the default family.\<close>

definition unified_from_optimistic_store ::
    "('r, 't) optimistic_store_config \<Rightarrow> ('r, 't, 'o) transactional_store_config" where
  "unified_from_optimistic_store cfg = \<lparr>
     tc_path = dc_path cfg, tc_create_if_missing = dc_create_if_missing cfg,
     tc_db_tuning_profile = None,
     tc_column_family_configs = [(DEFAULT_COLUMN_FAMILY_NAME, default_base_config cfg)],
     tc_column_families_to_open = [DEFAULT_COLUMN_FAMILY_NAME],
     tc_custom_options_db_and_cf = map_option only_default (dc_custom_options_default_cf_and_db cfg),
     tc_recovery_mode = dc_recovery_mode cfg, tc_parallelism = dc_parallelism cfg,
     tc_enable_statistics = dc_enable_statistics cfg, tc_engine = Optimistic\<rparr>"

definition cf_optimistic_from_store :: "('r, 't) optimistic_store_config \<Rightarrow> ('r, 't) cf_optimistic_config" where
  "cf_optimistic_from_store cfg = \<lparr>
     oc_path = dc_path cfg, oc_create_if_missing = dc_create_if_missing cfg,
     oc_db_tuning_profile = None,
     oc_column_family_configs = [(DEFAULT_COLUMN_FAMILY_NAME, default_base_config cfg)],
     oc_column_families_to_open = [DEFAULT_COLUMN_FAMILY_NAME],
     oc_custom_options_db_and_cf = map_option only_default (dc_custom_options_default_cf_and_db cfg),
     oc_recovery_mode = dc_recovery_mode cfg, oc_parallelism = dc_parallelism cfg,
     oc_enable_statistics = dc_enable_statistics cfg\<rparr>"

section \<open>Lemmas\<close>

text \<open>The two ways from the optimistic default configuration to the unified one agree.\<close>

lemma optimistic_conversions_agree:
  "unified_from_optimistic_store cfg = optimistic_config_from (cf_optimistic_from_store cfg)"
  by (simp add: unified_from_optimistic_store_def optimistic_config_from_def cf_optimistic_from_store_def)

lemma keys_not_utf8_equal:
  "from_utf8 a = None \<Longrightarrow> from_utf8 b = None \<Longrightarrow> natord_compare X [] [] = OrdEqual \<Longrightarrow>
     natural_cmp X False a b = OrdEqual"
  by (simp add: natural_cmp_def)

lemma from_str_error_keeps_text:
  "compression_from_str s = Inl e \<Longrightarrow> e = InvalidConfiguration s"
  "recovery_from_str s = Inl e \<Longrightarrow> e = InvalidConfiguration s"
  by (auto simp: compression_from_str_def recovery_from_str_def Let_def split: if_splits)

end
