(* ===== verification/Open_Store.thy ===== *)
theory Open_Store
  imports Config
begin

text \<open>
  The assembly of options when a database is opened or destroyed: \<open>RocksDbCFStore::open\<close> and \<open>destroy\<close>
  (\<open>src/cf_store.rs\<close>), the shared helper of the transactional stores (\<open>src/tx/internal.rs\<close>), the \<open>open\<close>
  and \<open>destroy\<close> of \<open>src/tx/cf_tx_store.rs\<close> and \<open>src/tx/cf_optimistic_tx_store.rs\<close>, and those of the three
  stores for the default column family.

  RocksDB's own calls are the parameter \<open>open_api\<close> over a world \<open>'w\<close>; a successful call gives a database
  \<open>'d\<close>. The model is what they are called with. A map of options per column family is a function.
\<close>

section \<open>RocksDB\<close>

type_synonym ('r, 't) descriptors = "(string \<times> ('r, 't) store_options) list"

record ('w, 'd, 'r, 't, 'o) open_api =
  open_plain :: "('r, 't) store_options \<Rightarrow> string \<Rightarrow> ('r, 't) descriptors \<Rightarrow> 'w
    \<Rightarrow> (rocks_error, 'd) result \<times> 'w"
  open_pessimistic :: "('r, 't) store_options \<Rightarrow> 'o \<Rightarrow> string \<Rightarrow> ('r, 't) descriptors \<Rightarrow> 'w
    \<Rightarrow> (rocks_error, 'd) result \<times> 'w"
  open_optimistic :: "('r, 't) store_options \<Rightarrow> string \<Rightarrow> ('r, 't) descriptors \<Rightarrow> 'w
    \<Rightarrow> (rocks_error, 'd) result \<times> 'w"
  destroy_db :: "('r, 't) store_options \<Rightarrow> bytes \<Rightarrow> 'w \<Rightarrow> (rocks_error, unit) result \<times> 'w"

type_synonym ('r, 't) cf_opts_map = "string \<Rightarrow> ('r, 't) store_tunable option"
type_synonym ('r, 't) raw_opts_map = "string \<Rightarrow> ('r, 't) store_options option"

section \<open>Options per column family\<close>

text \<open>Steps 4 of \<open>open\<close>: one entry for each family that is to be opened.\<close>

definition effective_profile ::
    "(string \<times> ('r, 't) base_cf_config) list \<Rightarrow> tuning_profile option \<Rightarrow> string \<Rightarrow> tuning_profile option" where
  "effective_profile configs db_profile cf_name =
     (case Option.bind (map_of configs cf_name) tuning_profile_of of
        Some p \<Rightarrow> Some p
      | None \<Rightarrow> db_profile)"

definition tune_entry :: "tuning_profile option \<Rightarrow> string \<Rightarrow> ('r, 't) store_tunable" where
  "tune_entry profile cf_name =
     (case profile of
        None \<Rightarrow> tunable_new []
      | Some p \<Rightarrow> tune_cf_opts p cf_name (tunable_new []))"

definition cf_options_map ::
    "(string \<times> ('r, 't) base_cf_config) list \<Rightarrow> tuning_profile option \<Rightarrow> string list \<Rightarrow> ('r, 't) cf_opts_map" where
  "cf_options_map configs db_profile cfs =
     (let m = foldl (\<lambda>m cf_name. m(cf_name \<mapsto> tune_entry (effective_profile configs db_profile cf_name) cf_name))
            Map.empty cfs
      in if DEFAULT_COLUMN_FAMILY_NAME \<in> set cfs \<and> m DEFAULT_COLUMN_FAMILY_NAME = None
         then m(DEFAULT_COLUMN_FAMILY_NAME \<mapsto> tune_entry db_profile DEFAULT_COLUMN_FAMILY_NAME)
         else m)"

definition unwrap_tunables :: "('r, 't) cf_opts_map \<Rightarrow> ('r, 't) raw_opts_map" where
  "unwrap_tunables m name = map_option into_inner (m name)"

text \<open>Step 7: merge operator, comparator and compaction filter of one family.\<close>

definition apply_cf_config ::
    "comparator_crates \<Rightarrow> string \<Rightarrow> ('r, 't) base_cf_config \<Rightarrow> ('r, 't) store_options \<Rightarrow> ('r, 't) store_options" where
  "apply_cf_config X cf_name cfg opts =
     (let opts1 = (case merge_operator_of cfg of
            None \<Rightarrow> opts
          | Some mo \<Rightarrow> opts @ [MergeOperator (cmo_name mo)
              (case cmo_full_merge_fn mo of Some f \<Rightarrow> f | None \<Rightarrow> (\<lambda>_. default_full_merge))
              (case cmo_partial_merge_fn mo of Some f \<Rightarrow> f | None \<Rightarrow> (\<lambda>_. default_partial_merge))]);
          opts2 = (case comparator_of cfg of
            None \<Rightarrow> opts1
          | Some choice \<Rightarrow> apply_to_opts X choice cf_name opts1)
      in case compaction_filter_router_of cfg of
           None \<Rightarrow> opts2
         | Some fr \<Rightarrow> opts2 @ [CompactionFilterOpt (frc_name fr) (frc_filter_fn_ptr fr)])"

fun apply_cf_configs ::
    "comparator_crates \<Rightarrow> (string \<times> ('r, 't) base_cf_config) list \<Rightarrow> ('r, 't) raw_opts_map \<Rightarrow> ('r, 't) raw_opts_map" where
  "apply_cf_configs X [] m = m"
| "apply_cf_configs X ((cf_name, cfg) # rest) m =
     apply_cf_configs X rest
       (case m cf_name of
          Some opts \<Rightarrow> m(cf_name \<mapsto> apply_cf_config X cf_name cfg opts)
        | None \<Rightarrow> m)"

text \<open>Step 8: the entry of each family is taken out of the map; a missing one is \<open>Options::default()\<close>.\<close>

fun build_descriptors :: "('r, 't) raw_opts_map \<Rightarrow> string list \<Rightarrow> ('r, 't) descriptors" where
  "build_descriptors m [] = []"
| "build_descriptors m (name # names) =
     (name, case m name of Some opts \<Rightarrow> opts | None \<Rightarrow> []) # build_descriptors (m(name := None)) names"

section \<open>RocksDbCFStore::open and destroy\<close>

record 'd cf_store =
  st_db :: 'd
  st_cf_names :: "string set"
  st_path :: string

definition with_statistics :: "bool option \<Rightarrow> ('r, 't) store_tunable \<Rightarrow> ('r, 't) store_tunable" where
  "with_statistics enable t =
     (case enable of None \<Rightarrow> t | Some b \<Rightarrow> only_if b (call EnableStatistics) t)"

definition with_recovery :: "recovery_mode option \<Rightarrow> ('r, 't) store_tunable \<Rightarrow> ('r, 't) store_tunable" where
  "with_recovery mode t =
     (case mode of None \<Rightarrow> t | Some m \<Rightarrow> call (WalRecoveryMode (convert_recovery_mode m)) t)"

definition with_db_profile ::
    "usize \<Rightarrow> tuning_profile option \<Rightarrow> string \<Rightarrow> ('r, 't) store_tunable \<Rightarrow> ('r, 't) store_tunable" where
  "with_db_profile cpus profile path t =
     (case profile of None \<Rightarrow> t | Some p \<Rightarrow> tune_db_opts cpus p path t)"

definition creating :: "bool \<Rightarrow> ('r, 't) store_tunable \<Rightarrow> ('r, 't) store_tunable" where
  "creating b t = call (Macro (CreateMissingColumnFamilies b)) (call (Macro (CreateIfMissing b)) t)"

text \<open>Steps 1 to 3: the parallelism is set and locked, the other hard settings are made on \<open>inner\<close>.\<close>

definition set_parallelism :: "i32 option \<Rightarrow> ('r, 't) store_tunable \<Rightarrow> ('r, 't) store_tunable" where
  "set_parallelism p t = (case p of None \<Rightarrow> t | Some n \<Rightarrow> set_opt (IncreaseParallelism n) t)"

definition hard_settings :: "('r, 't) cf_store_config \<Rightarrow> ('r, 't) store_tunable \<Rightarrow> ('r, 't) store_tunable" where
  "hard_settings cfg =
     stmts [set_parallelism (cs_parallelism cfg), with_recovery (cs_recovery_mode cfg),
       with_statistics (cs_enable_statistics cfg)]"

definition open_db_options :: "usize \<Rightarrow> ('r, 't) cf_store_config \<Rightarrow> ('r, 't) store_tunable" where
  "open_db_options cpus cfg =
     stmts [creating (cs_create_if_missing cfg), hard_settings cfg,
       with_db_profile cpus (cs_db_tuning_profile cfg) (cs_path cfg)] (tunable_new [])"

definition run_custom ::
    "(('r, 't) store_tunable \<Rightarrow> ('r, 't) cf_opts_map \<Rightarrow> ('r, 't) store_tunable \<times> ('r, 't) cf_opts_map) option
     \<Rightarrow> ('r, 't) store_tunable \<Rightarrow> ('r, 't) cf_opts_map \<Rightarrow> ('r, 't) store_tunable \<times> ('r, 't) cf_opts_map" where
  "run_custom custom d m = (case custom of None \<Rightarrow> (d, m) | Some custom_fn \<Rightarrow> custom_fn d m)"

definition cf_store_open ::
    "usize \<Rightarrow> comparator_crates \<Rightarrow> ('w, 'd, 'r, 't, 'o) open_api \<Rightarrow> ('r, 't) cf_store_config \<Rightarrow> 'w
     \<Rightarrow> 'd cf_store store_result \<times> 'w" where
  "cf_store_open cpus X E cfg w =
     (let cfs = cs_column_families_to_open cfg;
          db_opts = open_db_options cpus cfg;
          cf_map = cf_options_map (cs_column_family_configs cfg) (cs_db_tuning_profile cfg) cfs
      in case run_custom (cs_custom_options_db_and_cf cfg) db_opts cf_map of
           (db_opts1, cf_map1) \<Rightarrow>
             (let raw_db_opts = into_inner db_opts1;
                  raw_cf_map = apply_cf_configs X (cs_column_family_configs cfg) (unwrap_tunables cf_map1);
                  cf_descriptors = build_descriptors raw_cf_map cfs
              in case open_plain E raw_db_opts (cs_path cfg) cf_descriptors w of
                   (Inl e, w1) \<Rightarrow> (Inl (RocksDb e), w1)
                 | (Inr db, w1) \<Rightarrow>
                     (Inr \<lparr>st_db = db, st_cf_names = set cfs, st_path = cs_path cfg\<rparr>, w1)))"

definition cf_store_destroy ::
    "usize \<Rightarrow> ('w, 'd, 'r, 't, 'o) open_api \<Rightarrow> bytes \<Rightarrow> ('r, 't) cf_store_config \<Rightarrow> 'w
     \<Rightarrow> unit store_result \<times> 'w" where
  "cf_store_destroy cpus E path cfg w =
     (let db_name = (case from_utf8 path of Some p \<Rightarrow> p | None \<Rightarrow> ''db_for_destroy'');
          opts = stmts [hard_settings cfg, with_db_profile cpus (cs_db_tuning_profile cfg) db_name]
            (tunable_new []);
          opts1 = fst (run_custom (cs_custom_options_db_and_cf cfg) opts Map.empty)
      in case destroy_db E (into_inner opts1) path w of (r, w1) \<Rightarrow> (map_err RocksDb r, w1))"

section \<open>The transactional stores\<close>

definition build_db_wide_options ::
    "usize \<Rightarrow> string \<Rightarrow> bool option \<Rightarrow> i32 option \<Rightarrow> recovery_mode option \<Rightarrow> bool option
     \<Rightarrow> tuning_profile option \<Rightarrow> ('r, 't) store_options" where
  "build_db_wide_options cpus path create_if_missing parallelism recovery enable_stats profile =
     into_inner
       (stmts
          [(case create_if_missing of None \<Rightarrow> id | Some b \<Rightarrow> creating b),
           (case parallelism of None \<Rightarrow> id | Some p \<Rightarrow> call (Macro (IncreaseParallelism p))),
           with_recovery recovery, with_statistics enable_stats, with_db_profile cpus profile path]
          (tunable_new []))"

datatype 'd opened = OpenedPessimistic 'd | OpenedOptimistic 'd

definition open_db_internal ::
    "usize \<Rightarrow> comparator_crates \<Rightarrow> ('w, 'd, 'r, 't, 'o) open_api \<Rightarrow> ('r, 't, 'o) transactional_store_config \<Rightarrow> 'w
     \<Rightarrow> 'd opened store_result \<times> 'w" where
  "open_db_internal cpus X E cfg w =
     (let raw_db_opts = build_db_wide_options cpus (tc_path cfg) (Some (tc_create_if_missing cfg))
            (tc_parallelism cfg) (tc_recovery_mode cfg) (tc_enable_statistics cfg)
            (tc_db_tuning_profile cfg);
          cf_map = cf_options_map (tc_column_family_configs cfg) (tc_db_tuning_profile cfg)
            (tc_column_families_to_open cfg);
          cf_map1 = (case tc_custom_options_db_and_cf cfg of
              None \<Rightarrow> cf_map
            | Some custom_fn \<Rightarrow> (\<lambda>cf_name. map_option (custom_fn cf_name) (cf_map cf_name)));
          raw_cf_map = apply_cf_configs X (tc_column_family_configs cfg) (unwrap_tunables cf_map1);
          cf_descriptors = build_descriptors raw_cf_map (tc_column_families_to_open cfg)
      in case tc_engine cfg of
           Pessimistic txn_db_opts \<Rightarrow>
             (case open_pessimistic E raw_db_opts txn_db_opts (tc_path cfg) cf_descriptors w of
                (r, w1) \<Rightarrow> (map_ok OpenedPessimistic (map_err RocksDb r), w1))
         | Optimistic \<Rightarrow>
             (case open_optimistic E raw_db_opts (tc_path cfg) cf_descriptors w of
                (r, w1) \<Rightarrow> (map_ok OpenedOptimistic (map_err RocksDb r), w1)))"

definition cf_txn_store_open ::
    "usize \<Rightarrow> comparator_crates \<Rightarrow> ('w, 'd, 'r, 't, 'o) open_api \<Rightarrow> ('r, 't, 'o) transactional_store_config \<Rightarrow> 'w
     \<Rightarrow> 'd cf_store store_result \<times> 'w" where
  "cf_txn_store_open cpus X E cfg w =
     (case open_db_internal cpus X E cfg w of
        (Inl e, w1) \<Rightarrow> (Inl e, w1)
      | (Inr (OpenedPessimistic db), w1) \<Rightarrow>
          (Inr \<lparr>st_db = db, st_cf_names = set (tc_column_families_to_open cfg), st_path = tc_path cfg\<rparr>, w1)
      | (Inr (OpenedOptimistic db), w1) \<Rightarrow>
          (Inl (InvalidConfiguration
             ''Configured for Optimistic engine, but tried to open as Pessimistic''), w1))"

definition destroy_transactional ::
    "usize \<Rightarrow> ('w, 'd, 'r, 't, 'o) open_api \<Rightarrow> bytes \<Rightarrow> ('r, 't, 'o) transactional_store_config \<Rightarrow> 'w
     \<Rightarrow> unit store_result \<times> 'w" where
  "destroy_transactional cpus E path cfg w =
     (let final_opts = build_db_wide_options cpus (case from_utf8 path of Some p \<Rightarrow> p | None \<Rightarrow> [])
            (Some (tc_create_if_missing cfg)) (tc_parallelism cfg) (tc_recovery_mode cfg)
            (tc_enable_statistics cfg) (tc_db_tuning_profile cfg)
      in case destroy_db E final_opts path w of (r, w1) \<Rightarrow> (map_err RocksDb r, w1))"

definition cf_optimistic_store_open ::
    "usize \<Rightarrow> comparator_crates \<Rightarrow> ('w, 'd, 'r, 't, 'o) open_api \<Rightarrow> ('r, 't) cf_optimistic_config \<Rightarrow> 'w
     \<Rightarrow> 'd cf_store store_result \<times> 'w" where
  "cf_optimistic_store_open cpus X E cfg w =
     (case open_db_internal cpus X E (optimistic_config_from cfg) w of
        (Inl e, w1) \<Rightarrow> (Inl e, w1)
      | (Inr (OpenedOptimistic db), w1) \<Rightarrow>
          (Inr \<lparr>st_db = db, st_cf_names = set (oc_column_families_to_open cfg), st_path = oc_path cfg\<rparr>, w1)
      | (Inr (OpenedPessimistic db), w1) \<Rightarrow>
          (Inl (InvalidConfiguration
             ''Configured for Pessimistic engine, but tried to open as Optimistic''), w1))"

definition cf_optimistic_destroy ::
    "usize \<Rightarrow> ('w, 'd, 'r, 't, 'o) open_api \<Rightarrow> bytes \<Rightarrow> ('r, 't) cf_optimistic_config \<Rightarrow> 'w
     \<Rightarrow> unit store_result \<times> 'w" where
  "cf_optimistic_destroy cpus E path cfg w = destroy_transactional cpus E path (optimistic_config_from cfg) w"

section \<open>The stores for the default family\<close>

definition store_open ::
    "usize \<Rightarrow> comparator_crates \<Rightarrow> ('w, 'd, 'r, 't, 'o) open_api \<Rightarrow> ('r, 't) store_config \<Rightarrow> 'w
     \<Rightarrow> 'd cf_store store_result \<times> 'w" where
  "store_open cpus X E config w = cf_store_open cpus X E (cf_store_config_from config) w"

definition store_destroy ::
    "usize \<Rightarrow> ('w, 'd, 'r, 't, 'o) open_api \<Rightarrow> bytes \<Rightarrow> ('r, 't) store_config \<Rightarrow> 'w \<Rightarrow> unit store_result \<times> 'w" where
  "store_destroy cpus E path config w = cf_store_destroy cpus E path (cf_store_config_from config) w"

definition txn_store_open ::
    "usize \<Rightarrow> comparator_crates \<Rightarrow> ('w, 'd, 'r, 't, 'o) open_api \<Rightarrow> 'o \<Rightarrow> ('r, 't, 'o) txn_store_config \<Rightarrow> 'w
     \<Rightarrow> 'd cf_store store_result \<times> 'w" where
  "txn_store_open cpus X E dflt config w = cf_txn_store_open cpus X E (txn_config_from dflt config) w"

definition txn_store_destroy ::
    "usize \<Rightarrow> ('w, 'd, 'r, 't, 'o) open_api \<Rightarrow> 'o \<Rightarrow> bytes \<Rightarrow> ('r, 't, 'o) txn_store_config \<Rightarrow> 'w
     \<Rightarrow> unit store_result \<times> 'w" where
  "txn_store_destroy cpus E dflt path config w =
     destroy_transactional cpus E path (txn_config_from dflt config) w"

definition optimistic_store_open ::
    "usize \<Rightarrow> comparator_crates \<Rightarrow> ('w, 'd, 'r, 't, 'o) open_api \<Rightarrow> ('r, 't) optimistic_store_config \<Rightarrow> 'w
     \<Rightarrow> 'd cf_store store_result \<times> 'w" where
  "optimistic_store_open cpus X E config w =
     cf_optimistic_store_open cpus X E (cf_optimistic_from_store config) w"

definition optimistic_store_destroy ::
    "usize \<Rightarrow> ('w, 'd, 'r, 't, 'o) open_api \<Rightarrow> bytes \<Rightarrow> ('r, 't) optimistic_store_config \<Rightarrow> 'w
     \<Rightarrow> unit store_result \<times> 'w" where
  "optimistic_store_destroy cpus E path config w =
     cf_optimistic_destroy cpus E path \<lparr>
       oc_path = dc_path config, oc_create_if_missing = dc_create_if_missing config,
       oc_db_tuning_profile = dc_default_cf_tuning_profile config,
       oc_column_family_configs = [], oc_column_families_to_open = [],
       oc_custom_options_db_and_cf = None, oc_recovery_mode = dc_recovery_mode config,
       oc_parallelism = dc_parallelism config, oc_enable_statistics = dc_enable_statistics config\<rparr> w"

section \<open>Lemmas\<close>

lemma foldl_entries: "foldl (\<lambda>m n. m(n \<mapsto> f n)) m ns n = (if n \<in> set ns then Some (f n) else m n)"
  by (induction ns arbitrary: m) auto

text \<open>The map has an entry for each family to open; the entry for the default family is never missing.\<close>

lemma cf_options_map_eq:
  "cf_options_map configs profile cfs =
     (\<lambda>n. if n \<in> set cfs then Some (tune_entry (effective_profile configs profile n) n) else None)"
  by (auto simp: cf_options_map_def Let_def foldl_entries fun_eq_iff)

text \<open>
  What the configuration of a family adds to its options: the merge operator, with the default functions
  where it has none of its own; the comparator; the compaction filter.
\<close>

definition family_calls :: "comparator_crates \<Rightarrow> string \<Rightarrow> ('r, 't) base_cf_config \<Rightarrow> ('r, 't) store_options" where
  "family_calls X n c =
     (case merge_operator_of c of
        None \<Rightarrow> []
      | Some mo \<Rightarrow> [MergeOperator (cmo_name mo)
          (case cmo_full_merge_fn mo of Some f \<Rightarrow> f | None \<Rightarrow> (\<lambda>_. default_full_merge))
          (case cmo_partial_merge_fn mo of Some f \<Rightarrow> f | None \<Rightarrow> (\<lambda>_. default_partial_merge))])
     @ (case comparator_of c of None \<Rightarrow> [] | Some choice \<Rightarrow> apply_to_opts X choice n [])
     @ (case compaction_filter_router_of c of
          None \<Rightarrow> [] | Some fr \<Rightarrow> [CompactionFilterOpt (frc_name fr) (frc_filter_fn_ptr fr)])"

definition config_calls ::
    "comparator_crates \<Rightarrow> (string \<times> ('r, 't) base_cf_config) list \<Rightarrow> string \<Rightarrow> ('r, 't) store_options" where
  "config_calls X configs n = (case map_of configs n of None \<Rightarrow> [] | Some c \<Rightarrow> family_calls X n c)"

lemma apply_to_opts_append: "apply_to_opts X c n xs = xs @ apply_to_opts X c n []"
  by (cases c) (simp_all add: Let_def)

lemma apply_cf_config_eq: "apply_cf_config X n c xs = xs @ family_calls X n c"
proof (cases "comparator_of c")
  case None
  then show ?thesis
    by (cases "merge_operator_of c"; cases "compaction_filter_router_of c")
       (simp_all add: apply_cf_config_def family_calls_def Let_def)
next
  case (Some choice)
  have "apply_to_opts X choice n xs = xs @ apply_to_opts X choice n []"
    and "apply_to_opts X choice n (xs @ [m]) = xs @ m # apply_to_opts X choice n []" for m
    using apply_to_opts_append [of X choice n xs] apply_to_opts_append [of X choice n "xs @ [m]"] by simp_all
  with Some show ?thesis
    by (cases "merge_operator_of c"; cases "compaction_filter_router_of c")
       (simp_all add: apply_cf_config_def family_calls_def Let_def)
qed

lemma apply_cf_configs_eq:
  "distinct (map fst configs) \<Longrightarrow>
     apply_cf_configs X configs m n = map_option (\<lambda>opts. opts @ config_calls X configs n) (m n)"
proof (induction configs arbitrary: m)
  case Nil
  show ?case by (cases "m n") (simp_all add: config_calls_def)
next
  case (Cons c configs)
  obtain k cfg where c: "c = (k, cfg)" by fastforce
  let ?m = "case m k of Some opts \<Rightarrow> m(k \<mapsto> apply_cf_config X k cfg opts) | None \<Rightarrow> m"
  have IH: "apply_cf_configs X (c # configs) m n
      = map_option (\<lambda>opts. opts @ config_calls X configs n) (?m n)"
    using Cons by (simp add: c)
  show ?case
  proof (cases "n = k")
    case True
    have none: "map_of configs k = None"
      using Cons.prems by (simp add: c map_of_eq_None_iff)
    have "config_calls X (c # configs) n = family_calls X n cfg"
      "config_calls X configs n = []"
      by (simp_all add: config_calls_def c True none)
    moreover have "?m n = map_option (apply_cf_config X n cfg) (m n)"
      by (simp add: True split: option.split)
    moreover have "apply_cf_config X n cfg = (\<lambda>opts. opts @ family_calls X n cfg)"
      by (rule ext) (rule apply_cf_config_eq)
    ultimately show ?thesis
      unfolding IH by (simp add: option.map_comp comp_def)
  next
    case False
    then have "?m n = m n" by (simp split: option.split)
    moreover have "config_calls X (c # configs) n = config_calls X configs n"
      using False by (simp add: config_calls_def c)
    ultimately show ?thesis unfolding IH by simp
  qed
qed

lemma build_descriptors_eq:
  "distinct names \<Longrightarrow>
     build_descriptors m names = map (\<lambda>n. (n, case m n of Some opts \<Rightarrow> opts | None \<Rightarrow> [])) names"
proof (induction names arbitrary: m)
  case (Cons a names)
  then have "build_descriptors (m(a := None)) names
      = map (\<lambda>n. (n, case m n of Some opts \<Rightarrow> opts | None \<Rightarrow> [])) names"
    by (auto intro!: map_cong)
  then show ?case by simp
qed simp

text \<open>The order of the entries of the map of configurations is immaterial.\<close>

lemma map_of_same_entries:
  "distinct (map fst xs) \<Longrightarrow> distinct (map fst ys) \<Longrightarrow> set xs = set ys \<Longrightarrow> map_of xs = map_of ys"
  by (simp add: map_of_inject_set)

lemma apply_cf_configs_order:
  assumes "distinct (map fst xs)" and "distinct (map fst ys)" and "set xs = set ys"
  shows "apply_cf_configs X xs m = apply_cf_configs X ys m"
  using map_of_same_entries [OF assms]
  by (simp add: fun_eq_iff apply_cf_configs_eq assms(1,2) config_calls_def)

lemma cf_options_map_order:
  assumes "distinct (map fst xs)" and "distinct (map fst ys)" and "set xs = set ys"
  shows "cf_options_map xs p cfs = cf_options_map ys p cfs"
proof -
  have "effective_profile xs p n = effective_profile ys p n" for n
    unfolding effective_profile_def map_of_same_entries [OF assms] by (rule refl)
  then show ?thesis by (simp add: cf_options_map_eq cong: if_cong)
qed

subsection \<open>The parallelism in effect\<close>

lemma keeps_locks_call: "opt_key x = None \<Longrightarrow> keeps_locks E (call x)"
  by (auto simp: keeps_locks_def)

lemma keeps_locks_recovery: "keeps_locks E (with_recovery mode)"
  by (cases mode) (auto simp: with_recovery_def keeps_locks_def)

lemma keeps_locks_statistics: "keeps_locks E (with_statistics st)"
  by (cases st) (auto simp: with_statistics_def only_if_def keeps_locks_def)

lemma keeps_locks_with_profile: "keeps_locks E (with_db_profile cpus p path)"
proof (cases p)
  case None
  then show ?thesis by (simp add: with_db_profile_def [abs_def])
next
  case (Some q)
  then show ?thesis by (simp add: with_db_profile_def [abs_def] tune_db_keeps_locks)
qed

text \<open>The parallelism that a profile asks for.\<close>

fun profile_parallelism :: "usize \<Rightarrow> tuning_profile \<Rightarrow> i32" where
  "profile_parallelism cpus (MemorySaver _ _ _ _ _ _) = i32_max (i32_div (ucast (max cpus 1)) 2) 1"
| "profile_parallelism cpus (RealTime _ _ _ threads _ _ _) = i32_max threads 1"
| "profile_parallelism cpus _ = i32_max (ucast (max cpus 1)) 2"

lemma last_parallelism_memory:
  "last_call ''db_increase_parallelism'' (inner (tune_memory mb c w t))
     = last_call ''db_increase_parallelism'' (inner t)"
  by (simp add: tune_memory_def Let_def only_if_def tunable_method_defs last_call_def)

lemma last_parallelism_cap:
  "last_call ''db_increase_parallelism'' (inner (cap_io self t))
     = last_call ''db_increase_parallelism'' (inner t)"
  "locked (cap_io self t) = locked t"
  by (simp_all add: cap_io_eq tune_opt_def)

lemma last_parallelism_profile:
  assumes "''db_increase_parallelism'' \<notin> locked t"
  shows "last_call ''db_increase_parallelism'' (inner (tune_db_opts cpus p path t))
    = Some (Macro (IncreaseParallelism (profile_parallelism cpus p)))"
  using assms
  by (cases p)
     (simp_all add: tune_db_opts_def Let_def only_if_def last_call_tune last_parallelism_memory last_parallelism_cap)

section \<open>Properties\<close>

text \<open>
  C10: The options that a store is opened with. When no family is listed twice, the database is opened
  with one descriptor per listed family, in the order of the list. The options of a family are those of
  its profile, or else of the profile of the database, as the custom callback left them, followed by its
  merge operator, comparator and compaction filter; the result is the store over the opened database.
\<close>

theorem open_assembles_options:
  assumes "distinct (map fst (cs_column_family_configs cfg))" and "distinct (cs_column_families_to_open cfg)"
    and "run_custom (cs_custom_options_db_and_cf cfg) (open_db_options cpus cfg)
      (\<lambda>n. if n \<in> set (cs_column_families_to_open cfg)
           then Some (tune_entry (effective_profile (cs_column_family_configs cfg) (cs_db_tuning_profile cfg) n) n)
           else None) = (d, m)"
  shows "cf_store_open cpus X E cfg w
    = (case open_plain E (inner d) (cs_path cfg)
         (map (\<lambda>n. (n, case m n of
            None \<Rightarrow> []
          | Some t \<Rightarrow> inner t @ config_calls X (cs_column_family_configs cfg) n))
          (cs_column_families_to_open cfg)) w of
         (Inl e, w1) \<Rightarrow> (Inl (RocksDb e), w1)
       | (Inr db, w1) \<Rightarrow>
           (Inr \<lparr>st_db = db, st_cf_names = set (cs_column_families_to_open cfg), st_path = cs_path cfg\<rparr>, w1))"
proof -
  have "(case apply_cf_configs X (cs_column_family_configs cfg) (unwrap_tunables m) n of
           Some opts \<Rightarrow> opts | None \<Rightarrow> [])
      = (case m n of None \<Rightarrow> [] | Some t \<Rightarrow> inner t @ config_calls X (cs_column_family_configs cfg) n)" for n
    by (simp add: apply_cf_configs_eq [OF assms(1)] unwrap_tunables_def into_inner_def split: option.splits)
  then show ?thesis
    using assms(3)
    by (simp add: cf_store_open_def Let_def cf_options_map_eq build_descriptors_eq [OF assms(2)] into_inner_def)
qed

text \<open>A RocksDB that records what it was called with.\<close>

definition recording_api :: "((string \<times> string list) list, nat, unit, unit, unit) open_api" where
  "recording_api = \<lparr>
     open_plain = (\<lambda>opts path ds w. (Inr (length w), w @ [(path, map fst ds)])),
     open_pessimistic = (\<lambda>opts x path ds w. (Inr (length w), w @ [(path, map fst ds)])),
     open_optimistic = (\<lambda>opts path ds w. (Inr (length w), w @ [(path, map fst ds)])),
     destroy_db = (\<lambda>opts path w. (Inr (), w))\<rparr>"

definition bytewise_crates :: comparator_crates where
  "bytewise_crates = \<lparr>nat_lex_byte_cmp = (\<lambda>a b. OrdEqual), nat_lex_byte_cmp_ignore = (\<lambda>a b. OrdEqual),
     natord_compare = (\<lambda>a b. OrdEqual), natord_compare_ignore_case = (\<lambda>a b. OrdEqual)\<rparr>"

definition sample_cf_config :: "(unit, unit) cf_store_config" where
  "sample_cf_config = cf_store_config_default\<lparr>cs_path := ''db'',
     cs_column_families_to_open := [''default'', ''users''], cs_parallelism := Some 3,
     cs_db_tuning_profile := Some nan_profile\<rparr>"

theorem open_assembles_options_witness:
  "cf_store_open 4 bytewise_crates recording_api sample_cf_config []
    = (Inr \<lparr>st_db = 0, st_cf_names = {''default'', ''users''}, st_path = ''db''\<rparr>,
       [(''db'', [''default'', ''users''])])"
proof -
  have 1: "distinct (map fst (cs_column_family_configs sample_cf_config))"
    by (simp add: sample_cf_config_def cf_store_config_default_def)
  have 2: "distinct (cs_column_families_to_open sample_cf_config)"
    by (simp add: sample_cf_config_def)
  obtain d m where "run_custom (cs_custom_options_db_and_cf sample_cf_config) (open_db_options 4 sample_cf_config)
      (\<lambda>n. if n \<in> set (cs_column_families_to_open sample_cf_config)
           then Some (tune_entry (effective_profile (cs_column_family_configs sample_cf_config)
             (cs_db_tuning_profile sample_cf_config) n) n)
           else None) = (d, m)" by fastforce
  from open_assembles_options [OF 1 2 this, of bytewise_crates recording_api "[]"] show ?thesis
    by (simp add: recording_api_def sample_cf_config_def)
qed

text \<open>
  The order in which the map of configurations iterates does not matter. Two configurations with the
  same entries for the families in different order open the same database with the same options, in the
  plain store and in both transactional stores.
\<close>

theorem open_order_irrelevant:
  assumes "distinct (map fst xs)" and "distinct (map fst ys)" and "set xs = set ys"
  shows "cf_store_open cpus X E (cfg\<lparr>cs_column_family_configs := xs\<rparr>) w
      = cf_store_open cpus X E (cfg\<lparr>cs_column_family_configs := ys\<rparr>) w
    \<and> open_db_internal cpus X E (tcfg\<lparr>tc_column_family_configs := xs\<rparr>) w
      = open_db_internal cpus X E (tcfg\<lparr>tc_column_family_configs := ys\<rparr>) w"
proof (rule conjI)
  note eqs = cf_options_map_order [OF assms] apply_cf_configs_order [OF assms]
  show "cf_store_open cpus X E (cfg\<lparr>cs_column_family_configs := xs\<rparr>) w
      = cf_store_open cpus X E (cfg\<lparr>cs_column_family_configs := ys\<rparr>) w"
    by (simp add: cf_store_open_def open_db_options_def hard_settings_def Let_def eqs
        split: prod.split sum.split)
  show "open_db_internal cpus X E (tcfg\<lparr>tc_column_family_configs := xs\<rparr>) w
      = open_db_internal cpus X E (tcfg\<lparr>tc_column_family_configs := ys\<rparr>) w"
    by (cases "tc_engine tcfg") (simp_all add: open_db_internal_def Let_def eqs)
qed

definition empty_base :: "(unit, unit) base_cf_config" where
  "empty_base = \<lparr>tuning_profile_of = None, merge_operator_of = None, comparator_of = None,
     compaction_filter_router_of = None\<rparr>"

definition natural_base :: "(unit, unit) base_cf_config" where
  "natural_base = empty_base\<lparr>comparator_of := Some (Natural True)\<rparr>"

theorem open_order_irrelevant_witness:
  "cf_store_open 4 bytewise_crates recording_api
     (sample_cf_config\<lparr>cs_column_family_configs := [(''default'', empty_base), (''users'', natural_base)]\<rparr>) []
   = cf_store_open 4 bytewise_crates recording_api
     (sample_cf_config\<lparr>cs_column_family_configs := [(''users'', natural_base), (''default'', empty_base)]\<rparr>) []"
  using open_order_irrelevant [of "[(''default'', empty_base), (''users'', natural_base)]"
      "[(''users'', natural_base), (''default'', empty_base)]" 4 bytewise_crates recording_api
      sample_cf_config "[]" undefined, THEN conjunct1]
  by (simp add: insert_commute)

text \<open>
  The explicit parallelism. Where the configuration gives a number of threads, the options of a plain
  store have it in effect whatever the profile says; those of a transactional store with a profile have
  the number of the profile in effect, so the explicit setting is lost.
\<close>

theorem explicit_parallelism:
  assumes "cs_parallelism cfg = Some p"
  shows "last_call ''db_increase_parallelism'' (inner (open_db_options cpus cfg))
      = Some (Macro (IncreaseParallelism p))
    \<and> last_call ''db_increase_parallelism''
        (build_db_wide_options cpus path create (Some p) recovery stats (Some profile))
      = Some (Macro (IncreaseParallelism (profile_parallelism cpus profile)))"
proof (rule conjI)
  let ?rest = "\<lambda>t. with_db_profile cpus (cs_db_tuning_profile cfg) (cs_path cfg)
    (with_statistics (cs_enable_statistics cfg) (with_recovery (cs_recovery_mode cfg) t))"
  let ?t = "set_opt (IncreaseParallelism p) (creating (cs_create_if_missing cfg) (tunable_new []))"
  have "keeps_locks {} ?rest"
    by (rule keeps_locks_comp [OF keeps_locks_comp [OF keeps_locks_recovery keeps_locks_statistics]
          keeps_locks_with_profile])
  moreover have "''db_increase_parallelism'' \<in> locked ?t" by simp
  ultimately have "calls_of ''db_increase_parallelism'' (inner (?rest ?t))
      = calls_of ''db_increase_parallelism'' (inner ?t)"
    unfolding keeps_locks_def by blast
  from last_call_cong [OF this]
  show "last_call ''db_increase_parallelism'' (inner (open_db_options cpus cfg))
      = Some (Macro (IncreaseParallelism p))"
    by (simp add: open_db_options_def hard_settings_def set_parallelism_def assms set_opt_def)
  have unlocked: "locked (with_statistics stats (with_recovery recovery t)) = locked t" for t
    by (simp add: with_statistics_def with_recovery_def only_if_def split: option.splits)
  show "last_call ''db_increase_parallelism''
        (build_db_wide_options cpus path create (Some p) recovery stats (Some profile))
      = Some (Macro (IncreaseParallelism (profile_parallelism cpus profile)))"
    by (cases create)
       (simp_all add: build_db_wide_options_def into_inner_def with_db_profile_def creating_def
         last_parallelism_profile unlocked)
qed

theorem explicit_parallelism_witness:
  "last_call ''db_increase_parallelism'' (inner (open_db_options 16 sample_cf_config))
     = Some (Macro (IncreaseParallelism 3))
   \<and> last_call ''db_increase_parallelism''
       (build_db_wide_options 16 ''db'' (Some True) (Some 3) None None (Some nan_profile)
         :: (unit, unit) store_options)
     = Some (Macro (IncreaseParallelism 16))"
proof -
  have "cs_parallelism sample_cf_config = Some 3" by (simp add: sample_cf_config_def)
  moreover have "profile_parallelism 16 nan_profile = 16" by code_simp
  ultimately show ?thesis
    using explicit_parallelism [of sample_cf_config 3 16 "''db''" "Some True" None None nan_profile] by simp
qed

text \<open>
  C23: The options that a transactional store is opened with. The options of the database are those of the
  settings and the profile, whatever the custom callback: it is called once for each family, on the options
  of that family alone. One descriptor is made for each listed family, in the order of the list.
\<close>

theorem open_transactional_assembles:
  assumes "distinct (map fst (tc_column_family_configs cfg))" and "distinct (tc_column_families_to_open cfg)"
  shows "open_db_internal cpus X E cfg w
    = (let db_opts = build_db_wide_options cpus (tc_path cfg) (Some (tc_create_if_missing cfg))
             (tc_parallelism cfg) (tc_recovery_mode cfg) (tc_enable_statistics cfg) (tc_db_tuning_profile cfg);
           custom = (case tc_custom_options_db_and_cf cfg of None \<Rightarrow> (\<lambda>_. id) | Some f \<Rightarrow> f);
           profile = effective_profile (tc_column_family_configs cfg) (tc_db_tuning_profile cfg);
           descriptors = map (\<lambda>n. (n, inner (custom n (tune_entry (profile n) n))
               @ config_calls X (tc_column_family_configs cfg) n)) (tc_column_families_to_open cfg)
       in case tc_engine cfg of
            Pessimistic topts \<Rightarrow>
              (case open_pessimistic E db_opts topts (tc_path cfg) descriptors w of
                 (r, w1) \<Rightarrow> (map_ok OpenedPessimistic (map_err RocksDb r), w1))
          | Optimistic \<Rightarrow>
              (case open_optimistic E db_opts (tc_path cfg) descriptors w of
                 (r, w1) \<Rightarrow> (map_ok OpenedOptimistic (map_err RocksDb r), w1)))"
proof -
  let ?cfs = "tc_column_families_to_open cfg" and ?configs = "tc_column_family_configs cfg"
  let ?custom = "case tc_custom_options_db_and_cf cfg of None \<Rightarrow> (\<lambda>_. id) | Some f \<Rightarrow> f"
  let ?tuned = "\<lambda>n. tune_entry (effective_profile ?configs (tc_db_tuning_profile cfg) n) n"
  let ?m = "case tc_custom_options_db_and_cf cfg of
      None \<Rightarrow> cf_options_map ?configs (tc_db_tuning_profile cfg) ?cfs
    | Some f \<Rightarrow> (\<lambda>n. map_option (f n) (cf_options_map ?configs (tc_db_tuning_profile cfg) ?cfs n))"
  have m: "?m n = Some (?custom n (?tuned n))" if "n \<in> set ?cfs" for n
    using that by (simp add: cf_options_map_eq split: option.split)
  have "(case apply_cf_configs X ?configs (unwrap_tunables ?m) n of Some opts \<Rightarrow> opts | None \<Rightarrow> [])
      = inner (?custom n (?tuned n)) @ config_calls X ?configs n" if "n \<in> set ?cfs" for n
    by (simp only: apply_cf_configs_eq [OF assms(1)] unwrap_tunables_def m [OF that] option.map option.case
        into_inner_def)
  then have ds: "build_descriptors (apply_cf_configs X ?configs (unwrap_tunables ?m)) ?cfs
      = map (\<lambda>n. (n, inner (?custom n (?tuned n)) @ config_calls X ?configs n)) ?cfs"
    by (simp only: build_descriptors_eq [OF assms(2)] cong: map_cong)
  show ?thesis unfolding open_db_internal_def Let_def ds by (rule refl)
qed

definition sample_txn_config :: "(unit, unit, unit) transactional_store_config" where
  "sample_txn_config = \<lparr>tc_path = ''db'', tc_create_if_missing = True, tc_db_tuning_profile = Some nan_profile,
     tc_column_family_configs = [(''users'', natural_base)],
     tc_column_families_to_open = [''default'', ''users''],
     tc_custom_options_db_and_cf = Some (\<lambda>n t. call (Macro (MaxOpenFiles 7)) t),
     tc_recovery_mode = None, tc_parallelism = Some 3, tc_enable_statistics = None, tc_engine = Optimistic\<rparr>"

theorem open_transactional_assembles_witness:
  "fst (open_db_internal 4 bytewise_crates recording_api sample_txn_config []) = Inr (OpenedOptimistic 0)"
proof -
  have 1: "distinct (map fst (tc_column_family_configs sample_txn_config))"
    and 2: "distinct (tc_column_families_to_open sample_txn_config)"
    by (simp_all add: sample_txn_config_def)
  have 3: "tc_engine sample_txn_config = Optimistic" by (simp add: sample_txn_config_def)
  show ?thesis
    using open_transactional_assembles [OF 1 2, of 4 bytewise_crates recording_api "[]"]
    by (simp add: Let_def 3 recording_api_def)
qed

text \<open>
  The engine and the store must agree. A configuration with the optimistic engine never opens as a
  pessimistic store, although the database has been opened by then, with all that this does to the world;
  an optimistic store fails to open only with an error of RocksDB, and else has the families of its list.
\<close>

theorem engine_must_match:
  assumes "tc_engine cfg = Optimistic"
  shows "(\<exists>e. fst (cf_txn_store_open cpus X E cfg w) = Inl e)
    \<and> (\<forall>db w1. open_db_internal cpus X E cfg w = (Inr (OpenedOptimistic db), w1) \<longrightarrow>
         cf_txn_store_open cpus X E cfg w
           = (Inl (InvalidConfiguration
               ''Configured for Optimistic engine, but tried to open as Pessimistic''), w1))
    \<and> (case fst (cf_optimistic_store_open cpus X E ocfg w) of
         Inl err \<Rightarrow> \<exists>e. err = RocksDb e
       | Inr st \<Rightarrow> st_path st = oc_path ocfg \<and> st_cf_names st = set (oc_column_families_to_open ocfg))"
proof (intro conjI allI impI)
  have engine: "tc_engine (optimistic_config_from ocfg) = Optimistic"
    by (simp add: optimistic_config_from_def)
  have shape: "(\<exists>e. fst (open_db_internal cpus X E c w) = Inl (RocksDb e))
      \<or> (\<exists>db. fst (open_db_internal cpus X E c w) = Inr (OpenedOptimistic db))"
    if "tc_engine c = Optimistic" for c and E :: "('w, 'd, 'r, 't, 'o) open_api" and w :: 'w
  proof -
    have "\<exists>r. fst (open_db_internal cpus X E c w) = map_ok OpenedOptimistic (map_err RocksDb r)"
      using that by (auto simp: open_db_internal_def Let_def split: prod.split)
    then obtain r where "fst (open_db_internal cpus X E c w) = map_ok OpenedOptimistic (map_err RocksDb r)" ..
    then show ?thesis by (cases r) simp_all
  qed
  show "\<exists>e. fst (cf_txn_store_open cpus X E cfg w) = Inl e"
    using shape [OF assms, of E w]
    by (auto simp: cf_txn_store_open_def split: prod.splits sum.splits opened.splits)
  show "case fst (cf_optimistic_store_open cpus X E ocfg w) of
         Inl err \<Rightarrow> \<exists>e. err = RocksDb e
       | Inr st \<Rightarrow> st_path st = oc_path ocfg \<and> st_cf_names st = set (oc_column_families_to_open ocfg)"
    using shape [OF engine, of E w]
    by (auto simp: cf_optimistic_store_open_def split: prod.splits sum.splits opened.splits)
qed (simp add: cf_txn_store_open_def)

theorem engine_must_match_witness:
  "fst (cf_txn_store_open 4 bytewise_crates recording_api sample_txn_config [])
     = Inl (InvalidConfiguration ''Configured for Optimistic engine, but tried to open as Pessimistic'')"
proof -
  have engine: "tc_engine sample_txn_config = Optimistic" by (simp add: sample_txn_config_def)
  obtain w1 where "open_db_internal 4 bytewise_crates recording_api sample_txn_config []
      = (Inr (OpenedOptimistic 0), w1)"
    by (simp add: open_db_internal_def Let_def engine recording_api_def)
  then show ?thesis
    using engine_must_match [OF engine, of 4 bytewise_crates recording_api "[]"] by simp
qed

end
