(* ===== verification/Migration.thy ===== *)
theory Migration
  imports Open_Store CF_Store
begin

text \<open>
  \<open>src/utils/mod.rs\<close>: copying one database into another, with an optional validation, backups, and the
  questions about the limit of open files.

  Both databases live in one world \<open>'w\<close>; \<open>R d\<close> is the interface of the opened database \<open>d\<close> on it. The
  listing of the families of a database, the checkpoints and the file system are parameters.
\<close>

section \<open>Open files\<close>

definition RLIM_INFINITY :: u64 where
  "RLIM_INFINITY = - 1"

text \<open>\<open>nofile\<close> is the answer of \<open>getrlimit(Resource::NOFILE)\<close>, the soft and the hard limit.\<close>

definition max_open_files_simple :: "('e, u64 \<times> u64) result \<Rightarrow> u64 option" where
  "max_open_files_simple nofile = (case nofile of Inl _ \<Rightarrow> None | Inr (actual, _) \<Rightarrow> Some actual)"

definition fifo_compaction_allowed :: "('e, u64 \<times> u64) result \<Rightarrow> bool" where
  "fifo_compaction_allowed nofile = (case nofile of Inl _ \<Rightarrow> False | Inr (soft, _) \<Rightarrow> soft = RLIM_INFINITY)"

section \<open>Migration\<close>

text \<open>The rows of a family, from the first on.\<close>

definition raw_kvs :: "('w, 'h) rocks_api \<Rightarrow> 'w \<Rightarrow> string \<Rightarrow> kv_item list store_result" where
  "raw_kvs S w cf_name =
     (if cf_name = DEFAULT_COLUMN_FAMILY_NAME then Inr (api_iterator S w DefaultCf IterStart)
      else and_then (get_cf_handle S w cf_name) (\<lambda>handle. Inr (api_iterator S w (Cf handle) IterStart)))"

fun copy_rows :: "('w, 'h) rocks_api \<Rightarrow> string \<Rightarrow> kv_item list \<Rightarrow> 'w \<Rightarrow> unit store_result \<times> 'w" where
  "copy_rows D cf_name [] w = (Inr (), w)"
| "copy_rows D cf_name (Inr (key_bytes, value_bytes) # rows) w =
     (case put_raw D w cf_name (KSlice key_bytes) value_bytes of
        (Inl e, w1) \<Rightarrow> (Inl e, w1)
      | (Inr _, w1) \<Rightarrow> copy_rows D cf_name rows w1)"
| "copy_rows D cf_name (Inl e # rows) w = (Inl (RocksDb e), w)"

text \<open>\<open>dst_cfs\<close> is \<open>dst_config.column_families_to_open\<close>.\<close>

fun copy_cfs ::
    "('w, 'h) rocks_api \<Rightarrow> ('w, 'h) rocks_api \<Rightarrow> string list \<Rightarrow> string list \<Rightarrow> 'w \<Rightarrow> unit store_result \<times> 'w" where
  "copy_cfs S D dst_cfs [] w = (Inr (), w)"
| "copy_cfs S D dst_cfs (cf_name # names) w =
     (if cf_name \<notin> set dst_cfs then copy_cfs S D dst_cfs names w
      else
        case raw_kvs S w cf_name of
          Inl e \<Rightarrow> (Inl e, w)
        | Inr rows \<Rightarrow>
            (case copy_rows D cf_name rows w of
               (Inl e, w1) \<Rightarrow> (Inl e, w1)
             | (Inr _, w1) \<Rightarrow> copy_cfs S D dst_cfs names w1))"

fun validate_rows :: "('w, 'h) rocks_api \<Rightarrow> string \<Rightarrow> kv_item list \<Rightarrow> 'w \<Rightarrow> unit store_result" where
  "validate_rows D cf_name [] w = Inr ()"
| "validate_rows D cf_name (Inr (key_bytes, src_value_bytes) # rows) w =
     and_then (get_raw D w cf_name (KSlice key_bytes)) (\<lambda>found.
       case found of
         Some dst_value_bytes \<Rightarrow>
           if src_value_bytes \<noteq> dst_value_bytes then
             Inl (Other (''Data inconsistency for key '' @ debug_bytes key_bytes @ '' in CF ''
               @ [CHR 0x27] @ cf_name @ [CHR 0x27]))
           else validate_rows D cf_name rows w
       | None \<Rightarrow>
           Inl (Other (''Migrated key '' @ debug_bytes key_bytes @ '' missing in CF ''
             @ [CHR 0x27] @ cf_name @ [CHR 0x27])))"
| "validate_rows D cf_name (Inl e # rows) w = Inl (RocksDb e)"

fun validate_cfs ::
    "('w, 'h) rocks_api \<Rightarrow> ('w, 'h) rocks_api \<Rightarrow> string list \<Rightarrow> string list \<Rightarrow> 'w \<Rightarrow> unit store_result" where
  "validate_cfs S D dst_cfs [] w = Inr ()"
| "validate_cfs S D dst_cfs (cf_name # names) w =
     (if cf_name \<notin> set dst_cfs then validate_cfs S D dst_cfs names w
      else
        and_then (raw_kvs S w cf_name) (\<lambda>rows.
        and_then (validate_rows D cf_name rows w) (\<lambda>_.
          validate_cfs S D dst_cfs names w)))"

definition list_cf_options :: "('r, 't) cf_store_config \<Rightarrow> ('r, 't) store_options" where
  "list_cf_options src_config =
     (case cs_parallelism src_config of None \<Rightarrow> [] | Some p \<Rightarrow> [Macro (IncreaseParallelism p)])"

definition migrate_db ::
    "usize \<Rightarrow> comparator_crates \<Rightarrow> ('w, 'd, 'r, 't, 'o) open_api \<Rightarrow> ('d \<Rightarrow> ('w, 'h) rocks_api)
     \<Rightarrow> (('r, 't) store_options \<Rightarrow> string \<Rightarrow> 'w \<Rightarrow> (rocks_error, string list) result)
     \<Rightarrow> ('r, 't) cf_store_config \<Rightarrow> ('r, 't) cf_store_config \<Rightarrow> bool \<Rightarrow> 'w \<Rightarrow> unit store_result \<times> 'w" where
  "migrate_db cpus X E R list_cf src_config dst_config validate w =
     (case cf_store_open cpus X E src_config w of
        (Inl e, w1) \<Rightarrow> (Inl e, w1)
      | (Inr src_store, w1) \<Rightarrow>
     (case cf_store_open cpus X E dst_config w1 of
        (Inl e, w2) \<Rightarrow> (Inl e, w2)
      | (Inr dst_store, w2) \<Rightarrow>
     (case list_cf (list_cf_options src_config) (cs_path src_config) w2 of
        Inl e \<Rightarrow> (Inl (RocksDb e), w2)
      | Inr src_cf_names \<Rightarrow>
          (let S = R (st_db src_store); D = R (st_db dst_store); dst_cfs = cs_column_families_to_open dst_config
           in case copy_cfs S D dst_cfs src_cf_names w2 of
                (Inl e, w3) \<Rightarrow> (Inl e, w3)
              | (Inr _, w3) \<Rightarrow>
                  (if validate then validate_cfs S D dst_cfs src_cf_names w3 else Inr (), w3)))))"

section \<open>Backup\<close>

record ('w, 'd) backup_env =
  checkpoint_new :: "'d \<Rightarrow> 'w \<Rightarrow> (rocks_error, unit) result"
  create_checkpoint :: "'d \<Rightarrow> bytes \<Rightarrow> 'w \<Rightarrow> (rocks_error, unit) result \<times> 'w"
  path_exists :: "bytes \<Rightarrow> 'w \<Rightarrow> bool"
  path_is_dir :: "bytes \<Rightarrow> 'w \<Rightarrow> bool"
  create_dir_all :: "bytes \<Rightarrow> 'w \<Rightarrow> (string, unit) result \<times> 'w"
  path_display :: "bytes \<Rightarrow> string"

definition backup_db ::
    "usize \<Rightarrow> comparator_crates \<Rightarrow> ('w, 'd, 'r, 't, 'o) open_api \<Rightarrow> ('w, 'd) backup_env \<Rightarrow> bytes
     \<Rightarrow> ('r, 't) cf_store_config \<Rightarrow> 'w \<Rightarrow> unit store_result \<times> 'w" where
  "backup_db cpus X E B backup_path cfg w =
     (case cf_store_open cpus X E cfg w of
        (Inl e, w1) \<Rightarrow> (Inl e, w1)
      | (Inr store, w1) \<Rightarrow>
     (case checkpoint_new B (st_db store) w1 of
        Inl e \<Rightarrow> (Inl (RocksDb e), w1)
      | Inr _ \<Rightarrow>
          (let create = (\<lambda>w. case create_checkpoint B (st_db store) backup_path w of
                 (r, w3) \<Rightarrow> (map_err RocksDb r, w3))
           in if \<not> path_exists B backup_path w1 then
                case create_dir_all B backup_path w1 of
                  (Inl e, w2) \<Rightarrow> (Inl (Io e), w2)
                | (Inr _, w2) \<Rightarrow> create w2
              else if \<not> path_is_dir B backup_path w1 then
                (Inl (InvalidConfiguration (''Backup path '' @ [CHR 0x27] @ path_display B backup_path
                   @ [CHR 0x27] @ '' exists but is not a directory.'')), w1)
              else create w1)))"

section \<open>Two databases\<close>

text \<open>
  A scan from the start shows rows that are there; if it ends without an error it has shown each row
  once, in whatever order the comparator of the family has. A write to the destination does not change
  the source, which is another database.
\<close>

definition scan_contract :: "('w, 'h) rocks_api \<Rightarrow> ('w, 'h) rocks_meaning \<Rightarrow> bool" where
  "scan_contract A M \<longleftrightarrow>
     (\<forall>w t k v. Inr (k, v) \<in> set (api_iterator A w t IterStart) \<longrightarrow> m_view M w (target_name M t) k = Some v)
   \<and> (\<forall>w t rows. api_iterator A w t IterStart = map Inr rows \<longrightarrow>
        distinct (map fst rows) \<and> map_of rows = m_view M w (target_name M t))"

definition leaves_alone :: "('w, 'h) rocks_api \<Rightarrow> ('w, 'h) rocks_meaning \<Rightarrow> bool" where
  "leaves_alone D Ms \<longleftrightarrow> (\<forall>w t k v. m_view Ms (snd (api_put D w t k v)) = m_view Ms w)"

definition two_databases ::
    "('w, 'h) rocks_api \<Rightarrow> ('w, 'h) rocks_meaning \<Rightarrow> ('w, 'h) rocks_api \<Rightarrow> ('w, 'h) rocks_meaning \<Rightarrow> bool" where
  "two_databases S Ms D Md \<longleftrightarrow>
     rocks_contract S Ms \<and> scan_contract S Ms \<and> rocks_contract D Md \<and> leaves_alone D Ms"

lemma two_databasesD:
  assumes "two_databases S Ms D Md"
  shows "rocks_contract S Ms" "scan_contract S Ms" "rocks_contract D Md" "leaves_alone D Ms"
  using assms by (simp_all add: two_databases_def)

section \<open>Lemmas\<close>

lemma put_raw_leaves: "leaves_alone D Ms \<Longrightarrow> m_view Ms (snd (put_raw D w cf k v)) = m_view Ms w"
  by (simp add: leaves_alone_def put_raw_def write_on_def split: sum.split prod.split)
     (metis snd_conv)

lemma copy_rows_leaves: "leaves_alone D Ms \<Longrightarrow> m_view Ms (snd (copy_rows D cf items w)) = m_view Ms w"
proof (induction D cf items w rule: copy_rows.induct)
  case (2 D cf k v rows w)
  then show ?case
    using put_raw_leaves [of D Ms w cf "KSlice k" v] by (auto split: prod.split sum.split)
qed simp_all

lemma copy_cfs_leaves: "leaves_alone D Ms \<Longrightarrow> m_view Ms (snd (copy_cfs S D dst names w)) = m_view Ms w"
proof (induction names arbitrary: w)
  case (Cons cf names)
  show ?case
  proof (cases "raw_kvs S w cf")
    case (Inr items)
    obtain r w1 where copy: "copy_rows D cf items w = (r, w1)" by fastforce
    then have "m_view Ms w1 = m_view Ms w"
      using copy_rows_leaves [OF Cons.prems, of cf items w] by simp
    with Cons show ?thesis by (cases r) (simp_all add: Inr copy)
  qed (use Cons in simp)
qed simp

text \<open>What a scan of the source shows.\<close>

lemma raw_kvs_rows:
  assumes "rocks_contract S Ms" and "scan_contract S Ms" and "raw_kvs S w cf = Inr items"
  shows "Inr (k, v) \<in> set items \<Longrightarrow> m_view Ms w cf k = Some v"
    and "items = map Inr rows \<Longrightarrow> distinct (map fst rows)"
    and "items = map Inr rows \<Longrightarrow> map_of rows = m_view Ms w cf"
proof -
  have "\<exists>t. target_name Ms t = cf \<and> items = api_iterator S w t IterStart"
  proof (cases "cf = DEFAULT_COLUMN_FAMILY_NAME")
    case True
    with assms(3) show ?thesis by (intro exI [of _ DefaultCf]) (simp add: raw_kvs_def)
  next
    case False
    with assms(3) obtain h where "api_cf_handle S w cf = Some h" and "items = api_iterator S w (Cf h) IterStart"
      by (auto simp: raw_kvs_def and_then_eq_Inr)
    with contract_handle [OF assms(1)] show ?thesis by (intro exI [of _ "Cf h"]) simp
  qed
  then obtain t where t: "target_name Ms t = cf" and items: "items = api_iterator S w t IterStart" by blast
  show "Inr (k, v) \<in> set items \<Longrightarrow> m_view Ms w cf k = Some v"
    using assms(2) unfolding scan_contract_def items t [symmetric] by blast
  show "items = map Inr rows \<Longrightarrow> distinct (map fst rows)"
    and "items = map Inr rows \<Longrightarrow> map_of rows = m_view Ms w cf"
    using assms(2) unfolding scan_contract_def items t [symmetric] by blast+
qed

subsection \<open>The view of the destination\<close>

lemma upd_overlay:
  assumes "k \<notin> fst ` set rows"
  shows "(upd w cf k (Some v))(cf := upd w cf k (Some v) cf ++ map_of rows)
    = w(cf := w cf ++ map_of ((k, v) # rows))"
  using assms by (simp add: upd_def map_add_upd_left dom_map_of_conv_image_fst)

lemma copy_rows_overlay:
  assumes "rocks_contract D Md" and "copy_rows D cf items w = (Inr u, w')"
  shows "\<exists>rows. items = map Inr rows \<and> (distinct (map fst rows) \<longrightarrow>
    m_view Md w' = (m_view Md w)(cf := m_view Md w cf ++ map_of rows))"
  using assms(2)
proof (induction items arbitrary: w)
  case (Cons i items)
  obtain k v where i: "i = Inr (k, v)" using Cons.prems by (cases i) auto
  obtain w1 where put: "put_raw D w cf (KSlice k) v = (Inr (), w1)"
    and rest: "copy_rows D cf items w1 = (Inr u, w')"
    using Cons.prems by (auto simp: i split: prod.splits sum.splits)
  from Cons.IH [OF rest] obtain rows where rows: "items = map Inr rows"
    and view: "distinct (map fst rows) \<longrightarrow> m_view Md w' = (m_view Md w1)(cf := m_view Md w1 cf ++ map_of rows)"
    by blast
  have w1: "m_view Md w1 = upd (m_view Md w) cf k (Some v)"
    using put_raw_view [OF assms(1), of w cf "KSlice k" v] by (simp add: put outcome_def)
  have "i # items = map Inr ((k, v) # rows)" by (simp add: i rows)
  moreover have "m_view Md w' = (m_view Md w)(cf := m_view Md w cf ++ map_of ((k, v) # rows))"
    if d: "distinct (map fst ((k, v) # rows))"
  proof -
    from d have "k \<notin> fst ` set rows" and "distinct (map fst rows)" by simp_all
    with view show ?thesis by (simp only: w1 upd_overlay simp_thms)
  qed
  ultimately show ?case by (intro exI [of _ "(k, v) # rows"]) blast
qed simp

text \<open>Whatever the outcome, a row of the destination is the old one or one of the source.\<close>

lemma copy_rows_old_or_new:
  assumes "rocks_contract D Md"
  shows "m_view Md (snd (copy_rows D cf items w)) c k = m_view Md w c k
    \<or> c = cf \<and> (\<exists>v. Inr (k, v) \<in> set items \<and> m_view Md (snd (copy_rows D cf items w)) c k = Some v)"
proof (induction items arbitrary: w)
  case (Cons i items)
  show ?case
  proof (cases i)
    case (Inr kv)
    obtain k' v' where i: "i = Inr (k', v')" using Inr by (cases kv) simp
    obtain r w1 where put: "put_raw D w cf (KSlice k') v' = (r, w1)" by fastforce
    have w1: "m_view Md w1 c k = m_view Md w c k \<or> c = cf \<and> k = k' \<and> m_view Md w1 c k = Some v'"
      using put_raw_view [OF assms, of w cf "KSlice k'" v']
      by (auto simp: put outcome_def upd_def split: sum.splits)
    show ?thesis
    proof (cases r)
      case (Inl e)
      with w1 show ?thesis by (auto simp: i put)
    next
      case (Inr u)
      then have eq: "copy_rows D cf (i # items) w = copy_rows D cf items w1" by (simp add: i put)
      from Cons.IH [of w1] w1 show ?thesis unfolding eq by (auto simp only: i list.set insert_iff simp_thms)
    qed
  qed simp
qed simp

lemma copy_cfs_old_or_new:
  assumes "two_databases S Ms D Md"
  shows "m_view Md (snd (copy_cfs S D dst names w)) c k = m_view Md w c k
    \<or> m_view Ms w c k \<noteq> None \<and> c \<in> set dst
      \<and> m_view Md (snd (copy_cfs S D dst names w)) c k = m_view Ms w c k"
proof (induction names arbitrary: w)
  case (Cons cf names)
  note T = two_databasesD [OF assms]
  show ?case
  proof (cases "cf \<in> set dst \<and> (\<exists>items. raw_kvs S w cf = Inr items)")
    case True
    then obtain items where raw: "raw_kvs S w cf = Inr items" and cf: "cf \<in> set dst" by blast
    obtain r w1 where copy: "copy_rows D cf items w = (r, w1)" by fastforce
    have src: "m_view Ms w1 = m_view Ms w" using copy_rows_leaves [OF T(4), of cf items w] by (simp add: copy)
    have w1: "m_view Md w1 c k = m_view Md w c k
        \<or> m_view Ms w c k \<noteq> None \<and> c \<in> set dst \<and> m_view Md w1 c k = m_view Ms w c k"
      using copy_rows_old_or_new [OF T(3), of cf items w c k] raw_kvs_rows(1) [OF T(1,2) raw, of k] cf
      by (auto simp: copy)
    show ?thesis
    proof (cases r)
      case (Inl e)
      with w1 show ?thesis by (simp add: cf raw copy)
    next
      case (Inr u)
      then have eq: "copy_cfs S D dst (cf # names) w = copy_cfs S D dst names w1"
        by (simp add: cf raw copy)
      show ?thesis using Cons.IH [of w1] w1 unfolding eq src by auto
    qed
  next
    case False
    with Cons.IH [of w] show ?thesis by (cases "raw_kvs S w cf") auto
  qed
qed simp

text \<open>The families that are copied.\<close>

definition overlay :: "string set \<Rightarrow> kv_view \<Rightarrow> kv_view \<Rightarrow> kv_view" where
  "overlay cfs old new = (\<lambda>cf. if cf \<in> cfs then old cf ++ new cf else old cf)"

lemma overlay_empty [simp]: "overlay {} old new = old"
  by (simp add: overlay_def)

lemma overlay_insert: "overlay cfs (old(cf := old cf ++ new cf)) new = overlay (insert cf cfs) old new"
  by (auto simp: overlay_def fun_eq_iff map_add_def split: option.splits)

lemma copy_cfs_overlay:
  assumes "two_databases S Ms D Md"
  shows "copy_cfs S D dst names w = (Inr u, w') \<Longrightarrow>
    m_view Md w' = overlay (set names \<inter> set dst) (m_view Md w) (m_view Ms w)"
proof (induction names arbitrary: w)
  case (Cons cf names)
  note T = two_databasesD [OF assms]
  show ?case
  proof (cases "cf \<in> set dst")
    case True
    obtain items w1 where raw: "raw_kvs S w cf = Inr items" and copy: "copy_rows D cf items w = (Inr (), w1)"
      and rest: "copy_cfs S D dst names w1 = (Inr u, w')"
      using Cons.prems True by (auto split: prod.splits sum.splits)
    have src: "m_view Ms w1 = m_view Ms w" using copy_rows_leaves [OF T(4), of cf items w] by (simp add: copy)
    obtain rows where rows: "items = map Inr rows"
      and view: "distinct (map fst rows) \<longrightarrow> m_view Md w1 = (m_view Md w)(cf := m_view Md w cf ++ map_of rows)"
      using copy_rows_overlay [OF T(3) copy] by blast
    have "m_view Md w1 = (m_view Md w)(cf := m_view Md w cf ++ m_view Ms w cf)"
      using view raw_kvs_rows(2,3) [OF T(1,2) raw rows] by simp
    with Cons.IH [OF rest] True show ?thesis
      by (simp only: src overlay_insert list.set Int_insert_left if_True)
  next
    case False
    with Cons show ?thesis by simp
  qed
qed simp

subsection \<open>Validation\<close>

lemma get_raw_error: "get_raw D w cf k \<noteq> Inl (Other m)"
  by (auto simp: get_raw_def target_of_def get_cf_handle_def and_then_def ok_or_def
      split: sum.splits option.splits if_splits)

lemma raw_kvs_error: "raw_kvs S w cf \<noteq> Inl (Other m)"
  by (auto simp: raw_kvs_def get_cf_handle_def and_then_def ok_or_def split: sum.splits option.splits)

lemma put_raw_error: "fst (put_raw D w cf k v) \<noteq> Inl (Other m)"
  by (auto simp: put_raw_def write_on_def target_of_def get_cf_handle_def and_then_def ok_or_def
      split: sum.splits option.splits prod.splits)

lemma copy_rows_error: "fst (copy_rows D cf items w) \<noteq> Inl (Other m)"
proof (induction D cf items w rule: copy_rows.induct)
  case (2 D cf k v rows w)
  then show ?case
    using put_raw_error [of D w cf "KSlice k" v m] by (auto split: prod.split sum.split)
qed simp_all

lemma copy_cfs_error: "copy_cfs S D dst names w \<noteq> (Inl (Other m), w')"
proof (induction names arbitrary: w)
  case (Cons cf names)
  show ?case
  proof (cases "raw_kvs S w cf")
    case (Inl e)
    with raw_kvs_error [of S w cf m] Cons show ?thesis by simp
  next
    case (Inr items)
    with copy_rows_error [of D cf items w m] Cons show ?thesis by (auto split: prod.split sum.split)
  qed
qed simp

lemma validate_rows_found:
  assumes "rocks_contract D Md" and "\<And>k v. Inr (k, v) \<in> set items \<Longrightarrow> m_view Md w cf k = Some v"
  shows "validate_rows D cf items w \<noteq> Inl (Other m)"
  using assms(2)
proof (induction items)
  case (Cons i items)
  show ?case
  proof (cases i)
    case (Inr kv)
    obtain k v where i: "i = Inr (k, v)" using Inr by (cases kv) simp
    show ?thesis
    proof (cases "get_raw D w cf (KSlice k)")
      case (Inr x)
      with Cons.prems [of k v] get_raw_view [OF assms(1) Inr] have "x = Some v" by (simp add: i)
      with Cons show ?thesis by (simp add: i Inr)
    qed (use get_raw_error [of D w cf "KSlice k" m] in \<open>simp add: i\<close>)
  qed simp
qed simp

lemma validate_cfs_found:
  assumes "two_databases S Ms D Md"
    and "\<And>cf k v. cf \<in> set names \<inter> set dst \<Longrightarrow> m_view Ms w cf k = Some v \<Longrightarrow> m_view Md w cf k = Some v"
  shows "validate_cfs S D dst names w \<noteq> Inl (Other m)"
  using assms(2)
proof (induction names)
  case (Cons cf names)
  note T = two_databasesD [OF assms(1)]
  show ?case
  proof (cases "cf \<in> set dst")
    case True
    show ?thesis
    proof (cases "raw_kvs S w cf")
      case (Inr items)
      have "validate_rows D cf items w \<noteq> Inl (Other m)"
        by (rule validate_rows_found [OF T(3)])
           (use raw_kvs_rows(1) [OF T(1,2) Inr] Cons.prems True in auto)
      moreover have "validate_cfs S D dst names w \<noteq> Inl (Other m)" using Cons by simp
      ultimately show ?thesis using True by (cases "validate_rows D cf items w") (simp_all add: Inr)
    qed (use raw_kvs_error [of S w cf m] True in simp)
  next
    case False
    with Cons show ?thesis by simp
  qed
qed simp

subsection \<open>Two databases side by side\<close>

text \<open>A database as one part of a larger world.\<close>

definition on_part ::
    "('w \<Rightarrow> 's) \<Rightarrow> ('s \<Rightarrow> 'w \<Rightarrow> 'w) \<Rightarrow> ('s, 'h) rocks_api \<Rightarrow> ('w, 'h) rocks_api" where
  "on_part g p A = \<lparr>
     api_cf_handle = (\<lambda>w. api_cf_handle A (g w)),
     api_get = (\<lambda>w. api_get A (g w)),
     api_multi_get = (\<lambda>w. api_multi_get A (g w)),
     api_put = (\<lambda>w t k v. case api_put A (g w) t k v of (r, s) \<Rightarrow> (r, p s w)),
     api_merge = (\<lambda>w t k v. case api_merge A (g w) t k v of (r, s) \<Rightarrow> (r, p s w)),
     api_delete = (\<lambda>w t k. case api_delete A (g w) t k of (r, s) \<Rightarrow> (r, p s w)),
     api_write = (\<lambda>w bops. case api_write A (g w) bops of (r, s) \<Rightarrow> (r, p s w)),
     api_iterator = (\<lambda>w. api_iterator A (g w)),
     api_prefix_iterator = (\<lambda>w. api_prefix_iterator A (g w))\<rparr>"

definition part_meaning :: "('w \<Rightarrow> 's) \<Rightarrow> ('s, 'h) rocks_meaning \<Rightarrow> ('w, 'h) rocks_meaning" where
  "part_meaning g M = \<lparr>m_name = m_name M, m_view = (\<lambda>w. m_view M (g w)), m_merge = m_merge M\<rparr>"

lemma part_target: "target_name (part_meaning g M) t = target_name M t"
  by (cases t) (simp_all add: part_meaning_def)

lemma part_apply_op: "apply_op (part_meaning g M) w x = apply_op M w x"
  by (cases x) (simp_all add: part_target, simp add: part_meaning_def)

lemma part_apply_ops: "apply_ops (part_meaning g M) w xs = apply_ops M w xs"
  by (simp add: apply_ops_def part_apply_op [abs_def])

lemma part_effect:
  assumes "\<And>s w. g (p s w) = s" and "effect_ok A M (g w) r v"
  shows "effect_ok (on_part g p A) (part_meaning g M) w (case r of (x, s) \<Rightarrow> (x, p s w)) v"
  using assms by (cases r; cases "fst r") (simp_all add: effect_ok_def on_part_def part_meaning_def)

lemma part_contract:
  assumes "\<And>s w. g (p s w) = s" and "rocks_contract A M"
  shows "rocks_contract (on_part g p A) (part_meaning g M)"
proof -
  have view: "m_view (part_meaning g M) w = m_view M (g w)" for w by (simp add: part_meaning_def)
  have "write_contract (on_part g p A) (part_meaning g M)"
    using assms(2) part_effect [of g p A M, OF assms(1)]
    unfolding write_contract_def rocks_contract_def part_apply_op part_apply_ops view
    by (simp add: on_part_def)
  moreover have "read_contract (on_part g p A) (part_meaning g M)"
    using assms(2) unfolding read_contract_def rocks_contract_def part_target view
    by (simp add: on_part_def part_meaning_def)
  ultimately show ?thesis by (simp add: rocks_contract_def)
qed

lemma scan_contract_mem: "scan_contract mem_api mem_meaning"
proof -
  have rows: "distinct (map fst (mem_rows s cf)) \<and> map_of (mem_rows s cf) = mem_view s cf" for s cf
    using is_rows_mem [of s cf] by (auto simp: is_rows_def strict_sorted_iff)
  then show ?thesis
    by (auto simp: scan_contract_def inj_map_eq_map inj_on_def) (metis map_of_eq_Some_iff)
qed

lemma part_scan: "scan_contract A M \<Longrightarrow> scan_contract (on_part g p A) (part_meaning g M)"
  unfolding scan_contract_def part_target by (simp add: on_part_def part_meaning_def)

definition left_db :: "(mem \<times> mem, string) rocks_api" where
  "left_db = on_part fst (\<lambda>s w. (s, snd w)) mem_api"

definition right_db :: "(mem \<times> mem, string) rocks_api" where
  "right_db = on_part snd (\<lambda>s w. (fst w, s)) mem_api"

definition left_meaning :: "(mem \<times> mem, string) rocks_meaning" where
  "left_meaning = part_meaning fst mem_meaning"

definition right_meaning :: "(mem \<times> mem, string) rocks_meaning" where
  "right_meaning = part_meaning snd mem_meaning"

lemma two_mem_databases: "two_databases left_db left_meaning right_db right_meaning"
  unfolding two_databases_def left_db_def right_db_def left_meaning_def right_meaning_def
  by (intro conjI part_contract part_scan scan_contract_mem rocks_contract_mem)
     (simp_all add: leaves_alone_def on_part_def part_meaning_def split: prod.split)

text \<open>Opening the path \<open>from\<close> gives the left database, any other path the right one.\<close>

definition side_api :: "(mem \<times> mem, bool, unit, unit, unit) open_api" where
  "side_api = \<lparr>
     open_plain = (\<lambda>opts path ds w. (Inr (path = ''from''), w)),
     open_pessimistic = (\<lambda>opts x path ds w. (Inr (path = ''from''), w)),
     open_optimistic = (\<lambda>opts path ds w. (Inr (path = ''from''), w)),
     destroy_db = (\<lambda>opts path w. (Inr (), w))\<rparr>"

definition sides :: "bool \<Rightarrow> (mem \<times> mem, string) rocks_api" where
  "sides left = (if left then left_db else right_db)"

definition from_config :: "(unit, unit) cf_store_config" where
  "from_config = sample_cf_config\<lparr>cs_path := ''from''\<rparr>"

definition to_config :: "(unit, unit) cf_store_config" where
  "to_config = sample_cf_config\<lparr>cs_path := ''to''\<rparr>"

lemma to_cfs: "cs_column_families_to_open to_config = [''default'', ''users'']"
  by (simp add: to_config_def sample_cf_config_def)

definition opened_store :: "bool \<Rightarrow> bool cf_store" where
  "opened_store left = \<lparr>st_db = left, st_cf_names = {''default'', ''users''},
     st_path = (if left then ''from'' else ''to'')\<rparr>"

lemma sides_open:
  "cf_store_open 4 bytewise_crates side_api from_config w = (Inr (opened_store True), w)"
  "cf_store_open 4 bytewise_crates side_api to_config w = (Inr (opened_store False), w)"
  by (simp_all add: cf_store_open_def Let_def side_api_def from_config_def to_config_def opened_store_def
      sample_cf_config_def split: prod.split)

lemma sides_two: "two_databases (sides (st_db (opened_store True))) left_meaning
    (sides (st_db (opened_store False))) right_meaning"
  by (simp add: opened_store_def sides_def two_mem_databases)

definition list_sides :: "(unit, unit) store_options \<Rightarrow> string \<Rightarrow> mem \<times> mem \<Rightarrow> (rocks_error, string list) result" where
  "list_sides opts path w = Inr [''users'']"

definition empty_db :: mem where
  "empty_db = (\<lambda>_. None)(DEFAULT_COLUMN_FAMILY_NAME := Some [], ''users'' := Some [])"

lemma side_calls:
  "api_cf_handle left_db w = api_cf_handle mem_api (fst w)"
  "api_iterator left_db w = api_iterator mem_api (fst w)"
  "api_cf_handle right_db w = api_cf_handle mem_api (snd w)"
  "api_get right_db w = api_get mem_api (snd w)"
  "api_put right_db w t k v = (case api_put mem_api (snd w) t k v of (r, s) \<Rightarrow> (r, (fst w, s)))"
  by (simp_all add: left_db_def right_db_def on_part_def)

definition sample_migration :: "unit store_result \<times> mem \<times> mem" where
  "sample_migration = migrate_db 4 bytewise_crates side_api sides list_sides from_config to_config True
     (sample_db, empty_db)"

lemma sample_migration_ok: "fst sample_migration = Inr ()"
  by (simp add: sample_migration_def migrate_db_def sides_open list_sides_def opened_store_def sides_def
      raw_kvs_def get_cf_handle_def side_calls mem_rows_def sample_rows_def put_raw_def get_raw_def
      write_on_def target_of_def mem_write1_def mem_view_def mem_entries_def empty_db_def to_cfs
      DEFAULT_COLUMN_FAMILY_NAME_def sample_db_def)

section \<open>Properties\<close>

text \<open>
  C6: What a migration does. When it succeeds, every family that the source has and the destination is
  configured to open has in the destination all rows of the source, over the rows that were there, and
  no other family has changed; the source is as it was. When it fails, it never does so because the
  validation found a difference.
\<close>

theorem migrate_copies:
  assumes "cf_store_open cpus X E src w = (Inr s, w1)" and "cf_store_open cpus X E dst w1 = (Inr d, w2)"
    and "two_databases (R (st_db s)) Ms (R (st_db d)) Md"
  shows "case migrate_db cpus X E R list_cf src dst validate w of
      (Inr _, w3) \<Rightarrow>
        (\<exists>names. list_cf (list_cf_options src) (cs_path src) w2 = Inr names
           \<and> m_view Md w3 = overlay (set names \<inter> set (cs_column_families_to_open dst)) (m_view Md w2) (m_view Ms w2))
        \<and> m_view Ms w3 = m_view Ms w2
    | (Inl e, w3) \<Rightarrow> (\<forall>m. e \<noteq> Other m)"
proof (cases "list_cf (list_cf_options src) (cs_path src) w2")
  case (Inl e)
  then show ?thesis by (simp add: migrate_db_def assms(1,2))
next
  case (Inr names)
  let ?copy = "copy_cfs (R (st_db s)) (R (st_db d)) (cs_column_families_to_open dst) names w2"
  obtain r w3 where copy: "?copy = (r, w3)" by fastforce
  note T = two_databasesD [OF assms(3)]
  have src: "m_view Ms w3 = m_view Ms w2" using copy_cfs_leaves [OF T(4)] copy by (metis snd_conv)
  show ?thesis
  proof (cases r)
    case (Inl e)
    then have "e \<noteq> Other m" for m using copy_cfs_error [of "R (st_db s)"] copy by metis
    then show ?thesis by (simp add: migrate_db_def assms(1,2) Inr copy Inl Let_def)
  next
    case ok: (Inr u)
    have view: "m_view Md w3
        = overlay (set names \<inter> set (cs_column_families_to_open dst)) (m_view Md w2) (m_view Ms w2)"
      by (rule copy_cfs_overlay [OF assms(3) copy [unfolded ok]])
    have "validate_cfs (R (st_db s)) (R (st_db d)) (cs_column_families_to_open dst) names w3 \<noteq> Inl (Other m)" for m
      by (rule validate_cfs_found [OF assms(3)]) (simp add: src view overlay_def)
    then show ?thesis
      by (auto simp: migrate_db_def assms(1,2) Inr copy ok Let_def src view split: sum.split)
  qed
qed

theorem migrate_copies_witness:
  "fst sample_migration = Inr () \<and> mem_view (snd (snd sample_migration)) ''users'' = mem_view sample_db ''users''"
proof -
  let ?w = "(sample_db, empty_db)"
  obtain r w3 where run: "sample_migration = (r, w3)" by (cases sample_migration)
  have r: "r = Inr ()" using sample_migration_ok by (simp add: run)
  have two: "case (Inr (), w3) of
      (Inr _, w3) \<Rightarrow>
        (\<exists>names. list_sides (list_cf_options from_config) (cs_path from_config) ?w = Inr names
           \<and> m_view right_meaning w3 = overlay (set names \<inter> set (cs_column_families_to_open to_config))
               (m_view right_meaning ?w) (m_view left_meaning ?w))
        \<and> m_view left_meaning w3 = m_view left_meaning ?w
    | (Inl e, w3) \<Rightarrow> (\<forall>m. e \<noteq> Other m)"
    using migrate_copies [OF sides_open(1) [of ?w] sides_open(2) [of ?w] sides_two, of list_sides True]
    unfolding sample_migration_def [symmetric] run r .
  then have "mem_view (snd w3) = overlay {''users''} (mem_view empty_db) (mem_view sample_db)"
    by (simp add: list_sides_def right_meaning_def left_meaning_def part_meaning_def to_cfs)
  then show ?thesis
    by (simp add: run r overlay_def empty_db_def mem_view_def mem_entries_def DEFAULT_COLUMN_FAMILY_NAME_def)
qed

text \<open>
  A migration invents nothing, whether it ends or is broken off in the middle. At every key of every
  family the destination has what it had before or what the source has there, the latter only in the
  families that it is configured to open; and the source is never changed.
\<close>

theorem migrate_invents_nothing:
  assumes "cf_store_open cpus X E src w = (Inr s, w1)" and "cf_store_open cpus X E dst w1 = (Inr d, w2)"
    and "two_databases (R (st_db s)) Ms (R (st_db d)) Md"
    and "migrate_db cpus X E R list_cf src dst validate w = (r, w3)"
  shows "m_view Ms w3 = m_view Ms w2
    \<and> (m_view Md w3 cf k = m_view Md w2 cf k
       \<or> m_view Md w3 cf k = m_view Ms w2 cf k \<and> m_view Ms w2 cf k \<noteq> None
         \<and> cf \<in> set (cs_column_families_to_open dst))"
proof (cases "list_cf (list_cf_options src) (cs_path src) w2")
  case (Inl e)
  with assms(4) show ?thesis by (auto simp: migrate_db_def assms(1,2))
next
  case (Inr names)
  let ?copy = "copy_cfs (R (st_db s)) (R (st_db d)) (cs_column_families_to_open dst) names w2"
  have "w3 = snd ?copy"
    using assms(4) by (auto simp: migrate_db_def assms(1,2) Inr Let_def split: prod.splits sum.splits)
  then show ?thesis
    using copy_cfs_leaves [OF two_databasesD(4) [OF assms(3)]] copy_cfs_old_or_new [OF assms(3)] by blast
qed

theorem migrate_invents_nothing_witness:
  "mem_view (snd (snd sample_migration)) ''default'' [1] \<in> {None, mem_view sample_db ''default'' [1]}
   \<and> mem_view (fst (snd sample_migration)) = mem_view sample_db"
proof -
  obtain r w3 where run: "sample_migration = (r, w3)" by (cases sample_migration)
  show ?thesis
    using migrate_invents_nothing [OF sides_open sides_two run [unfolded sample_migration_def],
        of "''default''" "[1]"]
    by (auto simp: run right_meaning_def left_meaning_def part_meaning_def empty_db_def mem_view_def
        mem_entries_def DEFAULT_COLUMN_FAMILY_NAME_def)
qed

text \<open>What RocksDB and the file system do with a directory that exists.\<close>

definition refuses_existing :: "('w, 'd) backup_env \<Rightarrow> bool" where
  "refuses_existing B \<longleftrightarrow>
     (\<forall>d path w. path_exists B path w \<longrightarrow> (\<exists>e. create_checkpoint B d path w = (Inl e, w)))
   \<and> (\<forall>path w u w1. create_dir_all B path w = (Inr u, w1) \<longrightarrow> path_exists B path w1)"

text \<open>
  A backup never succeeds. RocksDB refuses to create a checkpoint in a directory that exists; but the
  code makes sure that the directory exists before it asks for the checkpoint. So \<open>backup_db\<close> fails for
  every path: with RocksDB's refusal, if nothing has failed before.
\<close>

theorem backup_never_succeeds:
  assumes "refuses_existing B"
  shows "\<exists>e. fst (backup_db cpus X E B path cfg w) = Inl e"
proof (cases "cf_store_open cpus X E cfg w")
  case (Pair r w1)
  have refused: "\<exists>e. create_checkpoint B d path w' = (Inl e, w')" if "path_exists B path w'" for d w'
    using assms that unfolding refuses_existing_def by blast
  have created: "path_exists B path w'" if "create_dir_all B path w1 = (Inr u, w')" for u w'
    using assms that unfolding refuses_existing_def by blast
  show ?thesis
  proof (cases "r")
    case (Inr store)
    show ?thesis
    proof (cases "checkpoint_new B (st_db store) w1")
      case new: (Inr u)
      show ?thesis
      proof (cases "path_exists B path w1")
        case True
        with refused [OF True, of "st_db store"] show ?thesis
          by (auto simp: backup_db_def Pair Inr new Let_def)
      next
        case False
        obtain c w2 where mk: "create_dir_all B path w1 = (c, w2)" by fastforce
        show ?thesis
        proof (cases c)
          case ok: (Inr v)
          obtain e where "create_checkpoint B (st_db store) path w2 = (Inl e, w2)"
            using refused [OF created [OF mk [unfolded ok]]] by blast
          with False show ?thesis by (simp add: backup_db_def Pair Inr new Let_def mk ok)
        qed (use False in \<open>simp add: backup_db_def Pair Inr new Let_def mk\<close>)
      qed
    qed (simp add: backup_db_def Pair Inr)
  qed (simp add: backup_db_def Pair)
qed

text \<open>A file system of directories; the state of the database is not needed.\<close>

definition dirs_env :: "(bytes set \<times> nat, bool) backup_env" where
  "dirs_env = \<lparr>
     checkpoint_new = (\<lambda>d w. Inr ()),
     create_checkpoint = (\<lambda>d path w. if path \<in> fst w then (Inl ''Invalid argument: Directory exists'', w)
        else (Inr (), (insert path (fst w), snd w))),
     path_exists = (\<lambda>path w. path \<in> fst w),
     path_is_dir = (\<lambda>path w. path \<in> fst w),
     create_dir_all = (\<lambda>path w. (Inr (), (insert path (fst w), snd w))),
     path_display = (\<lambda>path. map (\<lambda>b. char_of (unat b)) path)\<rparr>"

definition dirs_open :: "(bytes set \<times> nat, bool, unit, unit, unit) open_api" where
  "dirs_open = \<lparr>
     open_plain = (\<lambda>opts path ds w. (Inr True, w)),
     open_pessimistic = (\<lambda>opts x path ds w. (Inr True, w)),
     open_optimistic = (\<lambda>opts path ds w. (Inr True, w)),
     destroy_db = (\<lambda>opts path w. (Inr (), w))\<rparr>"

theorem backup_never_succeeds_witness:
  "(\<exists>e. fst (backup_db 4 bytewise_crates dirs_open dirs_env [98] sample_cf_config ({}, 0)) = Inl e)
   \<and> fst (create_checkpoint dirs_env True [98] ({}, 0)) = Inr ()"
proof -
  have "refuses_existing dirs_env" by (simp add: refuses_existing_def dirs_env_def)
  then show ?thesis
    by (simp add: backup_never_succeeds) (simp add: dirs_env_def)
qed

end
