(* ===== verification/Example_Transactions.thy ===== *)
theory Example_Transactions
  imports Example_Programs Isolation Migration
begin

text \<open>
  The programs with transactions: \<open>examples/transactional.rs\<close>, \<open>examples/cf_txn_store_operations.rs\<close>,
  \<open>examples/cf_optimistic_txn_store_operations.rs\<close> and \<open>examples/optimistic_transaction.rs\<close>, each from the point where its store is open. Console
  output is left out. One world holds the database and the transaction: \<open>A\<close> is the interface of
  the transaction, \<open>B\<close> that of the database outside of it, whose view is \<open>dbv\<close>.
\<close>

section \<open>transactional.rs\<close>

record bank_account =
  ba_id :: string
  ba_balance :: "64 word"

text \<open>
  The operator \<open>?\<close> while a context is alive: on an error the context is dropped. The balances are added
  as in a release build: there the addition wraps, where a debug build panics.
\<close>

definition or_drop ::
    "'w txn_life \<Rightarrow> txn_context \<Rightarrow> 'a store_result \<times> 'w \<Rightarrow> ('a \<Rightarrow> 'w \<Rightarrow> unit store_result \<times> 'w)
     \<Rightarrow> unit store_result \<times> 'w" where
  "or_drop L ctx r k =
     (case r of (Inl e, w) \<Rightarrow> (Inl e, fst (ctx_drop L ctx w)) | (Inr x, w) \<Rightarrow> k x w)"

definition transfer_funds ::
    "('w, 'h) rocks_api \<Rightarrow> ('w, 'h) cf_lookup \<Rightarrow> 'w txn_life \<Rightarrow> bank_account codec \<Rightarrow> string \<Rightarrow> string
     \<Rightarrow> 64 word \<Rightarrow> 'w \<Rightarrow> unit store_result \<times> 'w" where
  "transfer_funds A H L c from_acc_key to_acc_key amount w =
     (if sint amount \<le> 0 then (Inl (Other ''Transfer amount must be positive''), w)
      else
        case dt_transaction_context L w of (ctx, w) \<Rightarrow>
        or_drop L ctx (and_then (ctx_get A H c ctx w (KStr from_acc_key)) (ok_or (account_not_found from_acc_key)), w)
         (\<lambda>from_account w.
        or_drop L ctx (and_then (ctx_get A H c ctx w (KStr to_acc_key)) (ok_or (account_not_found to_acc_key)), w)
         (\<lambda>to_account w.
        if sint (ba_balance from_account) < sint amount then
          (case ctx_rollback L ctx w of
             (Inl e, w1, _) \<Rightarrow> (Inl e, w1)
           | (Inr _, w1, _) \<Rightarrow> (Inl (Other (''Insufficient funds in account '' @ ba_id from_account)), w1))
        else
          (let from_account = from_account\<lparr>ba_balance := ba_balance from_account - amount\<rparr>;
               to_account = to_account\<lparr>ba_balance := ba_balance to_account + amount\<rparr> in
           or_drop L ctx (ctx_set A H c ctx w (KStr from_acc_key) from_account) (\<lambda>_ w.
           or_drop L ctx (ctx_set A H c ctx w (KStr to_acc_key) to_account) (\<lambda>_ w.
             (case ctx_commit L ctx w of (r, w1, _) \<Rightarrow> (r, w1))))))))"

definition transactional_main ::
    "('w, 'h) rocks_api \<Rightarrow> ('w, 'h) cf_lookup \<Rightarrow> 'w txn_life \<Rightarrow> ('w, 'g) rocks_api \<Rightarrow> bank_account codec \<Rightarrow> 'w \<Rightarrow> 'w main" where
  "transactional_main A H L B c w =
     (let acc_a_key = ''acc:A''; acc_b_key = ''acc:B'' in
      try_write (dt_put B c w (KStr acc_a_key) \<lparr>ba_id = ''A'', ba_balance = 100\<rparr>) (\<lambda>w.
      try_write (dt_put B c w (KStr acc_b_key) \<lparr>ba_id = ''B'', ba_balance = 50\<rparr>) (\<lambda>w.
      case transfer_funds A H L c acc_a_key acc_b_key 25 w of (_, w) \<Rightarrow>
      try_read w (dt_get B c w (KStr acc_a_key)) (\<lambda>acc_a.
      try_read w (dt_get B c w (KStr acc_b_key)) (\<lambda>acc_b.
      unwrap_in w acc_a (\<lambda>a.
      assert_that w (ba_balance a = 75) (
      unwrap_in w acc_b (\<lambda>b.
      assert_that w (ba_balance b = 75) (
      case transfer_funds A H L c acc_a_key acc_b_key 100 w of (_, w) \<Rightarrow>
      try_read w (dt_get B c w (KStr acc_a_key)) (\<lambda>acc_a_final.
      try_read w (dt_get B c w (KStr acc_b_key)) (\<lambda>acc_b_final.
      assert_that w (acc_a_final = acc_a) (
      assert_that w (acc_b_final = acc_b) (
      done_with w)))))))))))))"

section \<open>cf_txn_store_operations.rs\<close>

record transactional_item =
  ti_id :: string
  ti_version :: "32 word"
  ti_payload :: string

definition CF_MAIN :: string where "CF_MAIN = ''main_data_cf''"
definition CF_LOGS :: string where "CF_LOGS = ''audit_logs_cf''"

text \<open>
  The operator \<open>?\<close> in the closure of a transaction, on a read and on a write. The clock gives the
  decimal text of the nanoseconds as \<open>now\<close>.
\<close>

definition try_txn_read :: "'w \<Rightarrow> 'b store_result \<Rightarrow> ('b \<Rightarrow> 'a store_result \<times> 'w) \<Rightarrow> 'a store_result \<times> 'w" where
  "try_txn_read w r k = (case r of Inl e \<Rightarrow> (Inl e, w) | Inr x \<Rightarrow> k x)"

definition try_txn_write :: "unit store_result \<times> 'w \<Rightarrow> ('w \<Rightarrow> 'a store_result \<times> 'w) \<Rightarrow> 'a store_result \<times> 'w" where
  "try_txn_write r k = (case r of (Inl e, w) \<Rightarrow> (Inl e, w) | (Inr _, w) \<Rightarrow> k w)"

abbreviation quoted :: "string \<Rightarrow> string" where
  "quoted t \<equiv> [CHR 0x27] @ t @ [CHR 0x27]"

definition update_item ::
    "('w, 'h) rocks_api \<Rightarrow> ('w, 'h) cf_lookup \<Rightarrow> transactional_item codec \<Rightarrow> string codec \<Rightarrow> string \<Rightarrow> string
     \<Rightarrow> string \<Rightarrow> 'w \<Rightarrow> string store_result \<times> 'w" where
  "update_item A H c strings item_id initial_payload log_entry_key txn =
     try_txn_read txn (txn_get_in_txn A H c txn CF_MAIN (KRef (KString item_id))) (\<lambda>current_item.
     (let new_version = (case current_item of None \<Rightarrow> 1 | Some i \<Rightarrow> ti_version i + 1);
          new_item = \<lparr>ti_id = item_id, ti_version = new_version,
            ti_payload = (if new_version = 1 then initial_payload
                          else ''Updated to v'' @ show_nat (unat new_version))\<rparr>;
          audit_log = ''Item '' @ quoted item_id @ '' updated/created. Version: '' @ show_nat (unat (ti_version new_item))
            @ ''. Payload: '' @ quoted (ti_payload new_item) in
      try_txn_write (put_in_txn_cf A H c txn CF_MAIN (KRef (KString item_id)) new_item) (\<lambda>txn.
      try_txn_write (put_in_txn_cf A H strings txn CF_LOGS (KRef (KString log_entry_key)) audit_log) (\<lambda>txn.
        (Inr (''Transaction for '' @ item_id @ '' committed. New version: '' @ show_nat (unat new_version)), txn)))))"

text \<open>The closure that stages a write and returns an error.\<close>

definition failing_update ::
    "('w, 'h) rocks_api \<Rightarrow> ('w, 'h) cf_lookup \<Rightarrow> transactional_item codec \<Rightarrow> string \<Rightarrow> 'w \<Rightarrow> unit store_result \<times> 'w" where
  "failing_update A H c item_id_fail txn =
     (let new_item = \<lparr>ti_id = item_id_fail, ti_version = 1, ti_payload = ''This should not be saved''\<rparr> in
      try_txn_write (put_in_txn_cf A H c txn CF_MAIN (KRef (KString item_id_fail)) new_item) (\<lambda>txn.
        (Inl (Other ''Simulated error during transaction''), txn)))"

definition cf_txn_main ::
    "('w, 'h) rocks_api \<Rightarrow> ('w, 'h) cf_lookup \<Rightarrow> 'w txn_life \<Rightarrow> ('w, 'h) rocks_api \<Rightarrow> transactional_item codec
     \<Rightarrow> string codec \<Rightarrow> (bytes \<Rightarrow> (string, string) result) \<Rightarrow> string \<Rightarrow> 'w \<Rightarrow> 'w main" where
  "cf_txn_main A H L B c strings dec now w =
     (let item_id = ''item-001''; initial_payload = ''Initial version''; log_entry_key = ''log:'' @ now in
      case execute_transaction L (update_item A H c strings item_id initial_payload log_entry_key) w of (_, w) \<Rightarrow>
      try_read w (ts_get B H c w CF_MAIN (KRef (KString item_id))) (\<lambda>committed_item.
      unwrap_in w committed_item (\<lambda>i.
      assert_that w (ti_version i = 1) (
      try_read w (ts_get B H c w CF_MAIN (KRef (KString item_id))) (\<lambda>_.
      try_search w (ts_find_by_prefix B H dec strings w CF_LOGS (KRef (KString ''log:'')) Forward) (\<lambda>logs.
      assert_that w (length logs = 1) (
     (let item_id_fail = ''item-002'' in
      case execute_transaction L (failing_update A H c item_id_fail) w of (rollback_result, w) \<Rightarrow>
      assert_that w (isl rollback_result) (
      try_read w (ts_get B H c w CF_MAIN (KRef (KString item_id_fail))) (\<lambda>rolled_back_item.
      assert_that w (rolled_back_item = None) (
      done_with w)))))))))))"

section \<open>cf_optimistic_txn_store_operations.rs\<close>

record versioned_balance =
  vb_account_id :: string
  vb_amount :: "64 word"
  vb_version :: u64

text \<open>The closure that the builder runs; \<open>handle\<close> is what the lookup of the default family gives.\<close>

definition balance_transfer ::
    "'h store_result \<Rightarrow> versioned_balance codec \<Rightarrow> string \<Rightarrow> string \<Rightarrow> ('h, unit) body" where
  "balance_transfer handle c alice_key bob_key =
     try_body handle (\<lambda>cf_handle.
     Read (Cf cf_handle) (str_bytes alice_key) (\<lambda>r1.
     try_body (and_then (map_err RocksDb r1) (ok_or (account_not_found alice_key))) (\<lambda>from_bytes.
     try_body (deserialize_value c from_bytes) (\<lambda>from_balance.
     Read (Cf cf_handle) (str_bytes bob_key) (\<lambda>r2.
     try_body (and_then (map_err RocksDb r2) (ok_or (account_not_found bob_key))) (\<lambda>to_bytes.
     try_body (deserialize_value c to_bytes) (\<lambda>to_balance.
      (let amount_to_transfer = 25 in
       if sint (vb_amount from_balance) < sint amount_to_transfer then Done (Inl (Other ''Insufficient funds''))
       else
         let from_balance = from_balance\<lparr>vb_amount := vb_amount from_balance - amount_to_transfer,
                                         vb_version := vb_version from_balance + 1\<rparr>;
             to_balance = to_balance\<lparr>vb_amount := vb_amount to_balance + amount_to_transfer,
                                     vb_version := vb_version to_balance + 1\<rparr> in
         try_body (serialize_value c from_balance) (\<lambda>from_ser.
         Write (PutW (Cf cf_handle) (str_bytes alice_key) from_ser) (\<lambda>w1.
         try_body (map_err RocksDb w1) (\<lambda>_.
         try_body (serialize_value c to_balance) (\<lambda>to_ser.
         Write (PutW (Cf cf_handle) (str_bytes bob_key) to_ser) (\<lambda>w2.
         try_body (map_err RocksDb w2) (\<lambda>_. Done (Inr ())))))))))))))))"

text \<open>A run of the builder that never returns would be no better than a panic.\<close>

definition optimistic_main ::
    "('s, 't) txn_db \<Rightarrow> ('t \<times> 's, 'h) rocks_api \<Rightarrow> (nat \<Rightarrow> 's \<Rightarrow> 's) \<Rightarrow> 'h store_result
     \<Rightarrow> ('s, 'g) rocks_api \<Rightarrow> ('s, 'g) cf_lookup \<Rightarrow> versioned_balance codec \<Rightarrow> 's \<Rightarrow> 's main" where
  "optimistic_main D A sleep handle B H c s =
     (let alice_key = ''alice''; bob_key = ''bob'' in
      try_write (dp_put B H c s (KStr alice_key) \<lparr>vb_account_id = ''alice'', vb_amount = 100, vb_version = 1\<rparr>) (\<lambda>s.
      try_write (dp_put B H c s (KStr bob_key) \<lparr>vb_account_id = ''bob'', vb_amount = 50, vb_version = 1\<rparr>) (\<lambda>s.
      try_write (dp_put B H c s (KStr alice_key) \<lparr>vb_account_id = ''alice'', vb_amount = 110, vb_version = 2\<rparr>) (\<lambda>s.
      case execute_with_snapshot D (fixed_should_retry sleep fixed_retry_default)
             (run_body A (balance_transfer handle c alice_key bob_key)) s of
        None \<Rightarrow> (Panicked, s)
      | Some (transfer_result, s) \<Rightarrow>
          try_read s transfer_result (\<lambda>_.
          try_read s (dp_get B H c s (KStr alice_key)) (\<lambda>alice.
          unwrap_in s alice (\<lambda>final_alice.
          try_read s (dp_get B H c s (KStr bob_key)) (\<lambda>bob.
          unwrap_in s bob (\<lambda>final_bob.
          assert_that s (vb_amount final_alice = 85) (
          assert_that s (vb_version final_alice = 3) (
          assert_that s (vb_amount final_bob = 75) (
          assert_that s (vb_version final_bob = 2) (
          done_with s)))))))))))))"

section \<open>optimistic_transaction.rs\<close>

text \<open>
  The other thread of the example makes one transfer. By the serializability of the optimistic transactions it
  comes as a whole at the moment of its commit: before the main thread reads the account, between
  its read and its write, or after its write. \<open>run\<close> is the thread; a run that does not return is no
  better than a panic.
\<close>

definition ACCOUNTS_CF :: string where "ACCOUNTS_CF = ''accounts''"

datatype moment = BeforeRead | BetweenReadAndWrite | AfterWrite

definition joins ::
    "bool \<Rightarrow> ('s \<Rightarrow> (unit store_result \<times> 's) option) \<Rightarrow> unit store_result \<Rightarrow> 's
     \<Rightarrow> (unit store_result \<Rightarrow> 's \<Rightarrow> 's main) \<Rightarrow> 's main" where
  "joins now run r s k = (if now then (case run s of None \<Rightarrow> (Panicked, s) | Some (r, s) \<Rightarrow> k r s) else k r s)"

definition the_transfer ::
    "('s, 't) txn_db \<Rightarrow> ('t \<times> 's, 'h) rocks_api \<Rightarrow> (nat \<Rightarrow> 's \<Rightarrow> 's) \<Rightarrow> 'h store_result \<Rightarrow> account codec
     \<Rightarrow> string \<Rightarrow> string \<Rightarrow> 64 word \<Rightarrow> 's \<Rightarrow> (unit store_result \<times> 's) option" where
  "the_transfer D A sleep handle c from_key to_key amount =
     execute_with_snapshot D (fixed_should_retry sleep \<lparr>max_attempts = 5, backoff = 10000000\<rparr>)
       (run_body A (safe_transfer handle c from_key to_key amount))"

definition optimistic_transaction_main ::
    "('s \<Rightarrow> (unit store_result \<times> 's) option) \<Rightarrow> ('s, 'g) rocks_api \<Rightarrow> ('s, 'g) cf_lookup \<Rightarrow> account codec
     \<Rightarrow> moment \<Rightarrow> 's \<Rightarrow> 's main" where
  "optimistic_transaction_main run B H c moment s =
     (let acc_a = \<lparr>acc_id = ''A'', acc_balance = 100, acc_version = 1\<rparr>;
          acc_b = \<lparr>acc_id = ''B'', acc_balance = 100, acc_version = 1\<rparr> in
      try_write (ts_put B H c s ACCOUNTS_CF (KStr ''acc_a'') acc_a) (\<lambda>s.
      try_write (ts_put B H c s ACCOUNTS_CF (KStr ''acc_b'') acc_b) (\<lambda>s.
      joins (moment = BeforeRead) run (Inr ()) s (\<lambda>thread_result s.
      try_read s (ts_get B H c s ACCOUNTS_CF (KStr ''acc_b'')) (\<lambda>read_b.
      unwrap_in s read_b (\<lambda>acc_b_main.
     (let acc_b_main = acc_b_main\<lparr>acc_balance := acc_balance acc_b_main + 50, acc_version := acc_version acc_b_main + 1\<rparr> in
      joins (moment = BetweenReadAndWrite) run thread_result s (\<lambda>thread_result s.
      try_write (ts_put B H c s ACCOUNTS_CF (KStr ''acc_b'') acc_b_main) (\<lambda>s.
      joins (moment = AfterWrite) run thread_result s (\<lambda>thread_result s.
      assert_that s (\<not> isl thread_result) (
      try_read s (ts_get B H c s ACCOUNTS_CF (KStr ''acc_a'')) (\<lambda>read_a.
      unwrap_in s read_a (\<lambda>final_a.
      try_read s (ts_get B H c s ACCOUNTS_CF (KStr ''acc_b'')) (\<lambda>read_b.
      unwrap_in s read_b (\<lambda>final_b.
      assert_that s (acc_balance final_a = 110) (
      assert_that s (acc_version final_a = 2) (
      assert_that s (acc_balance final_b = 140) (
      assert_that s (acc_version final_b = 3) (
      done_with s)))))))))))))))))))"

section \<open>Lemmas\<close>

lemma txn_get_Inr:
  assumes "txn_contract A M L dbv" and "lookup_ok M H" and "txn_get_in_txn A H c w cf k = Inr x"
  shows "opt_try (deserialize_value c) (m_view M w cf (as_bytes k)) = Inr x"
  using assms
  by (fastforce simp: txn_get_in_txn_def and_then_eq_Inr txn_contract_def dest: contract_get target_by_name)

lemma ctx_get_Inr:
  assumes "txn_contract A M L dbv" and "lookup_ok M H" and "\<not> completed ctx" and "ctx_get A H c ctx w k = Inr x"
  shows "opt_try (deserialize_value c) (m_view M w DEFAULT_COLUMN_FAMILY_NAME (as_bytes k)) = Inr x"
  using assms(4) txn_get_Inr [OF assms(1,2)] by (simp add: ctx_get_def check_live [OF assms(3)])

lemma put_in_txn_effect:
  assumes "txn_contract A M L dbv" and "lookup_ok M H" and "codec_ok c"
  shows "dbv (snd (put_in_txn_cf A H c w cf k v)) = dbv w"
    and "fst (put_in_txn_cf A H c w cf k v) = Inr u \<Longrightarrow> \<exists>bs. deserialize_value c bs = Inr v
      \<and> m_view M (snd (put_in_txn_cf A H c w cf k v)) = upd (m_view M w) cf (as_bytes k) (Some bs)"
proof -
  let ?x = "TPut cf k v :: (_, unit) txn_call"
  have step: "put_in_txn_cf A H c w cf k v = txn_step A H c undefined ?x w" by simp
  show "dbv (snd (put_in_txn_cf A H c w cf k v)) = dbv w"
    unfolding step by (rule txn_step_isolated [OF assms(1)])
  assume r: "fst (put_in_txn_cf A H c w cf k v) = Inr u"
  then obtain bs where "serialize_value c v = Inr bs"
    by (cases "serialize_value c v") (auto simp: put_in_txn_cf_def)
  moreover have "rocks_contract A M" using assms(1) by (simp add: txn_contract_def)
  ultimately show "\<exists>bs. deserialize_value c bs = Inr v
      \<and> m_view M (snd (put_in_txn_cf A H c w cf k v)) = upd (m_view M w) cf (as_bytes k) (Some bs)"
    using txn_step_view [of A M H c undefined ?x w] assms(2) r unfolding step
    by (intro exI [of _ bs]) (auto simp: outcome_def serialize_value_eq_Inr codec_okD [OF assms(3)])
qed

lemma ctx_set_put: "\<not> completed ctx \<Longrightarrow> ctx_set A H c ctx w k v = put_in_txn_cf A H c w DEFAULT_COLUMN_FAMILY_NAME k v"
  by (simp add: ctx_set_def check_live)

lemma ctx_end_effect:
  assumes "txn_contract A M L dbv" and "\<not> completed ctx"
  shows "ctx_commit L ctx w = (Inl e, w1, es) \<Longrightarrow> dbv w1 = dbv w"
    and "ctx_commit L ctx w = (Inr u, w1, es) \<Longrightarrow> dbv w1 = m_view M w"
    and "ctx_rollback L ctx w = (r, w1, es) \<Longrightarrow> dbv w1 = dbv w"
  using assms
  by (auto simp: ctx_commit_live ctx_rollback_live txn_contract_def split: prod.splits sum.splits)
     (metis snd_conv)+

text \<open>What a transfer has done when it ends.\<close>

definition transferred ::
    "bank_account codec \<Rightarrow> string \<Rightarrow> string \<Rightarrow> 64 word \<Rightarrow> kv_view \<Rightarrow> kv_view \<Rightarrow> bool" where
  "transferred c from_acc_key to_acc_key amount w w1 \<longleftrightarrow>
     (\<exists>f t fb tb. opt_try (deserialize_value c) (w DEFAULT_COLUMN_FAMILY_NAME (str_bytes from_acc_key)) = Inr (Some f)
      \<and> opt_try (deserialize_value c) (w DEFAULT_COLUMN_FAMILY_NAME (str_bytes to_acc_key)) = Inr (Some t)
      \<and> 0 < sint amount \<and> sint amount \<le> sint (ba_balance f)
      \<and> deserialize_value c fb = Inr (f\<lparr>ba_balance := ba_balance f - amount\<rparr>)
      \<and> deserialize_value c tb = Inr (t\<lparr>ba_balance := ba_balance t + amount\<rparr>)
      \<and> w1 = upd (upd w DEFAULT_COLUMN_FAMILY_NAME (str_bytes from_acc_key) (Some fb))
          DEFAULT_COLUMN_FAMILY_NAME (str_bytes to_acc_key) (Some tb))"

lemma and_then_ok_or_Inr: "and_then r (ok_or e) = Inr a \<longleftrightarrow> r = Inr (Some a)"
  by (auto simp: and_then_eq_Inr ok_or_def split: option.splits)

definition settled ::
    "('w \<Rightarrow> kv_view) \<Rightarrow> bank_account codec \<Rightarrow> string \<Rightarrow> string \<Rightarrow> 64 word \<Rightarrow> kv_view \<Rightarrow> unit store_result \<times> 'w \<Rightarrow> bool" where
  "settled dbv c from_acc_key to_acc_key amount d x =
     (case x of
        (Inl e, w) \<Rightarrow> dbv w = d
      | (Inr _, w) \<Rightarrow> transferred c from_acc_key to_acc_key amount d (dbv w))"

lemma settled_or_drop:
  assumes "txn_contract A M L dbv" and "dbv (snd r) = d"
    and "\<And>a. fst r = Inr a \<Longrightarrow> settled dbv c from_key to_key amount d (k a (snd r))"
  shows "settled dbv c from_key to_key amount d (or_drop L ctx r k)"
  using assms
  by (cases r; cases "fst r") (auto simp: or_drop_def ctx_drop_def txn_contract_def settled_def)

lemma settled_commit:
  assumes "txn_contract A M L dbv" and "\<not> completed ctx" and "dbv w = d"
    and "transferred c from_key to_key amount d (m_view M w)"
  shows "settled dbv c from_key to_key amount d (case ctx_commit L ctx w of (r, w1, _) \<Rightarrow> (r, w1))"
  using ctx_end_effect(1,2) [OF assms(1,2)] assms(3,4)
  by (auto simp: settled_def split: prod.splits sum.splits)

lemma transfer_funds_settled:
  assumes c: "txn_contract A M L dbv" and H: "lookup_ok M H" and cc: "codec_ok c"
  shows "settled dbv c from_key to_key amount (dbv w) (transfer_funds A H L c from_key to_key amount w)"
proof (cases "sint amount \<le> 0")
  case True
  then show ?thesis by (simp add: transfer_funds_def settled_def)
next
  case pos: False
  obtain ctx w0 where new: "dt_transaction_context L w = (ctx, w0)" by fastforce
  then have ctx: "\<not> completed ctx" and start: "w0 = life_begin L w"
    using ctx_new_completed [of L w ctx w0] by (simp_all add: dt_transaction_context_def)
  have w0: "dbv w0 = dbv w" "m_view M w0 = dbv w" using c by (simp_all add: start txn_contract_def)
  note read = ctx_get_Inr [OF c H ctx, where w = w0, unfolded w0(2)]
  note step = settled_or_drop [OF c]
  show ?thesis
    unfolding transfer_funds_def new using pos
  proof (simp only: if_False prod.case, intro step, simp_all only: fst_conv snd_conv w0 and_then_ok_or_Inr)
    fix f t
    assume f: "ctx_get A H c ctx w0 (KStr from_key) = Inr (Some f)"
      and t: "ctx_get A H c ctx w0 (KStr to_key) = Inr (Some t)"
    show "settled dbv c from_key to_key amount (dbv w) (if sint (ba_balance f) < sint amount then
        (case ctx_rollback L ctx w0 of (Inl e, w1, _) \<Rightarrow> (Inl e, w1)
         | (Inr _, w1, _) \<Rightarrow> (Inl (Other (''Insufficient funds in account '' @ ba_id f)), w1))
        else (let f = f\<lparr>ba_balance := ba_balance f - amount\<rparr>; t = t\<lparr>ba_balance := ba_balance t + amount\<rparr> in
          or_drop L ctx (ctx_set A H c ctx w0 (KStr from_key) f) (\<lambda>_ w.
          or_drop L ctx (ctx_set A H c ctx w (KStr to_key) t) (\<lambda>_ w.
            (case ctx_commit L ctx w of (r, w1, _) \<Rightarrow> (r, w1))))))"
    proof (cases "sint (ba_balance f) < sint amount")
      case True
      then show ?thesis
        using ctx_end_effect(3) [OF c ctx, of w0] w0
        by (auto simp: settled_def split: prod.splits sum.splits)
    next
      case enough: False
      show ?thesis
        unfolding if_not_P [OF enough] Let_def
      proof (intro step settled_commit [OF c ctx])
        let ?f1 = "f\<lparr>ba_balance := ba_balance f - amount\<rparr>" and ?t1 = "t\<lparr>ba_balance := ba_balance t + amount\<rparr>"
        let ?r1 = "ctx_set A H c ctx w0 (KStr from_key) ?f1"
        let ?r2 = "ctx_set A H c ctx (snd ?r1) (KStr to_key) ?t1"
        note set1 = put_in_txn_effect [OF c H cc, where cf = DEFAULT_COLUMN_FAMILY_NAME, folded ctx_set_put [OF ctx], where w = w0 and k = "KStr from_key" and v = ?f1]
          and set2 = put_in_txn_effect [OF c H cc, where cf = DEFAULT_COLUMN_FAMILY_NAME, folded ctx_set_put [OF ctx], where w = "snd ?r1" and k = "KStr to_key" and v = ?t1]
        show "dbv (snd ?r1) = dbv w" "dbv (snd ?r2) = dbv w" "dbv (snd ?r2) = dbv w"
          using set1(1) set2(1) w0 by simp_all
        fix u v
        assume "fst ?r1 = Inr u" "fst ?r2 = Inr v"
        then obtain fb tb where "deserialize_value c fb = Inr ?f1" "deserialize_value c tb = Inr ?t1"
            "m_view M (snd ?r2) = upd (upd (dbv w) DEFAULT_COLUMN_FAMILY_NAME (str_bytes from_key) (Some fb))
               DEFAULT_COLUMN_FAMILY_NAME (str_bytes to_key) (Some tb)"
          using set1(2) set2(2) w0(2) by fastforce
        with read [OF f] read [OF t] pos enough
        show "transferred c from_key to_key amount (dbv w) (m_view M (snd ?r2))"
          unfolding transferred_def by (intro exI [of _ f] exI [of _ t] exI [of _ fb] exI [of _ tb]) simp
      qed
    qed
  qed
qed

text \<open>The balance that is stored under a key, and the sum of two.\<close>

definition balance_of :: "bank_account codec \<Rightarrow> kv_view \<Rightarrow> string \<Rightarrow> 64 word" where
  "balance_of c w key =
     (case opt_try (deserialize_value c) (w DEFAULT_COLUMN_FAMILY_NAME (str_bytes key)) of
        Inr (Some a) \<Rightarrow> ba_balance a
      | _ \<Rightarrow> 0)"

lemma balance_of_stored:
  "w DEFAULT_COLUMN_FAMILY_NAME (str_bytes key) = Some bs \<Longrightarrow> deserialize_value c bs = Inr a \<Longrightarrow>
     balance_of c w key = ba_balance a"
  by (simp add: balance_of_def opt_try_def)

lemma transferred_balances:
  assumes "transferred c from_key to_key amount w w1" and "from_key \<noteq> to_key"
  shows "balance_of c w1 from_key = balance_of c w from_key - amount"
    and "balance_of c w1 to_key = balance_of c w to_key + amount"
  using assms by (auto simp: transferred_def balance_of_def upd_def)

lemma safe_transfer_call:
  assumes "txn_contract A M L dbv" and "lookup_ok M H" and "codec_ok c"
    and "\<And>r w1. fst (transfer_funds A H L c a b n w) = r \<Longrightarrow> settled dbv c a b n (dbv w) (r, w1) \<Longrightarrow> ends pan Q (k w1)"
  shows "ends pan Q (case transfer_funds A H L c a b n w of (_, w1) \<Rightarrow> k w1)"
  using transfer_funds_settled [OF assms(1-3), of a b n w] assms(4)
  by (cases "transfer_funds A H L c a b n w") simp

text \<open>The two accounts of the example with these balances.\<close>

definition holding :: "bank_account codec \<Rightarrow> 64 word \<Rightarrow> 64 word \<Rightarrow> kv_view \<Rightarrow> bool" where
  "holding c x y w \<longleftrightarrow> (\<exists>ba bb.
     w DEFAULT_COLUMN_FAMILY_NAME (str_bytes ''acc:A'') = Some ba \<and> deserialize_value c ba = Inr \<lparr>ba_id = ''A'', ba_balance = x\<rparr>
   \<and> w DEFAULT_COLUMN_FAMILY_NAME (str_bytes ''acc:B'') = Some bb \<and> deserialize_value c bb = Inr \<lparr>ba_id = ''B'', ba_balance = y\<rparr>)"

lemma holding_transferred:
  assumes "holding c x y w" and "transferred c ''acc:A'' ''acc:B'' n w w1"
  shows "holding c (x - n) (y + n) w1" and "sint n \<le> sint x"
  using assms by (auto simp: holding_def transferred_def upd_def)

lemma holding_get:
  assumes "holding c x y w"
  shows "opt_try (deserialize_value c) (w DEFAULT_COLUMN_FAMILY_NAME (str_bytes ''acc:A'')) = Inr (Some \<lparr>ba_id = ''A'', ba_balance = x\<rparr>)"
    and "opt_try (deserialize_value c) (w DEFAULT_COLUMN_FAMILY_NAME (str_bytes ''acc:B'')) = Inr (Some \<lparr>ba_id = ''B'', ba_balance = y\<rparr>)"
  using assms by (auto simp: holding_def)

lemma transactional_safe:
  assumes c: "txn_contract A M L dbv" "lookup_ok M H" and B: "rocks_contract B N" "m_view N = dbv"
    and cc: "codec_ok c"
    and works: "\<And>w1 w2 e. dt_put B c w (KStr ''acc:A'') \<lparr>ba_id = ''A'', ba_balance = 100\<rparr> = (Inr (), w1) \<Longrightarrow>
      dt_put B c w1 (KStr ''acc:B'') \<lparr>ba_id = ''B'', ba_balance = 50\<rparr> = (Inr (), w2) \<Longrightarrow>
      fst (transfer_funds A H L c ''acc:A'' ''acc:B'' 25 w2) \<noteq> Inl e"
  shows "safe (\<lambda>_. True) (transactional_main A H L B c w)"
proof -
  note get = safe_get [OF B(1), unfolded B(2)]
  have second: "dbv w1 = dbv w0" if "holding c 75 75 (dbv w0)" "settled dbv c ''acc:A'' ''acc:B'' 100 (dbv w0) (r, w1)"
    for w0 r w1
    using that(2) holding_transferred(2) [OF that(1), of 100] by (auto simp: settled_def split: sum.splits)
  have checks: "safe (\<lambda>_. True)
     (try_read w (get B c w DEFAULT_COLUMN_FAMILY_NAME (KStr ''acc:A'')) (\<lambda>acc_a.
      try_read w (get B c w DEFAULT_COLUMN_FAMILY_NAME (KStr ''acc:B'')) (\<lambda>acc_b.
      unwrap_in w acc_a (\<lambda>a. assert_that w (ba_balance a = 75) (
      unwrap_in w acc_b (\<lambda>b. assert_that w (ba_balance b = 75) (
      case transfer_funds A H L c ''acc:A'' ''acc:B'' 100 w of (_, w) \<Rightarrow>
      try_read w (get B c w DEFAULT_COLUMN_FAMILY_NAME (KStr ''acc:A'')) (\<lambda>acc_a_final.
      try_read w (get B c w DEFAULT_COLUMN_FAMILY_NAME (KStr ''acc:B'')) (\<lambda>acc_b_final.
      assert_that w (acc_a_final = acc_a) (assert_that w (acc_b_final = acc_b) (done_with w)))))))))))"
    if h: "holding c 75 75 (dbv w)" for w
    by (rule get safe_unwrap safe_assert safe_transfer_call [OF c cc] safe_done
        | (use holding_get [OF h] second [OF h] in \<open>auto; fail\<close>))+
  show ?thesis
    unfolding transactional_main_def Let_def dt_writes dt_reads ds_put_def ds_get_def
  proof (rule safe_put_step [OF B(1) cc], rule safe_put_step [OF B(1) cc], unfold B(2), rule safe_transfer_call [OF c cc], rule checks)
    fix w1 ba w2 bb r w3
    assume puts: "put B c w DEFAULT_COLUMN_FAMILY_NAME (KStr ''acc:A'') \<lparr>ba_id = ''A'', ba_balance = 100\<rparr> = (Inr (), w1)"
      "put B c w1 DEFAULT_COLUMN_FAMILY_NAME (KStr ''acc:B'') \<lparr>ba_id = ''B'', ba_balance = 50\<rparr> = (Inr (), w2)"
    assume "deserialize_value c ba = Inr \<lparr>ba_id = ''A'', ba_balance = 100\<rparr>"
      "dbv w1 = upd (dbv w) DEFAULT_COLUMN_FAMILY_NAME (as_bytes (KStr ''acc:A'')) (Some ba)"
      "deserialize_value c bb = Inr \<lparr>ba_id = ''B'', ba_balance = 50\<rparr>"
      "dbv w2 = upd (dbv w1) DEFAULT_COLUMN_FAMILY_NAME (as_bytes (KStr ''acc:B'')) (Some bb)"
    then have h: "holding c 100 50 (dbv w2)" by (simp add: holding_def upd_def)
    assume "fst (transfer_funds A H L c ''acc:A'' ''acc:B'' 25 w2) = r"
      "settled dbv c ''acc:A'' ''acc:B'' 25 (dbv w2) (r, w3)"
    with works [unfolded dt_writes ds_put_def, OF puts] have "transferred c ''acc:A'' ''acc:B'' 25 (dbv w2) (dbv w3)"
      by (cases r) (auto simp: settled_def)
    from holding_transferred(1) [OF h this] show "holding c 75 75 (dbv w3)" by simp
  qed
qed

subsection \<open>Closures of transactions\<close>

text \<open>The closure leaves the database alone, and when it succeeds the transaction satisfies \<open>Q\<close>.\<close>

definition staged ::
    "('w \<Rightarrow> kv_view) \<Rightarrow> ('w, 'h) rocks_meaning \<Rightarrow> kv_view \<Rightarrow> (kv_view \<Rightarrow> bool) \<Rightarrow> 'a store_result \<times> 'w \<Rightarrow> bool" where
  "staged dbv M d Q r \<longleftrightarrow> dbv (snd r) = d \<and> (\<forall>a. fst r = Inr a \<longrightarrow> Q (m_view M (snd r)))"

lemma staged_read:
  assumes "txn_contract A M L dbv" and "lookup_ok M H" and "dbv w = d"
    and "\<And>x. opt_try (deserialize_value c) (m_view M w cf (as_bytes k)) = Inr x \<Longrightarrow> staged dbv M d Q (f x)"
  shows "staged dbv M d Q (try_txn_read w (txn_get_in_txn A H c w cf k) f)"
proof (cases "txn_get_in_txn A H c w cf k")
  case (Inr x)
  with assms(4) [OF txn_get_Inr [OF assms(1,2) Inr]] show ?thesis by (simp add: try_txn_read_def)
qed (simp add: try_txn_read_def staged_def assms(3))

lemma staged_put:
  assumes "txn_contract A M L dbv" and "lookup_ok M H" and "codec_ok c" and "dbv w = d"
    and "\<And>w1 bs. dbv w1 = d \<Longrightarrow> deserialize_value c bs = Inr v \<Longrightarrow>
      m_view M w1 = upd (m_view M w) cf (as_bytes k) (Some bs) \<Longrightarrow> staged dbv M d Q (f w1)"
  shows "staged dbv M d Q (try_txn_write (put_in_txn_cf A H c w cf k v) f)"
proof (cases "fst (put_in_txn_cf A H c w cf k v)")
  case (Inl e)
  then show ?thesis
    using put_in_txn_effect(1) [OF assms(1-3), of w cf k v] assms(4)
    by (simp add: try_txn_write_def staged_def case_prod_beta)
next
  case (Inr u)
  then obtain bs where "deserialize_value c bs = Inr v"
      "m_view M (snd (put_in_txn_cf A H c w cf k v)) = upd (m_view M w) cf (as_bytes k) (Some bs)"
    using put_in_txn_effect(2) [OF assms(1-3)] by blast
  then have "staged dbv M d Q (f (snd (put_in_txn_cf A H c w cf k v)))"
    using put_in_txn_effect(1) [OF assms(1-3), of w cf k v] assms(4) by (intro assms(5)) simp_all
  with Inr show ?thesis by (simp add: try_txn_write_def case_prod_beta)
qed

lemma staged_end: "dbv w = d \<Longrightarrow> (isl r \<or> Q (m_view M w)) \<Longrightarrow> staged dbv M d Q (r, w)"
  by (auto simp: staged_def)

lemma execute_transaction_staged:
  assumes "txn_contract A M L dbv"
    and "\<And>w1. dbv w1 = dbv w \<Longrightarrow> m_view M w1 = dbv w \<Longrightarrow> staged dbv M (dbv w) Q (operation w1)"
    and "execute_transaction L operation w = (r, w1)"
  shows "(case r of Inl e \<Rightarrow> dbv w1 = dbv w | Inr _ \<Rightarrow> Q (dbv w1))"
proof -
  have "staged dbv M (dbv w) Q (operation (life_begin L w))"
    using assms(1) by (intro assms(2)) (simp_all add: txn_contract_def)
  with assms(1,3) show ?thesis
    by (cases "operation (life_begin L w)")
       (fastforce simp: execute_transaction_def begin_transaction_def Let_def staged_def txn_contract_def
         split: sum.splits prod.splits)
qed

text \<open>What the transaction of the example has stored when it was committed.\<close>

definition item_stored ::
    "transactional_item codec \<Rightarrow> string \<Rightarrow> string \<Rightarrow> string \<Rightarrow> kv_view \<Rightarrow> kv_view \<Rightarrow> bool" where
  "item_stored c item_id payload log_key d d1 \<longleftrightarrow> (\<exists>bs ls.
     deserialize_value c bs = Inr \<lparr>ti_id = item_id, ti_version = 1, ti_payload = payload\<rparr>
   \<and> d1 = upd (upd d CF_MAIN (str_bytes item_id) (Some bs)) CF_LOGS (str_bytes log_key) (Some ls))"

lemma update_item_staged:
  assumes "txn_contract A M L dbv" and "lookup_ok M H" and "codec_ok c" and "codec_ok strings"
    and "d CF_MAIN (str_bytes item_id) = None" and "dbv w = d" and "m_view M w = d"
  shows "staged dbv M d (item_stored c item_id payload log_key d) (update_item A H c strings item_id payload log_key w)"
  unfolding update_item_def Let_def
  by (rule staged_read [OF assms(1,2)] staged_put [OF assms(1-3)] staged_put [OF assms(1,2,4)] staged_end
      | (use assms(5-7) in \<open>auto simp: item_stored_def; fail\<close>))+

lemma failing_update_staged:
  assumes "txn_contract A M L dbv" and "lookup_ok M H" and "codec_ok c" and "dbv w = d"
  shows "staged dbv M d (\<lambda>_. False) (failing_update A H c item_id w)"
  unfolding failing_update_def Let_def
  by (rule staged_put [OF assms(1-3)] staged_end | (use assms(4) in \<open>simp; fail\<close>))+

text \<open>Reads of the store outside of the transaction, with whatever lookup it has: its interface without writes.\<close>

definition looking :: "('s, 'h) rocks_api \<Rightarrow> ('s, 'h) cf_lookup \<Rightarrow> ('s, 'h) rocks_api" where
  "looking A H = A\<lparr>api_cf_handle := \<lambda>s cf. case H s cf of Inl e \<Rightarrow> None | Inr h \<Rightarrow> Some h,
     api_put := \<lambda>s t k v. (Inl [], s), api_merge := \<lambda>s t k x. (Inl [], s),
     api_delete := \<lambda>s t k. (Inl [], s), api_write := \<lambda>s bops. (Inl [], s)\<rparr>"

lemma looking_contracts:
  assumes "rocks_contract A M" and "iter_contract A M" and "rows_only A" and "lookup_ok M H"
  shows "rocks_contract (looking A H) M" and "iter_contract (looking A H) M" and "rows_only (looking A H)"
  using assms
  by (simp_all add: rocks_contract_def read_contract_def write_contract_def effect_ok_def iter_contract_def
      rows_only_def lookup_ok_def looking_def split: sum.splits)

lemma looking_target: "target_by H s cf = Inr t \<Longrightarrow> target_of (looking A H) s cf = Inr t"
  by (auto simp: target_by_def target_of_def looking_def and_then_eq_Inr get_cf_handle_def ok_or_def split: if_splits)

lemma safe_ts_get:
  assumes "rocks_contract A M" and "lookup_ok M H"
    and "\<And>x. opt_try (deserialize_value c) (m_view M s cf (as_bytes k)) = Inr x \<Longrightarrow> ends pan Q (kk x)"
  shows "ends pan Q (try_read s (ts_get A H c s cf k) kk)"
  using assms
  by (intro safe_try_read)
     (auto simp: ts_get_def and_then_eq_Inr dest!: contract_get [OF assms(1)] target_by_name [OF assms(2)])

lemma safe_ts_find_by_prefix:
  assumes "rocks_contract A M" and "iter_contract A M" and "rows_only A" and "lookup_ok M H"
    and "\<And>items. length items = card {k. m_view M s cf k \<noteq> None \<and> has_prefix (as_bytes p) k} \<Longrightarrow> ends pan Q (kk items)"
  shows "ends pan Q (try_search s (ts_find_by_prefix A H dec c s cf p dir) kk)"
proof (cases "target_by H s cf")
  case (Inl e)
  then have "ts_find_by_prefix A H dec c s cf p dir = Some (Inl e)"
    by (simp add: ts_find_by_prefix_def ts_iterate_def execute_def base_iter_def new_deserializing_def collect_items_def)
  then show ?thesis by (simp only: try_search_def option.case) (simp add: try_read_def ends_def)
next
  case (Inr t)
  have "ts_find_by_prefix A H dec c s cf p dir = find_by_prefix (looking A H) dec c s cf p dir"
    unfolding ts_find_by_prefix_def find_by_prefix_def ts_iterate_def iterate_def Let_def
      general_iterator_factory_def [abs_def] prefix_iterator_factory_def [abs_def]
    by (simp add: new_deserializing_def Inr looking_target) (simp add: looking_def)
  then show ?thesis
    using assms(5) by (simp only:) (rule safe_find_by_prefix [OF looking_contracts [OF assms(1-4)]])
qed

lemma cf_txn_safe:
  assumes c: "txn_contract A M L dbv" "lookup_ok M H"
    and B: "rocks_contract B N" "iter_contract B N" "rows_only B" "m_view N = dbv"
    and H: "lookup_ok N H"
    and cc: "codec_ok c" "codec_ok strings"
    and empty: "dbv w CF_MAIN (str_bytes ''item-001'') = None" "dbv w CF_MAIN (str_bytes ''item-002'') = None"
      "empty_family (dbv w) CF_LOGS"
    and works: "\<And>e. fst (execute_transaction L (update_item A H c strings ''item-001'' ''Initial version'' (''log:'' @ now)) w) \<noteq> Inl e"
  shows "safe (\<lambda>_. True) (cf_txn_main A H L B c strings dec now w)"
proof -
  let ?op = "update_item A H c strings ''item-001'' ''Initial version'' (''log:'' @ now)"
  obtain r w1 where run: "execute_transaction L ?op w = (r, w1)" by fastforce
  with works obtain msg where "r = Inr msg" by (cases r) auto
  with execute_transaction_staged [OF c(1) update_item_staged [where d = "dbv w", OF c cc empty(1)] run]
  have "item_stored c ''item-001'' ''Initial version'' (''log:'' @ now) (dbv w) (dbv w1)" by simp
  then obtain bs ls where bs: "deserialize_value c bs = Inr \<lparr>ti_id = ''item-001'', ti_version = 1, ti_payload = ''Initial version''\<rparr>"
    and w1: "dbv w1 = upd (upd (dbv w) CF_MAIN (str_bytes ''item-001'') (Some bs)) CF_LOGS (str_bytes (''log:'' @ now)) (Some ls)"
    by (auto simp: item_stored_def)
  have got: "dbv w1 CF_MAIN (str_bytes ''item-001'') = Some bs" "dbv w1 CF_MAIN (str_bytes ''item-002'') = None"
    using w1 empty(2) by (simp_all add: upd_def CF_MAIN_def CF_LOGS_def)
  have "{k. dbv w1 CF_LOGS k \<noteq> None \<and> has_prefix (str_bytes ''log:'') k} = {str_bytes (''log:'' @ now)}"
    using empty(3) by (auto simp: w1 upd_def CF_MAIN_def CF_LOGS_def empty_family_def str_bytes_def)
  then have one: "card {k. dbv w1 CF_LOGS k \<noteq> None \<and> has_prefix (str_bytes ''log:'') k} = 1" by simp
  obtain r2 w2 where run2: "execute_transaction L (failing_update A H c ''item-002'') w1 = (r2, w2)" by fastforce
  with execute_transaction_staged [OF c(1) failing_update_staged [where d = "dbv w1", OF c cc(1)] run2]
  have fails: "isl r2" "dbv w2 = dbv w1" by (auto split: sum.splits)
  note get = safe_ts_get [OF B(1) H, unfolded B(4)] and find = safe_ts_find_by_prefix [OF B(1-3) H, unfolded B(4)]
  show ?thesis
    unfolding cf_txn_main_def Let_def run prod.case run2
    by (rule get safe_unwrap safe_assert find safe_done | (use got bs one fails in \<open>auto; fail\<close>))+
qed

subsection \<open>The retry loop alone on a database\<close>

lemma run_body_executes:
  assumes "txn_contract A M L dbv"
  shows "run_body A b t s = (r, t1, s1) \<Longrightarrow>
    dbv (t1, s1) = dbv (t, s) \<and> (\<forall>a. r = Inr a \<longrightarrow> executes M b (m_view M (t, s)) a (m_view M (t1, s1)))"
proof (induction b arbitrary: t s)
  case (Done x)
  then show ?case by (simp add: executes_Done)
next
  case (Read g k f)
  from Read.IH [OF rangeI, of "api_get A (t, s) g k" t s] Read.prems show ?case
    using contract_get [of A M "(t, s)" g k] assms
    by (cases "api_get A (t, s) g k") (auto simp: executes_Read txn_contract_def)
next
  case (Write x f)
  obtain r0 t0 s0 where call: "call_write A x (t, s) = (r0, t0, s0)" by (metis prod_cases3)
  have rc: "rocks_contract A M" using assms by (simp add: txn_contract_def)
  have "dbv (snd (call_write A x (t, s))) = dbv (t, s)"
    using assms by (cases x) (simp_all add: txn_contract_def)
  then have same: "dbv (t0, s0) = dbv (t, s)" by (simp add: call)
  have "effect_ok A M (t, s) (call_write A x (t, s)) (apply_op M (m_view M (t, s)) (as_op x))"
    using rc by (cases x) (simp_all add: contract_put contract_merge contract_delete)
  then have "m_view M (t0, s0) = (case r0 of Inr _ \<Rightarrow> apply_op M (m_view M (t, s)) (as_op x) | Inl _ \<Rightarrow> m_view M (t, s))"
    by (simp add: effect_ok_def call)
  with Write.IH [OF rangeI, of r0 t0 s0] Write.prems call same show ?case
    by (cases r0) (auto simp: executes_Write)
qed

text \<open>
  The whole run, with no other thread at work: the database is as it was, or the closure was executed
  once on it.
\<close>

lemma try_once_alone:
  assumes "txn_contract A M (life_of D True) (\<lambda>w. dv (snd w))"
  shows "(case try_once D (run_body A b) True s of
      Finished r s1 \<Rightarrow> (case r of Inl e \<Rightarrow> dv s1 = dv s | Inr a \<Rightarrow> executes M b (dv s) a (dv s1))
    | Conflict e s1 \<Rightarrow> dv s1 = dv s)"
proof -
  obtain t0 s0 where start: "tdb_begin D True s = (t0, s0)" by fastforce
  obtain r t1 s1 where run: "run_body A b t0 s0 = (r, t1, s1)" by (metis prod_cases3)
  have "m_view M (life_begin (life_of D True) (undefined, s)) = dv s"
    "dv (snd (life_begin (life_of D True) (undefined, s))) = dv s"
    using assms unfolding txn_contract_def by (metis snd_conv)+
  then have s0: "m_view M (t0, s0) = dv s" "dv s0 = dv s" by (simp_all add: life_of_def start)
  from run_body_executes [OF assms run] s0
  have s1: "dv s1 = dv s" "\<And>a. r = Inr a \<Longrightarrow> executes M b (dv s) a (m_view M (t1, s1))" by simp_all
  have ends: "dv (snd (snd (life_rollback (life_of D True) (t1, s1)))) = dv s1"
    "life_commit (life_of D True) (t1, s1) = (Inr u, w1) \<Longrightarrow> dv (snd w1) = m_view M (t1, s1)"
    "life_commit (life_of D True) (t1, s1) = (Inl e, w1) \<Longrightarrow> dv (snd w1) = dv s1" for u e w1
    using assms unfolding txn_contract_def by (simp_all, metis snd_conv, metis snd_conv)
  then show ?thesis
    using s1 by (cases r; cases "tdb_commit D t1 s1") (auto simp: try_once_def start run life_of_def split: sum.splits)
qed

lemma attempts_alone:
  assumes "txn_contract A M (life_of D True) (\<lambda>w. dv (snd w))" and "\<And>s. dv (pause s) = dv s"
  shows "(case attempts D pause (run_body A b) True n s of
      Finished r s1 \<Rightarrow> (case r of Inl e \<Rightarrow> dv s1 = dv s | Inr a \<Rightarrow> executes M b (dv s) a (dv s1))
    | Conflict e s1 \<Rightarrow> dv s1 = dv s)"
proof (induction n arbitrary: s)
  case 0
  show ?case using try_once_alone [where b = b and s = s, OF assms(1)] by simp
next
  case (Suc n)
  show ?case
  proof (cases "try_once D (run_body A b) True s")
    case (Finished r s1)
    then show ?thesis using try_once_alone [where b = b and s = s, OF assms(1)] by simp
  next
    case (Conflict e s1)
    then have "dv s1 = dv s" using try_once_alone [where b = b and s = s, OF assms(1)] by simp
    then show ?thesis using Suc.IH [of "pause s1"] assms(2) [of s1]
      by (simp add: Conflict split: attempt.splits sum.splits)
  qed
qed

lemma builder_alone:
  assumes "txn_contract A M (life_of D True) (\<lambda>w. dv (snd w))" and "\<And>n s. dv (sleep n s) = dv s"
  obtains r s1 where "execute_with_snapshot D (fixed_should_retry sleep self) (run_body A b) s = Some (r, s1)"
    and "(case r of Inl e \<Rightarrow> dv s1 = dv s | Inr a \<Rightarrow> executes M b (dv s) a (dv s1))"
proof -
  let ?n = "max 1 (unat (max_attempts self)) - 1"
  obtain r s1 where rep: "report (max_attempts self) (attempts D (pause_of sleep self) (run_body A b) True ?n s) = (r, s1)"
    by fastforce
  have "execute_with_snapshot D (fixed_should_retry sleep self) (run_body A b) s = Some (r, s1)"
    unfolding execute_with_snapshot_def rep [symmetric] by (rule retry_loop_fixed) simp
  moreover have "(case r of Inl e \<Rightarrow> dv s1 = dv s | Inr a \<Rightarrow> executes M b (dv s) a (dv s1))"
    using attempts_alone [where pause = "pause_of sleep self" and b = b and n = ?n and s = s, OF assms(1)] rep assms(2)
    by (auto simp: report_def pause_of_def split: attempt.splits)
  ultimately show ?thesis by (rule that)
qed

lemma balance_transfer_executes:
  assumes "codec_ok c" and "executes M (balance_transfer (Inr h) c a_key b_key) w u w1"
  shows "\<exists>f t fb tb. opt_try (deserialize_value c) (w (m_name M h) (str_bytes a_key)) = Inr (Some f)
      \<and> opt_try (deserialize_value c) (w (m_name M h) (str_bytes b_key)) = Inr (Some t)
      \<and> deserialize_value c fb = Inr (f\<lparr>vb_amount := vb_amount f - 25, vb_version := vb_version f + 1\<rparr>)
      \<and> deserialize_value c tb = Inr (t\<lparr>vb_amount := vb_amount t + 25, vb_version := vb_version t + 1\<rparr>)
      \<and> w1 = upd (upd w (m_name M h) (str_bytes a_key) (Some fb)) (m_name M h) (str_bytes b_key) (Some tb)"
  using assms(2)
  by (auto simp: balance_transfer_def executes_simps executes_try Let_def and_then_ok_or_Inr opt_try_def
      dest!: codec_okD [OF assms(1)] split: if_splits)

lemma optimistic_safe:
  assumes c: "txn_contract A M (life_of D True) (\<lambda>w. dv (snd w))" and sleep: "\<And>n s. dv (sleep n s) = dv s"
    and B: "rocks_contract B N" "m_view N = dv" and cc: "codec_ok c"
    and handle: "\<And>h. handle = Inr h \<Longrightarrow> m_name M h = DEFAULT_COLUMN_FAMILY_NAME"
  shows "safe (\<lambda>_. True) (optimistic_main D A sleep handle B H c s)"
  unfolding optimistic_main_def Let_def dp_writes dp_reads ds_put_def ds_get_def
proof (rule safe_put [OF B(1) cc], rule safe_put [OF B(1) cc], rule safe_put [OF B(1) cc], unfold B(2))
  fix s1 b1 s2 b2 s3 b3
  assume b: "deserialize_value c b2 = Inr \<lparr>vb_account_id = ''bob'', vb_amount = 50, vb_version = 1\<rparr>"
    "deserialize_value c b3 = Inr \<lparr>vb_account_id = ''alice'', vb_amount = 110, vb_version = 2\<rparr>"
    and views: "dv s2 = upd (dv s1) DEFAULT_COLUMN_FAMILY_NAME (as_bytes (KStr ''bob'')) (Some b2)"
    "dv s3 = upd (dv s2) DEFAULT_COLUMN_FAMILY_NAME (as_bytes (KStr ''alice'')) (Some b3)"
  let ?body = "balance_transfer handle c ''alice'' ''bob''"
  obtain r s4 where run: "execute_with_snapshot D (fixed_should_retry sleep fixed_retry_default) (run_body A ?body) s3 = Some (r, s4)"
    and alone: "(case r of Inl e \<Rightarrow> dv s4 = dv s3 | Inr a \<Rightarrow> executes M ?body (dv s3) a (dv s4))"
    by (rule builder_alone [where sleep = sleep and self = fixed_retry_default and b = ?body and s = s3, OF c sleep])
  note get = safe_get [OF B(1), unfolded B(2)]
  show "safe (\<lambda>_. True) (case execute_with_snapshot D (fixed_should_retry sleep fixed_retry_default) (run_body A ?body) s3 of
      None \<Rightarrow> (Panicked, s3)
    | Some (transfer_result, s) \<Rightarrow> try_read s transfer_result (\<lambda>_.
        try_read s (get B c s DEFAULT_COLUMN_FAMILY_NAME (KStr ''alice'')) (\<lambda>alice. unwrap_in s alice (\<lambda>final_alice.
        try_read s (get B c s DEFAULT_COLUMN_FAMILY_NAME (KStr ''bob'')) (\<lambda>bob. unwrap_in s bob (\<lambda>final_bob.
        assert_that s (vb_amount final_alice = 85) (assert_that s (vb_version final_alice = 3) (
        assert_that s (vb_amount final_bob = 75) (assert_that s (vb_version final_bob = 2) (done_with s))))))))))"
    unfolding run option.case prod.case
  proof (rule safe_try_read)
    fix a
    assume "r = Inr a"
    with alone have ex: "executes M ?body (dv s3) a (dv s4)" by simp
    then obtain h where h: "handle = Inr h"
      by (cases handle) (simp_all add: balance_transfer_def executes_simps)
    from balance_transfer_executes [OF cc ex [unfolded h]] handle [OF h] b
    obtain fb tb where "deserialize_value c fb = Inr \<lparr>vb_account_id = ''alice'', vb_amount = 85, vb_version = 3\<rparr>"
      "deserialize_value c tb = Inr \<lparr>vb_account_id = ''bob'', vb_amount = 75, vb_version = 2\<rparr>"
      "dv s4 = upd (upd (dv s3) DEFAULT_COLUMN_FAMILY_NAME (str_bytes ''alice'') (Some fb))
         DEFAULT_COLUMN_FAMILY_NAME (str_bytes ''bob'') (Some tb)"
      by (auto simp: views upd_def)
    then have got: "opt_try (deserialize_value c) (dv s4 DEFAULT_COLUMN_FAMILY_NAME (str_bytes ''alice''))
        = Inr (Some \<lparr>vb_account_id = ''alice'', vb_amount = 85, vb_version = 3\<rparr>)"
      "opt_try (deserialize_value c) (dv s4 DEFAULT_COLUMN_FAMILY_NAME (str_bytes ''bob''))
        = Inr (Some \<lparr>vb_account_id = ''bob'', vb_amount = 75, vb_version = 2\<rparr>)"
      by (simp_all add: upd_def)
    show "safe (\<lambda>_. True) (try_read s4 (get B c s4 DEFAULT_COLUMN_FAMILY_NAME (KStr ''alice'')) (\<lambda>alice.
        unwrap_in s4 alice (\<lambda>final_alice.
        try_read s4 (get B c s4 DEFAULT_COLUMN_FAMILY_NAME (KStr ''bob'')) (\<lambda>bob. unwrap_in s4 bob (\<lambda>final_bob.
        assert_that s4 (vb_amount final_alice = 85) (assert_that s4 (vb_version final_alice = 3) (
        assert_that s4 (vb_amount final_bob = 75) (assert_that s4 (vb_version final_bob = 2) (done_with s4)))))))))"
      by (rule get safe_unwrap safe_assert safe_done | (use got in \<open>auto; fail\<close>))+
  qed
qed

subsection \<open>The race of the optimistic example\<close>

lemma safe_ts_put:
  assumes "rocks_contract A M" and "lookup_ok M H" and "codec_ok c"
    and "\<And>s1 bs. deserialize_value c bs = Inr v \<Longrightarrow> m_view M s1 = upd (m_view M s) cf (as_bytes k) (Some bs) \<Longrightarrow> ends pan Q (kk s1)"
  shows "ends pan Q (try_write (ts_put A H c s cf k v) kk)"
proof (cases "serialize_value c v")
  case (Inl e)
  then show ?thesis by (simp add: ts_put_def prepare_def try_write_def ends_def)
next
  case (Inr bs)
  then have "ts_put A H c s cf k v = ts_put_raw A H s cf k bs"
    by (simp add: ts_put_def ts_put_raw_def prepare_def)
  then show ?thesis
    using ts_put_raw_view [OF assms(1,2), of s cf k bs] assms(4) codec_okD [OF assms(3) Inr]
    by (intro safe_try_write) (auto simp: outcome_def)
qed

lemma transfer_executes_fully:
  assumes "codec_ok c" and "executes M (safe_transfer (Inr h) c a_key b_key amount) w u w1"
  shows "\<exists>f t fb tb. opt_try (deserialize_value c) (w (m_name M h) (str_bytes a_key)) = Inr (Some f)
      \<and> opt_try (deserialize_value c) (w (m_name M h) (str_bytes b_key)) = Inr (Some t)
      \<and> deserialize_value c fb = Inr (f\<lparr>acc_balance := acc_balance f - amount, acc_version := acc_version f + 1\<rparr>)
      \<and> deserialize_value c tb = Inr (t\<lparr>acc_balance := acc_balance t + amount, acc_version := acc_version t + 1\<rparr>)
      \<and> w1 = upd (upd w (m_name M h) (str_bytes a_key) (Some fb)) (m_name M h) (str_bytes b_key) (Some tb)"
  using assms(2)
  by (auto simp: safe_transfer_def executes_simps executes_try Let_def ok_or_def opt_try_def
      dest!: codec_okD [OF assms(1)] split: if_splits option.splits)

text \<open>The two accounts of the example in the database.\<close>

definition accounts_are :: "account codec \<Rightarrow> account \<Rightarrow> account \<Rightarrow> kv_view \<Rightarrow> bool" where
  "accounts_are c a b w \<longleftrightarrow>
     opt_try (deserialize_value c) (w ACCOUNTS_CF (str_bytes ''acc_a'')) = Inr (Some a)
   \<and> opt_try (deserialize_value c) (w ACCOUNTS_CF (str_bytes ''acc_b'')) = Inr (Some b)"

definition move :: "64 word \<Rightarrow> account \<Rightarrow> account" where
  "move n x = x\<lparr>acc_balance := acc_balance x + n, acc_version := acc_version x + 1\<rparr>"

lemma accounts_are_put:
  "accounts_are c a b d \<Longrightarrow> deserialize_value c bs = Inr b1 \<Longrightarrow>
     d1 = upd d ACCOUNTS_CF (as_bytes (KStr ''acc_b'')) (Some bs) \<Longrightarrow> accounts_are c a b1 d1"
  by (simp add: accounts_are_def upd_def opt_try_def)

lemma the_transfer_moves:
  assumes "txn_contract A M (life_of D True) (\<lambda>w. dv (snd w))" and "\<And>n s. dv (sleep n s) = dv s" and "codec_ok c"
    and "\<forall>h. handle = Inr h \<longrightarrow> m_name M h = ACCOUNTS_CF" and "accounts_are c a b (dv s)"
  obtains r s1 where "the_transfer D A sleep handle c ''acc_b'' ''acc_a'' 10 s = Some (r, s1)"
    and "r = Inr () \<Longrightarrow> accounts_are c (move 10 a) (move (- 10) b) (dv s1)"
proof (rule builder_alone [where sleep = sleep and self = "\<lparr>max_attempts = 5, backoff = 10000000\<rparr>"
      and b = "safe_transfer handle c ''acc_b'' ''acc_a'' 10" and s = s, OF assms(1,2)])
  fix r s1
  assume run: "execute_with_snapshot D (fixed_should_retry sleep \<lparr>max_attempts = 5, backoff = 10000000\<rparr>)
      (run_body A (safe_transfer handle c ''acc_b'' ''acc_a'' 10)) s = Some (r, s1)"
    and alone: "case r of Inl e \<Rightarrow> dv s1 = dv s
      | Inr x \<Rightarrow> executes M (safe_transfer handle c ''acc_b'' ''acc_a'' 10) (dv s) x (dv s1)"
  show thesis
  proof (rule that)
    show "the_transfer D A sleep handle c ''acc_b'' ''acc_a'' 10 s = Some (r, s1)" using run by (simp add: the_transfer_def)
    assume "r = Inr ()"
    with alone have ex: "executes M (safe_transfer handle c ''acc_b'' ''acc_a'' 10) (dv s) () (dv s1)" by simp
    then obtain h where h: "handle = Inr h" by (cases handle) (simp_all add: safe_transfer_def executes_simps)
    from transfer_executes_fully [OF assms(3) ex [unfolded h]] assms(4,5) h
    show "accounts_are c (move 10 a) (move (- 10) b) (dv s1)"
      by (auto simp: accounts_are_def move_def upd_def opt_try_def)
  qed
qed

lemma accounts_are_reads:
  assumes "accounts_are c a b d"
  shows "opt_try (deserialize_value c) (d ACCOUNTS_CF (as_bytes (KStr ''acc_a''))) = Inr x \<Longrightarrow> x = Some a"
    and "opt_try (deserialize_value c) (d ACCOUNTS_CF (as_bytes (KStr ''acc_b''))) = Inr x \<Longrightarrow> x = Some b"
  using assms by (simp_all add: accounts_are_def)

lemma moment_eqs:
  "(BetweenReadAndWrite = BeforeRead) = False" "(BetweenReadAndWrite = AfterWrite) = False"
  "(BeforeRead = BetweenReadAndWrite) = False" "(BeforeRead = AfterWrite) = False"
  "(AfterWrite = BeforeRead) = False" "(AfterWrite = BetweenReadAndWrite) = False"
  by simp_all

lemma joins_simps:
  "joins True run r s k = (case run s of None \<Rightarrow> (Panicked, s) | Some (r, s) \<Rightarrow> k r s)"
  "joins False run r s k = k r s"
  by (simp_all add: joins_def)

text \<open>
  The example does what it asserts unless the transfer commits between the read and the write of the main thread:
  the write then undoes it, and the final assertions fail.
\<close>

definition race_setting ::
    "('s, 't) txn_db \<Rightarrow> ('t \<times> 's, 'h) rocks_api \<Rightarrow> ('t \<times> 's, 'h) rocks_meaning \<Rightarrow> (nat \<Rightarrow> 's \<Rightarrow> 's)
     \<Rightarrow> 'h store_result \<Rightarrow> account codec \<Rightarrow> ('s, 'g) rocks_api \<Rightarrow> ('s, 'g) rocks_meaning \<Rightarrow> ('s, 'g) cf_lookup \<Rightarrow> bool" where
  "race_setting D A M sleep handle c B N H \<longleftrightarrow>
     txn_contract A M (life_of D True) (\<lambda>w. m_view N (snd w)) \<and> (\<forall>n s. m_view N (sleep n s) = m_view N s)
   \<and> codec_ok c \<and> (\<forall>h. handle = Inr h \<longrightarrow> m_name M h = ACCOUNTS_CF) \<and> rocks_contract B N \<and> lookup_ok N H"

abbreviation other_thread ::
    "('s, 't) txn_db \<Rightarrow> ('t \<times> 's, 'h) rocks_api \<Rightarrow> (nat \<Rightarrow> 's \<Rightarrow> 's) \<Rightarrow> 'h store_result \<Rightarrow> account codec
     \<Rightarrow> 's \<Rightarrow> (unit store_result \<times> 's) option" where
  "other_thread D A sleep handle c \<equiv> the_transfer D A sleep handle c ''acc_b'' ''acc_a'' 10"

lemma race_moves:
  assumes "race_setting D A M sleep handle c B N H" and "accounts_are c a b (m_view N s)"
  obtains r s1 where "other_thread D A sleep handle c s = Some (r, s1)"
    and "r = Inr () \<Longrightarrow> accounts_are c (move 10 a) (move (- 10) b) (m_view N s1)"
  using assms the_transfer_moves [of A M D "m_view N" sleep c handle a b s thesis] by (simp add: race_setting_def)

lemma race_put:
  assumes "race_setting D A M sleep handle c B N H"
    and "\<And>s1 bs. deserialize_value c bs = Inr v \<Longrightarrow>
      m_view N s1 = upd (m_view N s) ACCOUNTS_CF (as_bytes k) (Some bs) \<Longrightarrow> ends pan Q (kk s1)"
  shows "ends pan Q (try_write (ts_put B H c s ACCOUNTS_CF k v) kk)"
  by (rule safe_ts_put [of B N H]) (use assms in \<open>simp_all add: race_setting_def\<close>)

lemma race_reads:
  assumes "race_setting D A M sleep handle c B N H" and "accounts_are c a b (m_view N s)"
  shows "ends pan Q (k a) \<Longrightarrow> ends pan Q (try_read s (ts_get B H c s ACCOUNTS_CF (KStr ''acc_a'')) (\<lambda>x. unwrap_in s x k))"
    and "ends pan Q (k b) \<Longrightarrow> ends pan Q (try_read s (ts_get B H c s ACCOUNTS_CF (KStr ''acc_b'')) (\<lambda>x. unwrap_in s x k))"
proof -
  have c: "rocks_contract B N" "lookup_ok N H" using assms(1) by (simp_all add: race_setting_def)
  show "ends pan Q (k a) \<Longrightarrow> ends pan Q (try_read s (ts_get B H c s ACCOUNTS_CF (KStr ''acc_a'')) (\<lambda>x. unwrap_in s x k))"
    by (rule safe_ts_get [OF c], rule safe_unwrap) (use accounts_are_reads(1) [OF assms(2)] in auto)
  show "ends pan Q (k b) \<Longrightarrow> ends pan Q (try_read s (ts_get B H c s ACCOUNTS_CF (KStr ''acc_b'')) (\<lambda>x. unwrap_in s x k))"
    by (rule safe_ts_get [OF c], rule safe_unwrap) (use accounts_are_reads(2) [OF assms(2)] in auto)
qed

lemma race_start:
  assumes "deserialize_value c ba = Inr a" and "d1 = upd d ACCOUNTS_CF (as_bytes (KStr ''acc_a'')) (Some ba)"
    and "deserialize_value c bb = Inr b" and "d2 = upd d1 ACCOUNTS_CF (as_bytes (KStr ''acc_b'')) (Some bb)"
  shows "accounts_are c a b d2"
  using assms by (simp add: accounts_are_def upd_def opt_try_def)

lemma deposit_moves: "y\<lparr>acc_balance := acc_balance y + 50, acc_version := acc_version y + 1\<rparr> = move 50 y"
  by (simp add: move_def)

lemmas race_unfolds = optimistic_transaction_main_def Let_def moment_eqs simp_thms joins_simps deposit_moves

lemma transfer_lost:
  assumes S: "race_setting D A M sleep handle c B N H"
  shows "fst (optimistic_transaction_main (other_thread D A sleep handle c) B H c BetweenReadAndWrite s)
    \<noteq> ending_of_main.Returned (Inr ())"
proof -
  have "ends True (\<lambda>_. False) (optimistic_transaction_main (other_thread D A sleep handle c) B H c BetweenReadAndWrite s)"
    unfolding race_unfolds
  proof (rule race_put [OF S], rule race_put [OF S], goal_cases)
    case (1 s1 ba s2 bb)
    note accs = race_start [OF this]
    show ?case
    proof (rule race_moves [OF S accs], goal_cases)
      case (1 r s3)
      note moved = this
      show ?case
        unfolding moved(1) option.case prod.case
      proof (rule race_reads(2) [OF S accs], rule race_put [OF S], goal_cases)
        case (1 s4 bs)
        show ?case
        proof (cases r)
          case (Inr u)
          note final = race_reads [OF S accounts_are_put [OF moved(2) 1]]
          show ?thesis
            by (rule safe_assert, simp add: Inr, rule final(1), simp add: Inr, rule final(2), simp add: Inr)
               (simp add: move_def assert_that_def ends_def)
        qed (simp add: ends_panic)
      qed
    qed
  qed
  then show ?thesis by (simp add: ends_def)
qed

text \<open>Where the transfer of covered accounts does not fail.\<close>

lemma race_moved:
  assumes S: "race_setting D A M sleep handle c B N H"
    and works: "\<And>a b s1 e s2. accounts_are c a b (m_view N s1) \<Longrightarrow> sint (10 :: 64 word) \<le> sint (acc_balance b) \<Longrightarrow>
      other_thread D A sleep handle c s1 \<noteq> Some (Inl e, s2)"
    and accs: "accounts_are c a b (m_view N s)" and "sint (10 :: 64 word) \<le> sint (acc_balance b)"
    and k: "\<And>s2. accounts_are c (move 10 a) (move (- 10) b) (m_view N s2) \<Longrightarrow> ends pan Q (k (Inr ()) s2)"
  shows "ends pan Q (case other_thread D A sleep handle c s of None \<Rightarrow> (Panicked, s) | Some (r, s) \<Rightarrow> k r s)"
proof (rule race_moves [OF S accs])
  fix r s2
  assume run: "other_thread D A sleep handle c s = Some (r, s2)"
    and ok: "r = Inr () \<Longrightarrow> accounts_are c (move 10 a) (move (- 10) b) (m_view N s2)"
  with works [OF accs assms(4)] have "r = Inr ()" by (cases r) auto
  with run ok k show ?thesis by simp
qed

lemma transfer_before:
  assumes S: "race_setting D A M sleep handle c B N H"
    and works: "\<And>a b s1 e s2. accounts_are c a b (m_view N s1) \<Longrightarrow> sint (10 :: 64 word) \<le> sint (acc_balance b) \<Longrightarrow>
      other_thread D A sleep handle c s1 \<noteq> Some (Inl e, s2)"
  shows "safe (\<lambda>_. True) (optimistic_transaction_main (other_thread D A sleep handle c) B H c BeforeRead s)"
  unfolding race_unfolds
proof (rule race_put [OF S], rule race_put [OF S], goal_cases)
  case (1 s1 ba s2 bb)
  show ?case
  proof (rule race_moved [OF S works race_start [OF 1]], assumption, assumption, goal_cases)
    case (2 s3)
    show ?case
    proof (rule race_reads(2) [OF S 2], rule race_put [OF S], goal_cases)
      case (1 s4 bs)
      note final = race_reads [OF S accounts_are_put [OF 2 1]]
      show ?case
        by (rule safe_assert, simp, rule final(1), rule final(2)) (simp add: move_def assert_that_def ends_def done_with_def)
    qed
  qed simp
qed

lemma transfer_after:
  assumes S: "race_setting D A M sleep handle c B N H"
    and works: "\<And>a b s1 e s2. accounts_are c a b (m_view N s1) \<Longrightarrow> sint (10 :: 64 word) \<le> sint (acc_balance b) \<Longrightarrow>
      other_thread D A sleep handle c s1 \<noteq> Some (Inl e, s2)"
  shows "safe (\<lambda>_. True) (optimistic_transaction_main (other_thread D A sleep handle c) B H c AfterWrite s)"
  unfolding race_unfolds
proof (rule race_put [OF S], rule race_put [OF S], goal_cases)
  case (1 s1 ba s2 bb)
  note accs = race_start [OF 1]
  show ?case
  proof (rule race_reads(2) [OF S accs], rule race_put [OF S], goal_cases)
    case (1 s3 bs)
    show ?case
    proof (rule race_moved [OF S works accounts_are_put [OF accs 1]], assumption,
        assumption, goal_cases)
      case (2 s4)
      note final = race_reads [OF S 2]
      show ?case
        by (rule safe_assert, simp, rule final(1), rule final(2)) (simp add: move_def assert_that_def ends_def done_with_def)
    qed (simp add: move_def)
  qed
qed

section \<open>Instances\<close>

text \<open>
  The database is the left one of two in memory, the transaction works on the right one; in the loop of
  the builder the transaction comes first.
\<close>

lemma left_view: "m_view left_meaning = (\<lambda>w. mem_view (fst w))"
  by (simp add: left_meaning_def part_meaning_def)

lemma left_contract: "rocks_contract left_db left_meaning"
  unfolding left_db_def left_meaning_def by (intro part_contract rocks_contract_mem) simp

lemma left_iterators: "iter_contract left_db left_meaning" "rows_only left_db"
proof -
  show "iter_contract left_db left_meaning"
    using iter_contract_mem unfolding iter_contract_def left_meaning_def part_target
    unfolding left_db_def on_part_def part_meaning_def rocks_api.simps rocks_meaning.simps by blast
  show "rows_only left_db"
    unfolding rows_only_def left_db_def on_part_def rocks_api.simps mem_api_simps by blast
qed

definition copying_db :: "(mem, mem) txn_db" where
  "copying_db = \<lparr>tdb_begin = (\<lambda>snapshot s. (s, s)), tdb_commit = (\<lambda>t s. (Inr (), t)), tdb_drop = (\<lambda>t s. s)\<rparr>"

lemma copying_contract: "txn_contract left_db left_meaning (life_of copying_db True) (\<lambda>w. mem_view (snd w))"
  using left_contract
  by (simp add: txn_contract_def left_view life_of_def copying_db_def case_prod_beta)
     (simp add: left_db_def on_part_def case_prod_beta)

definition sample_accounts :: "bank_account codec" where
  "sample_accounts = table_codec [(\<lparr>ba_id = ''A'', ba_balance = 100\<rparr>, [1]), (\<lparr>ba_id = ''B'', ba_balance = 50\<rparr>, [2]),
     (\<lparr>ba_id = ''A'', ba_balance = 75\<rparr>, [3]), (\<lparr>ba_id = ''B'', ba_balance = 75\<rparr>, [4])]"

definition two_accounts :: mem where
  "two_accounts = (opened [''default''])(''default'' := Some [(str_bytes ''acc:A'', [1]), (str_bytes ''acc:B'', [2])])"

definition main_and_logs :: cf_txn_store where
  "main_and_logs = \<lparr>ts_cf_names = [''default'', CF_MAIN, CF_LOGS], ts_path = ''db''\<rparr>"

abbreviation store_lookup :: "(mem \<times> mem, string) cf_lookup" where
  "store_lookup \<equiv> txn_get_cf_handle mem_txn_api main_and_logs"

lemma store_lookup_ok: "lookup_ok mem_txn_meaning store_lookup" "lookup_ok left_meaning store_lookup"
  using lookup_ok_txn [OF rocks_contract_mem_txn]
  by (simp_all add: lookup_ok_def mem_txn_meaning_def left_meaning_def part_meaning_def)

lemma codec_ok_accounts: "codec_ok sample_accounts"
  by (simp add: sample_accounts_def codec_ok_table)

lemma sample_accounts_simps:
  "serialize_value sample_accounts \<lparr>ba_id = ''A'', ba_balance = 75\<rparr> = Inr [3]"
  "serialize_value sample_accounts \<lparr>ba_id = ''B'', ba_balance = 75\<rparr> = Inr [4]"
  "serialize_value sample_accounts \<lparr>ba_id = ''A'', ba_balance = 100\<rparr> = Inr [1]"
  "serialize_value sample_accounts \<lparr>ba_id = ''B'', ba_balance = 50\<rparr> = Inr [2]"
  "deserialize_value sample_accounts [1] = Inr \<lparr>ba_id = ''A'', ba_balance = 100\<rparr>"
  "deserialize_value sample_accounts [2] = Inr \<lparr>ba_id = ''B'', ba_balance = 50\<rparr>"
  by (simp_all add: sample_accounts_def table_codec_def serialize_value_def deserialize_value_def)

lemma first_transfer_runs:
  assumes "d ''default'' = Some es" and "map_of es (str_bytes ''acc:A'') = Some [1]"
    and "map_of es (str_bytes ''acc:B'') = Some [2]"
  shows "fst (transfer_funds mem_txn_api H mem_txn_life sample_accounts ''acc:A'' ''acc:B'' 25 (d, s)) = Inr ()"
  using assms
  by (simp add: transfer_funds_def dt_transaction_context_def ctx_new_def begin_transaction_def or_drop_def ctx_get_def
      ctx_set_def ctx_check_completed_def txn_get_in_txn_def put_in_txn_cf_def mem_txn_life_def target_by_def
      mem_txn_api_def sample_accounts_simps ok_or_def lift_write_def ctx_commit_def ctx_drop_def mem_eval)

text \<open>The first transfer of the example does not fail, nor does the first transaction of the other.\<close>

definition sample_logs :: "string codec" where
  "sample_logs = \<lparr>codec_ser = (\<lambda>x. Inr (str_bytes x)), codec_de = (\<lambda>bs. Inr (bytes_str bs))\<rparr>"

definition sample_txn_items :: "transactional_item codec" where
  "sample_txn_items = table_codec [(\<lparr>ti_id = ''item-001'', ti_version = 1, ti_payload = ''Initial version''\<rparr>, [1]),
     (\<lparr>ti_id = ''item-002'', ti_version = 1, ti_payload = ''This should not be saved''\<rparr>, [2])]"

lemma codec_ok_logs: "codec_ok sample_logs"
  by (simp add: codec_ok_def sample_logs_def)

lemma codec_ok_txn_items: "codec_ok sample_txn_items"
  by (simp add: sample_txn_items_def codec_ok_table)

lemma first_update_runs:
  "\<exists>m. fst (execute_transaction mem_txn_life (update_item mem_txn_api store_lookup sample_txn_items sample_logs
     ''item-001'' ''Initial version'' log_key) (opened [''default'', CF_MAIN, CF_LOGS], s)) = Inr m"
  by (simp add: execute_transaction_def begin_transaction_def update_item_def try_txn_read_def try_txn_write_def
      txn_get_in_txn_def put_in_txn_cf_def mem_txn_life_def target_by_def txn_get_cf_handle_def main_and_logs_def
      mem_txn_api_def sample_txn_items_def sample_logs_def table_codec_def serialize_value_def ok_or_def lift_write_def
      opened_def CF_MAIN_def CF_LOGS_def Let_def mem_eval)

section \<open>Properties\<close>



text \<open>
  C26: The programs with transactions do what they assert, with no other program at work on the database.
  \<open>transactional\<close> and \<open>cf_txn_store_operations\<close>, which only print an error of their first transaction and
  then assert what it should have done, fail an assertion only when that transaction has failed;
  \<open>cf_optimistic_txn_store_operations\<close> never does, and its retry loop returns.
\<close>

theorem transaction_examples_hold:
  assumes "txn_contract A M L dbv" and "lookup_ok M H"
    and "rocks_contract B N" and "iter_contract B N" and "rows_only B" and "m_view N = dbv" and "lookup_ok N H"
    and "codec_ok accounts" and "codec_ok items" and "codec_ok strings" and "codec_ok balances"
    and "\<And>w1 w2 e. dt_put B accounts w (KStr ''acc:A'') \<lparr>ba_id = ''A'', ba_balance = 100\<rparr> = (Inr (), w1) \<Longrightarrow>
      dt_put B accounts w1 (KStr ''acc:B'') \<lparr>ba_id = ''B'', ba_balance = 50\<rparr> = (Inr (), w2) \<Longrightarrow>
      fst (transfer_funds A H L accounts ''acc:A'' ''acc:B'' 25 w2) \<noteq> Inl e"
    and "dbv w CF_MAIN (str_bytes ''item-001'') = None" and "dbv w CF_MAIN (str_bytes ''item-002'') = None"
    and "empty_family (dbv w) CF_LOGS"
    and "\<And>e. fst (execute_transaction L (update_item A H items strings ''item-001'' ''Initial version'' (''log:'' @ now)) w)
      \<noteq> Inl e"
    and "txn_contract A' M' (life_of D True) (\<lambda>w. dv (snd w))" and "\<And>n s. dv (sleep n s) = dv s"
    and "rocks_contract B' N'" and "m_view N' = dv"
    and "\<And>h. handle = Inr h \<Longrightarrow> m_name M' h = DEFAULT_COLUMN_FAMILY_NAME"
  shows "fst (transactional_main A H L B accounts w) \<noteq> Panicked
    \<and> fst (cf_txn_main A H L B items strings dec now w) \<noteq> Panicked
    \<and> fst (optimistic_main D A' sleep handle B' H' balances s) \<noteq> Panicked"
proof (intro conjI)
  show "fst (transactional_main A H L B accounts w) \<noteq> Panicked"
    using transactional_safe [OF assms(1-3,6,8,12)] by (simp add: ends_def)
  show "fst (cf_txn_main A H L B items strings dec now w) \<noteq> Panicked"
    using cf_txn_safe [OF assms(1-7,9,10,13-16)] by (simp add: ends_def)
  show "fst (optimistic_main D A' sleep handle B' H' balances s) \<noteq> Panicked"
    using optimistic_safe [OF assms(17-20,11,21)] by (simp add: ends_def)
qed

definition sample_balances :: "versioned_balance codec" where
  "sample_balances = table_codec [(\<lparr>vb_account_id = ''alice'', vb_amount = 100, vb_version = 1\<rparr>, [1]),
     (\<lparr>vb_account_id = ''bob'', vb_amount = 50, vb_version = 1\<rparr>, [2]),
     (\<lparr>vb_account_id = ''alice'', vb_amount = 110, vb_version = 2\<rparr>, [3])]"

lemma puts_run:
  assumes "dt_put left_db sample_accounts w (KStr ''acc:A'') \<lparr>ba_id = ''A'', ba_balance = 100\<rparr> = (Inr (), w1)"
    and "dt_put left_db sample_accounts w1 (KStr ''acc:B'') \<lparr>ba_id = ''B'', ba_balance = 50\<rparr> = (Inr (), w2)"
    and "fst w ''default'' = Some []"
  shows "fst w2 ''default'' = Some [(str_bytes ''acc:B'', [2]), (str_bytes ''acc:A'', [1])]"
  using assms
  by (auto simp: dt_writes ds_put_def put_def left_db_def on_part_def sample_accounts_simps mem_eval split: option.splits)

theorem transaction_examples_hold_witness:
  "(let d = opened [''default'', CF_MAIN, CF_LOGS] in
      fst (transactional_main mem_txn_api store_lookup mem_txn_life left_db sample_accounts (d, d)) \<noteq> Panicked
    \<and> fst (cf_txn_main mem_txn_api store_lookup mem_txn_life left_db sample_txn_items sample_logs
        (\<lambda>bs. Inr (bytes_str bs)) ''17'' (d, d)) \<noteq> Panicked
    \<and> fst (optimistic_main copying_db left_db (\<lambda>_ s. s) (Inr ''default'') mem_api (\<lambda>_ _. Inr ''default'')
        sample_balances d) \<noteq> Panicked)"
proof -
  let ?d = "opened [''default'', CF_MAIN, CF_LOGS]"
  have d: "?d ''default'' = Some []" by (simp add: opened_def)
  have empty: "mem_view (fst (?d, ?d)) cf k = None" "empty_family (mem_view (fst (?d, ?d))) cf" for cf k
    using opened_empty [of "[''default'', CF_MAIN, CF_LOGS]" cf] by (simp_all add: empty_family_def)
  have first: "fst (transfer_funds mem_txn_api store_lookup mem_txn_life sample_accounts ''acc:A'' ''acc:B'' 25 w2) \<noteq> Inl e"
    if "dt_put left_db sample_accounts (?d, ?d) (KStr ''acc:A'') \<lparr>ba_id = ''A'', ba_balance = 100\<rparr> = (Inr (), w1)"
      "dt_put left_db sample_accounts w1 (KStr ''acc:B'') \<lparr>ba_id = ''B'', ba_balance = 50\<rparr> = (Inr (), w2)" for w1 w2 e
    using first_transfer_runs [where d = "fst w2" and s = "snd w2" and H = store_lookup] puts_run [OF that] d by simp
  have update: "fst (execute_transaction mem_txn_life (update_item mem_txn_api store_lookup sample_txn_items sample_logs
      ''item-001'' ''Initial version'' (''log:'' @ ''17'')) (?d, ?d)) \<noteq> Inl e" for e
    using first_update_runs [of "''log:'' @ ''17''" ?d] by auto
  have bal: "codec_ok sample_balances" by (simp add: sample_balances_def codec_ok_table)
  have handle: "m_name left_meaning h = DEFAULT_COLUMN_FAMILY_NAME" if "Inr ''default'' = (Inr h :: string store_result)" for h
    using that by (simp add: left_meaning_def part_meaning_def DEFAULT_COLUMN_FAMILY_NAME_def)
  show ?thesis
    unfolding Let_def
    by (rule transaction_examples_hold [OF txn_contract_mem store_lookup_ok(1) left_contract left_iterators left_view
          store_lookup_ok(2) codec_ok_accounts codec_ok_txn_items codec_ok_logs bal first empty(1,1,2) update
          copying_contract _ rocks_contract_mem _ handle]) simp_all
qed

end
