(* ===== verification/Background.thy ===== *)
theory Background
  imports Compaction_Filter
begin

text \<open>
  What the merge router and the compaction filter router mean for the values that are read, when the
  database calls them in the background: it combines operands of a key by partial merges, merges some
  of them into the value, and runs the filter over rows, at moments of its own choosing, while routes
  are registered and writes are made.

  RocksDB is a parameter of these calls only through the choices that it may make, which are the
  rules of the step relations.
\<close>

section \<open>Merging in the background\<close>

text \<open>
  What is stored for a key: a value, if there is one, and the operands on top of it, oldest first. The
  rules are those of the documentation: adjacent operands may be replaced by the result of a
  partial merge, when there is one; the oldest operands may be merged into the value; the result
  that is read is the full merge of whatever is left.
\<close>

type_synonym stored = "bytes option \<times> bytes list"

definition read_merged :: "(bytes option \<Rightarrow> bytes list \<Rightarrow> bytes option) \<Rightarrow> stored \<Rightarrow> bytes option" where
  "read_merged full c = (if snd c = [] then fst c else full (fst c) (snd c))"

inductive combine ::
    "(bytes option \<Rightarrow> bytes list \<Rightarrow> bytes option) \<Rightarrow> (bytes list \<Rightarrow> bytes option) \<Rightarrow> stored \<Rightarrow> stored \<Rightarrow> bool"
  for full partial where
  operands: "partial ys = Some r \<Longrightarrow> 2 \<le> length ys \<Longrightarrow>
     combine full partial (e, xs @ ys @ zs) (e, xs @ r # zs)"
| merged_in: "full e xs = Some v \<Longrightarrow> xs \<noteq> [] \<Longrightarrow> combine full partial (e, xs @ zs) (Some v, zs)"

text \<open>What a pair of handlers of one key must promise so that the choices do not show.\<close>

definition merge_laws ::
    "(bytes option \<Rightarrow> bytes list \<Rightarrow> bytes option) \<Rightarrow> (bytes list \<Rightarrow> bytes option) \<Rightarrow> bool" where
  "merge_laws full partial \<longleftrightarrow>
     (\<forall>e xs ys v. full e xs = Some v \<longrightarrow> xs \<noteq> [] \<longrightarrow> ys \<noteq> [] \<longrightarrow> full (Some v) ys = full e (xs @ ys))
   \<and> (\<forall>e xs ys zs r. partial ys = Some r \<longrightarrow> 2 \<le> length ys \<longrightarrow> full e (xs @ r # zs) = full e (xs @ ys @ zs))"

locale merge_handlers =
  fixes full :: "bytes option \<Rightarrow> bytes list \<Rightarrow> bytes option" and partial :: "bytes list \<Rightarrow> bytes option"
  assumes laws: "merge_laws full partial"
begin

lemma in_steps: "full e xs = Some v \<Longrightarrow> xs \<noteq> [] \<Longrightarrow> ys \<noteq> [] \<Longrightarrow> full (Some v) ys = full e (xs @ ys)"
  by (erule (2) laws [unfolded merge_laws_def, THEN conjunct1, rule_format])

lemma in_parts: "partial ys = Some r \<Longrightarrow> 2 \<le> length ys \<Longrightarrow> full e (xs @ r # zs) = full e (xs @ ys @ zs)"
  by (erule (1) laws [unfolded merge_laws_def, THEN conjunct2, rule_format])

text \<open>\<open>ops\<close> on \<open>e\<close> stand for \<open>hist\<close> on \<open>e0\<close>, and will whatever comes on top.\<close>

definition stands_for :: "bytes option \<Rightarrow> bytes list \<Rightarrow> stored \<Rightarrow> bool" where
  "stands_for e0 hist c \<longleftrightarrow>
     (hist = [] \<longrightarrow> c = (e0, [])) \<and> (snd c = [] \<longrightarrow> hist \<noteq> [] \<longrightarrow> fst c = full e0 hist)
   \<and> (\<forall>ys. snd c @ ys \<noteq> [] \<longrightarrow> full (fst c) (snd c @ ys) = full e0 (hist @ ys))"

lemma stands_start: "stands_for e [] (e, [])"
  by (simp add: stands_for_def)

lemma stands_push: "stands_for e0 hist (e, ops) \<Longrightarrow> stands_for e0 (hist @ [x]) (e, ops @ [x])"
  by (simp add: stands_for_def)

lemma stands_combine:
  assumes "combine full partial c d" and "stands_for e0 hist c"
  shows "stands_for e0 hist d"
  using assms
proof (cases rule: combine.cases)
  case (operands ys r e xs zs)
  have "ys \<noteq> []" using operands(4) by auto
  then have "hist \<noteq> []" and all: "full e (xs @ ys @ zs @ us) = full e0 (hist @ us)" for us
    using assms(2) unfolding operands(1) by (auto simp: stands_for_def)
  have "full e (xs @ r # zs @ us) = full e0 (hist @ us)" for us
    by (rule trans [OF in_parts [OF operands(3,4)] all])
  with \<open>hist \<noteq> []\<close> show ?thesis unfolding operands(2) by (simp add: stands_for_def)
next
  case (merged_in e xs v zs)
  have more: "full (Some v) (zs @ ys) = full e (xs @ zs @ ys)" if "zs @ ys \<noteq> []" for ys
    by (rule in_steps [OF merged_in(3,4) that])
  have all: "full e (xs @ zs @ ys) = full e0 (hist @ ys)" for ys
    using assms(2) merged_in by (simp add: stands_for_def)
  have "hist \<noteq> []" using assms(2) merged_in by (auto simp: stands_for_def)
  moreover have "Some v = full e0 hist" if "zs = []" using all [of "[]"] merged_in(3) that by simp
  ultimately show ?thesis
    using more all by (auto simp: stands_for_def merged_in(2))
qed

lemma stands_read: "stands_for e0 hist c \<Longrightarrow> hist \<noteq> [] \<Longrightarrow> read_merged full c = full e0 hist"
  unfolding stands_for_def read_merged_def by (cases "snd c = []") (auto dest: spec [of _ "[]"])

end

text \<open>The default functions of the crate are such a pair: a partial merge is never made.\<close>

interpretation default_merge: merge_handlers "default_full_merge k" "default_partial_merge k None" for k
  by unfold_locales
     (auto simp: merge_laws_def default_full_merge_concat default_partial_merge_def split: option.splits)

lemma unrouted_merge:
  assumes "\<And>s. from_utf8 k = Some s \<Longrightarrow>
      router_at R (full_merge_router st) s = None \<and> router_at R (partial_merge_router st) s = None"
  shows "router_full_merge_fn R st k = default_full_merge k"
    and "router_partial_merge_fn R st k = default_partial_merge k"
  using assms
  by (auto simp: router_full_merge_fn_def router_partial_merge_fn_def fun_eq_iff split: option.splits)

section \<open>Merges among registrations\<close>

text \<open>
  The tables, what is stored for the key \<open>k\<close>, and the operands written to it so far. The routes that are
  registered meanwhile are literal and are not for \<open>k\<close>.
\<close>

inductive merging ::
    "('r, 'p merge_route_handler, 'p) router_api \<Rightarrow> bytes \<Rightarrow> 'r statics \<Rightarrow> bytes option
     \<Rightarrow> 'r statics \<times> stored \<times> bytes list \<Rightarrow> bool"
  for R k st0 e0 where
  start: "merging R k st0 e0 (st0, (e0, []), [])"
| operand: "merging R k st0 e0 (st, (e, ops), hist) \<Longrightarrow> merging R k st0 e0 (st, (e, ops @ [x]), hist @ [x])"
| background: "merging R k st0 e0 (st, c, hist) \<Longrightarrow>
     combine (router_full_merge_fn R st k) (router_partial_merge_fn R st k None) c d \<Longrightarrow>
     merging R k st0 e0 (st, d, hist)"
| full_route: "merging R k st0 e0 (st, c, hist) \<Longrightarrow> literal pat \<Longrightarrow> from_utf8 k \<noteq> Some pat \<Longrightarrow>
     add_full_merge_route R b pat h st = (res, b1, st1) \<Longrightarrow> merging R k st0 e0 (st1, c, hist)"
| partial_route: "merging R k st0 e0 (st, c, hist) \<Longrightarrow> literal pat \<Longrightarrow> from_utf8 k \<noteq> Some pat \<Longrightarrow>
     add_partial_merge_route R b pat h st = (res, b1, st1) \<Longrightarrow> merging R k st0 e0 (st1, c, hist)"

lemma full_route_elsewhere:
  assumes "router_contract R" and "literal pat" and "from_utf8 k \<noteq> Some pat"
    and "add_full_merge_route R b pat h st = (res, b1, st1)"
  shows "router_full_merge_fn R st1 k = router_full_merge_fn R st k
    \<and> router_partial_merge_fn R st1 k = router_partial_merge_fn R st k"
proof (cases res)
  case (Inl e)
  with assms(4) have "st1 = st" by (auto dest: failed_route)
  then show ?thesis by simp
next
  case (Inr u)
  with full_route_effect [OF assms(1,2)] assms(3,4) show ?thesis by (fastforce simp: fun_eq_iff)
qed

lemma partial_route_elsewhere:
  assumes "router_contract R" and "literal pat" and "from_utf8 k \<noteq> Some pat"
    and "add_partial_merge_route R b pat h st = (res, b1, st1)"
  shows "router_full_merge_fn R st1 k = router_full_merge_fn R st k
    \<and> router_partial_merge_fn R st1 k = router_partial_merge_fn R st k"
proof (cases res)
  case (Inl e)
  with assms(4) have "st1 = st" by (auto dest: failed_route)
  then show ?thesis by simp
next
  case (Inr u)
  with partial_route_effect [OF assms(1,2)] assms(3,4) show ?thesis by (fastforce simp: fun_eq_iff)
qed

lemma merging_stands:
  assumes "router_contract R"
    and "merge_laws (router_full_merge_fn R st0 k) (router_partial_merge_fn R st0 k None)"
    and "merging R k st0 e0 c"
  shows "case c of (st, d, hist) \<Rightarrow>
      router_full_merge_fn R st k = router_full_merge_fn R st0 k
    \<and> router_partial_merge_fn R st k = router_partial_merge_fn R st0 k
    \<and> merge_handlers.stands_for (router_full_merge_fn R st0 k) e0 hist d"
proof -
  have mh: "merge_handlers (router_full_merge_fn R st0 k) (router_partial_merge_fn R st0 k None)"
    by (rule merge_handlers.intro) (rule assms(2))
  note stands = merge_handlers.stands_start [OF mh] merge_handlers.stands_push [OF mh]
  show ?thesis
    using assms(3)
    by (induction rule: merging.induct)
       (auto simp: stands dest: merge_handlers.stands_combine [OF mh]
         full_route_elsewhere [OF assms(1)] partial_route_elsewhere [OF assms(1)])
qed

section \<open>Compactions among registrations and writes\<close>

text \<open>What a compaction makes of a row: the decision of the filter is carried out.\<close>

definition compact_row :: "filter_handler \<Rightarrow> u32 \<Rightarrow> bytes \<Rightarrow> bytes option \<Rightarrow> bytes option" where
  "compact_row f level k x = (case x of None \<Rightarrow> None | Some v \<Rightarrow>
     (case f level k v of FilterKeep \<Rightarrow> Some v | FilterRemove \<Rightarrow> None | FilterChange v1 \<Rightarrow> Some v1))"

text \<open>The table, the rows, and for each key what was last written to it.\<close>

inductive maintained ::
    "('r \<Rightarrow> filter_handler) \<Rightarrow> ('r \<Rightarrow> 'r \<Rightarrow> bool) \<Rightarrow> 'r \<times> (bytes \<Rightarrow> bytes option) \<times> (bytes \<Rightarrow> bytes option) \<Rightarrow> bool"
  for decide register where
  start: "maintained decide register (r, w, w)"
| row_written: "maintained decide register (r, w, g) \<Longrightarrow> maintained decide register (r, w(k := x), g(k := x))"
| row_compacted: "maintained decide register (r, w, g) \<Longrightarrow>
     maintained decide register (r, w(k := compact_row (decide r) level k (w k)), g)"
| registered: "maintained decide register (r, w, g) \<Longrightarrow> register r r1 \<Longrightarrow> maintained decide register (r1, w, g)"

locale routing_table =
  fixes decide :: "'r \<Rightarrow> filter_handler" and register :: "'r \<Rightarrow> 'r \<Rightarrow> bool" and routed :: "'r \<Rightarrow> bytes \<Rightarrow> bool"
  assumes unrouted_kept: "\<not> routed r k \<Longrightarrow> decide r level k v = FilterKeep"
    and routes_stay: "register r r1 \<Longrightarrow> routed r k \<Longrightarrow> routed r1 k"
begin

lemma unrouted_row:
  "maintained decide register c \<Longrightarrow> (case c of (r, w, g) \<Rightarrow> \<not> routed r k \<longrightarrow> w k = g k)"
  by (induction rule: maintained.induct)
     (auto simp: compact_row_def unrouted_kept dest: routes_stay split: option.splits)

end

definition registers_route :: "('r, 'f, 'p) router_api \<Rightarrow> 'r \<Rightarrow> 'r \<Rightarrow> bool" where
  "registers_route R router router1 \<longleftrightarrow> router_contract R
   \<and> (\<exists>b pat h res b1. literal pat \<and> filter_add_route R b pat h router = (res, b1, router1))"

definition route_for :: "('r, 'f, 'p) router_api \<Rightarrow> 'r \<Rightarrow> bytes \<Rightarrow> bool" where
  "route_for R router k \<longleftrightarrow> (\<exists>s. from_utf8 k = Some s \<and> router_at R router s \<noteq> None)"

interpretation pattern_table: routing_table "router_compaction_filter_fn R" "registers_route R" "route_for R"
  for R :: "('r, 'p filter_route_handler, 'p) router_api"
proof
  fix router level k v
  show "\<not> route_for R router k \<Longrightarrow> router_compaction_filter_fn R router level k v = FilterKeep"
    by (auto simp: route_for_def router_compaction_filter_fn_def split: option.splits)
next
  fix router router1 k
  assume "registers_route R router router1" and old: "route_for R router k"
  then obtain b pat h res b1 where R: "router_contract R" "literal pat"
      "filter_add_route R b pat h router = (res, b1, router1)"
    by (auto simp: registers_route_def)
  obtain s where s: "from_utf8 k = Some s" "router_at R router s \<noteq> None"
    using old by (auto simp: route_for_def)
  have "router_at R router1 s \<noteq> None"
  proof (cases "router_insert R router pat h")
    case (Inl e)
    with R(3) s show ?thesis by (simp add: filter_add_route_def)
  next
    case (Inr r)
    with R(3) have "r = router1" by (simp add: filter_add_route_def)
    with Inr router_contract_insert [OF R(1) _ R(2)] router_contract_other [OF R(1) _ R(2)] s
    show ?thesis by (cases "s = pat") fastforce+
  qed
  with s(1) show "route_for R router1 k" by (auto simp: route_for_def)
qed

definition registers_prefix :: "('m, 'f) radix_api \<Rightarrow> 'm \<Rightarrow> 'm \<Rightarrow> bool" where
  "registers_prefix T m m1 \<longleftrightarrow> (\<exists>content. radix_contract T content)
   \<and> (\<exists>b p f. m1 = snd (snd (add_prefix_route T b p f m)))"

interpretation prefix_table: routing_table "binary_router_fn T" "registers_prefix T" "\<lambda>m k. radix_longest T m k \<noteq> None"
  for T :: "('m, filter_handler) radix_api"
proof
  fix m level k v
  show "\<not> radix_longest T m k \<noteq> None \<Longrightarrow> binary_router_fn T m level k v = FilterKeep"
    by (cases "radix_longest T m k") (simp_all add: binary_router_fn_def)
next
  fix m m1 k
  assume "registers_prefix T m m1" and old: "radix_longest T m k \<noteq> None"
  then obtain content b p f where T: "radix_contract T content" and m1: "m1 = snd (snd (add_prefix_route T b p f m))"
    by (auto simp: registers_prefix_def)
  have m1: "content m1 = (content m)(p \<mapsto> f)"
    using T by (simp add: m1 add_prefix_route_def Let_def radix_contract_def)
  have longest: "longest_prefix_entry (content m) k (radix_longest T m k)" for m
    using T by (simp add: radix_contract_def)
  obtain q g where "has_prefix q k" "content m q = Some g"
    using old longest [of m] by (auto simp: longest_prefix_entry_def)
  then have "content m1 q \<noteq> None" by (simp add: m1)
  with \<open>has_prefix q k\<close> longest [of m1] show "radix_longest T m1 k \<noteq> None"
    by (auto simp: longest_prefix_entry_def split: option.splits)
qed

section \<open>Properties\<close>





end
