(* ===== verification/Example_Handlers.thy ===== *)
theory Example_Handlers
  imports Background
begin

text \<open>
  The handlers that the examples register: \<open>examples/merge_routing.rs\<close> (a list of strings, a set of
  strings) and \<open>examples/compaction_filter_routing.rs\<close> (three filters), with the routes of their
  \<open>main\<close> functions, and what the background work of \<open>Background\<close> makes of them.

  The MessagePack codecs of \<open>String\<close>, \<open>SimpleSet\<close> and \<open>MergeValue\<close> are parameters, as is
  the accessor \<open>Params::get\<close> of \<open>matchit\<close>. A \<open>HashSet\<close> is a set; the order in which it
  is serialized is the codec's. Console output is left out.
\<close>

section \<open>from_utf8_lossy\<close>

text \<open>
  Each maximal part of an ill-formed sequence becomes one U+FFFD: \<open>utf8_chunk\<close> gives the length
  of the next well-formed character (\<open>Inr\<close>) or of the next part to be replaced (\<open>Inl\<close>).
\<close>

definition second_byte_ok :: "byte \<Rightarrow> byte \<Rightarrow> bool" where
  "second_byte_ok a b \<longleftrightarrow> cont_byte b \<and> (a = 0xE0 \<longrightarrow> 0xA0 \<le> b) \<and> (a = 0xED \<longrightarrow> b \<le> 0x9F)
     \<and> (a = 0xF0 \<longrightarrow> 0x90 \<le> b) \<and> (a = 0xF4 \<longrightarrow> b \<le> 0x8F)"

definition utf8_chunk :: "byte \<Rightarrow> bytes \<Rightarrow> nat + nat" where
  "utf8_chunk a bs =
     (let width = (if a \<le> 0x7F then 0 else if 0xC2 \<le> a \<and> a \<le> 0xDF then 1
          else if 0xE0 \<le> a \<and> a \<le> 0xEF then 2 else if 0xF0 \<le> a \<and> a \<le> 0xF4 then 3 else 4);
        good = (if width = 4 \<or> bs = [] \<or> \<not> second_byte_ok a (hd bs) then 0
          else 1 + length (takeWhile cont_byte (take (width - 1) (tl bs))))
      in if width = 0 then Inr 0 else if good = width then Inr width else Inl good)"

function from_utf8_lossy :: "bytes \<Rightarrow> string" where
  "from_utf8_lossy [] = []"
| "from_utf8_lossy (a # bs) =
     (case utf8_chunk a bs of
        Inr n \<Rightarrow> bytes_str (a # take n bs) @ from_utf8_lossy (drop n bs)
      | Inl n \<Rightarrow> bytes_str [0xEF, 0xBF, 0xBD] @ from_utf8_lossy (drop n bs))"
  by pat_completeness auto
termination by (relation "measure length") auto

lemma bytes_str_simps: "bytes_str [] = []" "bytes_str (a # bs) = bytes_str [a] @ bytes_str bs"
  by (simp_all add: bytes_str_def)

lemma lossy_ascii: "\<forall>b \<in> set bs. b \<le> 0x7F \<Longrightarrow> from_utf8_lossy bs = bytes_str bs"
  by (induction bs) (simp_all add: utf8_chunk_def Let_def bytes_str_def)

section \<open>The merge handlers\<close>

text \<open>\<open>Result::ok\<close>.\<close>

fun ok_value :: "('e, 'a) result \<Rightarrow> 'a option" where
  "ok_value (Inr v) = Some v"
| "ok_value (Inl _) = None"

text \<open>
  Without operands the decoding panics, and the handler is never left; the database makes no such call,
  for which the definitions have \<open>None\<close>.
\<close>

definition string_append_handler ::
    "string codec \<Rightarrow> string merge_value codec \<Rightarrow> 'p merge_route_handler" where
  "string_append_handler strings operand_values key existing_val operands params =
     (let current_list = (case existing_val of Some v \<Rightarrow> from_utf8_lossy v | None \<Rightarrow> [])
      in case validate_mergevalues_associativity operand_values operands of
           Some (Inr merge_values) \<Rightarrow>
             ok_value (serialize_value strings
               (foldl (\<lambda>cur oper. (if cur \<noteq> [] then cur @ '','' else cur) @ mv_patch oper)
                 current_list merge_values))
         | _ \<Rightarrow> None)"

definition set_union_full_handler ::
    "string set codec \<Rightarrow> string set merge_value codec \<Rightarrow> 'p merge_route_handler" where
  "set_union_full_handler sets operand_values key existing_val operands params =
     (let current_set = (case Option.bind existing_val (\<lambda>v. ok_value (deserialize_value sets v)) of
          Some s \<Rightarrow> s | None \<Rightarrow> {})
      in ok_value (serialize_value sets
           (foldl (\<lambda>cur oper. case deserialize_value operand_values oper of
                Inr (MergeValue Union s) \<Rightarrow> cur \<union> s
              | _ \<Rightarrow> cur) current_set operands)))"

definition set_union_partial_handler ::
    "string set codec \<Rightarrow> string set merge_value codec \<Rightarrow> 'p merge_route_handler" where
  "set_union_partial_handler sets operand_values key existing_val operands params =
     (let combined_set = {}
      in case validate_mergevalues_associativity operand_values operands of
           Some (Inr merge_values) \<Rightarrow>
             ok_value (serialize_value sets (foldl (\<lambda>cur oper. cur \<union> mv_patch oper) combined_set merge_values))
         | _ \<Rightarrow> None)"

text \<open>The routers as \<open>main\<close> builds them.\<close>

definition build_merge_router ::
    "('r, 'p merge_route_handler, 'p) router_api \<Rightarrow> string codec \<Rightarrow> string merge_value codec
     \<Rightarrow> string set codec \<Rightarrow> string set merge_value codec \<Rightarrow> 'r statics
     \<Rightarrow> 'r merge_operator_config store_result \<times> 'r statics" where
  "build_merge_router R strings string_ops sets set_ops st =
     (let b = operator_name mrb_new ''MyRouter'' in
      case add_full_merge_route R b ''/lists/{list_id}'' (string_append_handler strings string_ops) st of
        (Inl e, _, st1) \<Rightarrow> (Inl e, st1)
      | (Inr _, b1, st1) \<Rightarrow>
          (case add_route R b1 ''/sets/{set_name}'' (set_union_full_handler sets set_ops)
                  (set_union_partial_handler sets set_ops) st1 of
             (Inl e, _, st2) \<Rightarrow> (Inl e, st2)
           | (Inr _, b2, st2) \<Rightarrow> (build R b2, st2)))"

section \<open>The compaction filters\<close>

definition temporary_data_remover :: "'p filter_route_handler" where
  "temporary_data_remover level key_bytes value_bytes params =
     (if has_prefix (str_bytes ''temporary:'') key_bytes then FilterRemove else FilterKeep)"

definition config_value_migrator ::
    "('p \<Rightarrow> string \<Rightarrow> string option) \<Rightarrow> string codec \<Rightarrow> 'p filter_route_handler" where
  "config_value_migrator params_get strings level key_bytes value_bytes params =
     (case params_get params ''setting_name'' of
        Some setting_name \<Rightarrow>
          (if setting_name = ''old_setting'' then
             (let new_value_str = ''migrated_config_for_'' @ from_utf8_lossy key_bytes
              in case serialize_value strings new_value_str of
                   Inr new_value_bytes \<Rightarrow> FilterChange new_value_bytes
                 | Inl e \<Rightarrow> FilterKeep)
           else FilterKeep)
      | None \<Rightarrow> FilterKeep)"

text \<open>\<open>current_time_secs\<close> is the clock that the call reads.\<close>

definition cache_item_expirer :: "u64 \<Rightarrow> 'p filter_route_handler" where
  "cache_item_expirer current_time_secs level key_bytes value_bytes params =
     (case vwe_from_slice value_bytes of
        Inr vwe \<Rightarrow> (if expire_time vwe \<le> current_time_secs then FilterRemove else FilterKeep)
      | Inl e \<Rightarrow> FilterKeep)"

definition build_filter_routers ::
    "('r, 'p filter_route_handler, 'p) router_api \<Rightarrow> ('p \<Rightarrow> string \<Rightarrow> string option) \<Rightarrow> string codec \<Rightarrow> u64 \<Rightarrow> 'r
     \<Rightarrow> ('r filter_router_config \<times> 'r filter_router_config) store_result \<times> 'r" where
  "build_filter_routers R params_get strings now router =
     (let b = fb_set_operator_name fb_new ''AppDataFilterRouter'' in
      case filter_add_route R b ''/*any'' temporary_data_remover router of
        (Inl e, _, r1) \<Rightarrow> (Inl e, r1)
      | (Inr _, b1, r1) \<Rightarrow>
     (case filter_add_route R b1 ''/config/:setting_name'' (config_value_migrator params_get strings) r1 of
        (Inl e, _, r2) \<Rightarrow> (Inl e, r2)
      | (Inr _, b2, r2) \<Rightarrow>
     (case filter_build R b2 of
        Inl e \<Rightarrow> (Inl e, r2)
      | Inr app_data_filter_config \<Rightarrow>
     (let c = fb_set_operator_name fb_new ''CacheExpiryFilterRouter'' in
      case filter_add_route R c ''/cache_item/*id'' (cache_item_expirer now) r2 of
        (Inl e, _, r3) \<Rightarrow> (Inl e, r3)
      | (Inr _, c1, r3) \<Rightarrow>
     (case filter_build R c1 of
        Inl e \<Rightarrow> (Inl e, r3)
      | Inr cache_filter_config \<Rightarrow> (Inr (app_data_filter_config, cache_filter_config), r3))))))"

section \<open>Lemmas\<close>

text \<open>The set that a value stands for, and what a list of operands adds to it.\<close>

definition stored_set :: "string set codec \<Rightarrow> bytes option \<Rightarrow> string set" where
  "stored_set sets e = (case Option.bind e (\<lambda>v. ok_value (deserialize_value sets v)) of Some s \<Rightarrow> s | None \<Rightarrow> {})"

definition added :: "string set merge_value codec \<Rightarrow> bytes \<Rightarrow> string set" where
  "added set_ops oper = (case deserialize_value set_ops oper of Inr (MergeValue Union s) \<Rightarrow> s | _ \<Rightarrow> {})"

lemma union_step:
  "(case deserialize_value set_ops oper of Inr (MergeValue Union s) \<Rightarrow> cur \<union> s | _ \<Rightarrow> cur) = cur \<union> added set_ops oper"
  by (auto simp: added_def split: sum.splits merge_value.splits merge_value_operator.splits)

lemma foldl_union: "foldl (\<lambda>cur x. cur \<union> f x) s xs = s \<union> \<Union> (f ` set xs)"
  by (induction xs arbitrary: s) auto

lemma set_union_full:
  "set_union_full_handler sets set_ops k e ops p
     = ok_value (serialize_value sets (stored_set sets e \<union> \<Union> (added set_ops ` set ops)))"
  by (simp add: set_union_full_handler_def stored_set_def union_step foldl_union)

lemma ok_value_Some: "ok_value r = Some v \<longleftrightarrow> r = Inr v"
  by (cases r) simp_all

lemma stored_set_written: "codec_ok sets \<Longrightarrow> serialize_value sets s = Inr v \<Longrightarrow> stored_set sets (Some v) = s"
  by (simp add: stored_set_def codec_okD)

lemma set_union_in_steps:
  assumes "codec_ok sets" and "set_union_full_handler sets set_ops k e xs p = Some v"
  shows "set_union_full_handler sets set_ops k (Some v) ys p = set_union_full_handler sets set_ops k e (xs @ ys) p"
  using assms by (simp add: set_union_full ok_value_Some stored_set_written Un_assoc)

text \<open>MessagePack: an array of strings is not a pair of an operator and such an array.\<close>

definition kinds_apart :: "string set codec \<Rightarrow> string set merge_value codec \<Rightarrow> bool" where
  "kinds_apart sets set_ops \<longleftrightarrow> (\<forall>s bs. codec_ser sets s = Inr bs \<longrightarrow> (\<exists>e. codec_de set_ops bs = Inl e))"

lemma partial_union_is_nothing:
  assumes "kinds_apart sets set_ops" and "set_union_partial_handler sets set_ops k e ys p = Some r"
  shows "added set_ops r = {}"
proof -
  obtain s where "serialize_value sets s = Inr r"
    using assms(2) by (auto simp: set_union_partial_handler_def ok_value_Some split: option.splits sum.splits)
  then obtain err where "codec_de set_ops r = Inl err"
    using assms(1) by (auto simp: kinds_apart_def serialize_value_eq_Inr)
  then show ?thesis by (simp add: added_def deserialize_value_def)
qed

text \<open>MessagePack, \<open>fixstr\<close>: a string of fewer than 32 bytes has the header \<open>101xxxxx\<close> with its length.\<close>

definition fixstr_header :: "nat \<Rightarrow> byte" where
  "fixstr_header n = word_of_nat (160 + n)"

definition fixstr_codec :: "string codec \<Rightarrow> bool" where
  "fixstr_codec strings \<longleftrightarrow>
     (\<forall>s. length s < 32 \<longrightarrow> codec_ser strings s = Inr (fixstr_header (length s) # str_bytes s))"

definition replacement :: string where
  "replacement = bytes_str [0xEF, 0xBF, 0xBD]"

definition ascii :: "string \<Rightarrow> bool" where
  "ascii s \<longleftrightarrow> (\<forall>b \<in> set (str_bytes s). b \<le> 0x7F)"

lemma lossy_fixstr:
  assumes "n < 32" and "ascii s"
  shows "from_utf8_lossy (fixstr_header n # str_bytes s) = replacement @ s"
proof -
  have n: "unat (fixstr_header n) = 160 + n"
    unfolding fixstr_header_def unat_of_nat using assms(1) by simp
  have "utf8_chunk (fixstr_header n) bs = Inl 0" for bs
    using n assms(1) by (simp add: utf8_chunk_def Let_def word_le_nat_alt)
  with lossy_ascii [OF assms(2) [unfolded ascii_def]] show ?thesis
    by (simp add: replacement_def)
qed

lemma fixstr_serialize:
  "fixstr_codec strings \<Longrightarrow> length s < 32 \<Longrightarrow>
     serialize_value strings s = Inr (fixstr_header (length s) # str_bytes s)"
  by (simp add: fixstr_codec_def serialize_value_def)

lemma append_one:
  assumes "deserialize_value string_ops oper = Inr (MergeValue m s)"
  shows "string_append_handler strings string_ops k e [oper] p
    = (let cur = (case e of Some v \<Rightarrow> from_utf8_lossy v | None \<Rightarrow> [])
       in ok_value (serialize_value strings ((if cur \<noteq> [] then cur @ '','' else cur) @ s)))"
  using assms by (cases e) (simp_all add: string_append_handler_def validate_mergevalues_associativity_def Let_def)

lemma append_two:
  assumes "deserialize_value string_ops o1 = Inr (MergeValue m s1)"
    and "deserialize_value string_ops o2 = Inr (MergeValue m s2)"
  shows "string_append_handler strings string_ops k None [o1, o2] p
    = ok_value (serialize_value strings (if s1 \<noteq> [] then s1 @ '','' @ s2 else s1 @ s2))"
  using assms by (simp add: string_append_handler_def validate_mergevalues_associativity_def Let_def)

text \<open>The tables of the filters after \<open>main\<close> filled them.\<close>

lemma filter_insert_other:
  assumes "router_contract R" and "literal pat" and "filter_add_route R b pat h router = (Inr u, b1, router1)"
    and "path \<noteq> pat"
  shows "router_at R router1 path = router_at R router path"
  using assms router_contract_other [OF assms(1) _ assms(2) assms(4)]
  by (fastforce simp: filter_add_route_def split: sum.splits)

lemma example_patterns: "literal ''/*any''" "literal ''/config/:setting_name''" "literal ''/cache_item/*id''"
  by (simp_all add: literal_def)

lemma example_tables:
  assumes "router_contract R" and "build_filter_routers R get strings now router = (Inr (app, cache), router1)"
  shows "path \<notin> {''/*any'', ''/config/:setting_name'', ''/cache_item/*id''} \<Longrightarrow>
      router_at R router1 path = router_at R router path"
    and "frc_filter_fn_ptr app = router_compaction_filter_fn R"
    and "frc_filter_fn_ptr cache = router_compaction_filter_fn R"
  using assms(2)
  by (auto simp: build_filter_routers_def filter_build_def fb_set_operator_name_def ok_or_def Let_def
      filter_insert_other [OF assms(1) example_patterns(1)] filter_insert_other [OF assms(1) example_patterns(2)]
      filter_insert_other [OF assms(1) example_patterns(3)]
      split: sum.splits prod.splits option.splits)

text \<open>
  The patterns of the example are written in the syntax that \<open>matchit\<close> had before version 0.8; the version
  of the build takes parameters in braces only, so they match nothing but their own text.
\<close>

lemma example_filters_keep:
  assumes "router_contract R"
    and "build_filter_routers R get strings now (router_new R) = (Inr (app, cache), router)"
    and "\<forall>s. from_utf8 k = Some s \<longrightarrow> s \<notin> {''/*any'', ''/config/:setting_name'', ''/cache_item/*id''}"
  shows "frc_filter_fn_ptr app router level k v = FilterKeep \<and> frc_filter_fn_ptr cache router level k v = FilterKeep"
proof -
  have "router_at R router s = None" if "from_utf8 k = Some s" for s
    using example_tables(1) [OF assms(1,2)] assms(1,3) that by (simp add: router_contract_def)
  then show ?thesis
    unfolding example_tables(2,3) [OF assms(1,2)]
    by (auto simp: router_compaction_filter_fn_def split: option.splits)
qed

section \<open>Properties\<close>

text \<open>
  C39: The set example is right without its partial merge and loses data with it. Merging operands in
  steps gives the same set as merging them at once; but the result of the partial handler is a
  serialized set, which the full handler does not take for an operand: whenever the database makes a
  partial merge, the operands that went into it are lost without an error.
\<close>

theorem set_union_background:
  assumes "codec_ok sets" and "kinds_apart sets set_ops"
  shows "(\<forall>e xs ys v. set_union_full_handler sets set_ops k e xs p = Some v \<longrightarrow>
      set_union_full_handler sets set_ops k (Some v) ys p = set_union_full_handler sets set_ops k e (xs @ ys) p)
    \<and> (\<forall>e xs ys zs r. set_union_partial_handler sets set_ops k e ys p = Some r \<longrightarrow>
      set_union_full_handler sets set_ops k e (xs @ r # zs) p = set_union_full_handler sets set_ops k e (xs @ zs) p)"
proof (intro conjI allI impI)
  fix e xs ys zs v r
  show "set_union_full_handler sets set_ops k e xs p = Some v \<Longrightarrow>
      set_union_full_handler sets set_ops k (Some v) ys p = set_union_full_handler sets set_ops k e (xs @ ys) p"
    by (rule set_union_in_steps [OF assms(1)])
  assume "set_union_partial_handler sets set_ops k e ys p = Some r"
  from partial_union_is_nothing [OF assms(2) this]
  show "set_union_full_handler sets set_ops k e (xs @ r # zs) p = set_union_full_handler sets set_ops k e (xs @ zs) p"
    by (simp add: set_union_full)
qed

definition small_set_codec :: "string set codec" where
  "small_set_codec = \<lparr>
     codec_ser = (\<lambda>s. if s = {} then Inr [0x90] else if s = {''a''} then Inr [0x91, 0xA1, 97]
       else if s = {''b''} then Inr [0x91, 0xA1, 98] else if s = {''a'', ''b''} then Inr [0x92, 0xA1, 97, 0xA1, 98]
       else Inl ''size''),
     codec_de = (\<lambda>bs. if bs = [0x90] then Inr {} else if bs = [0x91, 0xA1, 97] then Inr {''a''}
       else if bs = [0x91, 0xA1, 98] then Inr {''b''} else if bs = [0x92, 0xA1, 97, 0xA1, 98] then Inr {''a'', ''b''}
       else Inl ''type'')\<rparr>"

definition union_codec :: "string set merge_value codec" where
  "union_codec = \<lparr>
     codec_ser = (\<lambda>m. map_ok (\<lambda>bs. [0x92, 0xA5, 85, 110, 105, 111, 110] @ bs) (codec_ser small_set_codec (mv_patch m))),
     codec_de = (\<lambda>bs. if take 7 bs = [0x92, 0xA5, 85, 110, 105, 111, 110]
       then map_ok (MergeValue Union) (codec_de small_set_codec (drop 7 bs)) else Inl ''type'')\<rparr>"

theorem set_union_background_witness:
  "(let union = set_union_full_handler small_set_codec union_codec [1] None;
        a = [0x92, 0xA5, 85, 110, 105, 111, 110, 0x91, 0xA1, 97]; b = [0x92, 0xA5, 85, 110, 105, 111, 110, 0x91, 0xA1, 98]
    in union [a, b] () = Some [0x92, 0xA1, 97, 0xA1, 98]
     \<and> set_union_partial_handler small_set_codec union_codec [1] None [a, b] () = Some [0x92, 0xA1, 97, 0xA1, 98]
     \<and> union [[0x92, 0xA1, 97, 0xA1, 98]] () = Some [0x90])"
proof -
  define a :: bytes where "a = [0x92, 0xA5, 85, 110, 105, 111, 110, 0x91, 0xA1, 97]"
  define b :: bytes where "b = [0x92, 0xA5, 85, 110, 105, 111, 110, 0x91, 0xA1, 98]"
  have ok: "codec_ok small_set_codec" and apart: "kinds_apart small_set_codec union_codec"
    by (auto simp: codec_ok_def kinds_apart_def small_set_codec_def union_codec_def split: if_splits)
  have de: "deserialize_value union_codec a = Inr (MergeValue Union {''a''})"
    "deserialize_value union_codec b = Inr (MergeValue Union {''b''})"
    by (simp_all add: a_def b_def deserialize_value_def union_codec_def small_set_codec_def)
  have ser: "serialize_value small_set_codec {''a'', ''b''} = Inr [0x92, 0xA1, 97, 0xA1, 98]"
    "serialize_value small_set_codec {''b'', ''a''} = Inr [0x92, 0xA1, 97, 0xA1, 98]"
    "serialize_value small_set_codec {} = Inr [0x90]"
    by (simp_all add: serialize_value_def small_set_codec_def insert_commute)
  have p: "set_union_partial_handler small_set_codec union_codec [1] None [a, b] () = Some [0x92, 0xA1, 97, 0xA1, 98]"
    using de ser by (simp add: set_union_partial_handler_def validate_mergevalues_associativity_def)
  have "set_union_full_handler small_set_codec union_codec [1] None ([] @ [0x92, 0xA1, 97, 0xA1, 98] # []) ()
      = set_union_full_handler small_set_codec union_codec [1] None ([] @ []) ()"
    using set_union_background [OF ok apart, of "[1]" "()"] p by blast
  moreover have "set_union_full_handler small_set_codec union_codec [1] None [a, b] () = Some [0x92, 0xA1, 97, 0xA1, 98]"
    using de ser by (simp add: set_union_full added_def stored_set_def)
  moreover have "set_union_full_handler small_set_codec union_codec [1] None [] () = Some [0x90]"
    using ser by (simp add: set_union_full stored_set_def)
  ultimately show ?thesis using p by (simp add: a_def b_def)
qed

text \<open>
  The list example depends on when the database merges. Two operands that are merged at once give
  the two strings with a comma between them. When the first was merged into the value before,
  the handler takes the serialized value for text: its MessagePack header becomes U+FFFD and stays in
  the list as its first character.
\<close>

theorem list_append_header_leaks:
  assumes "fixstr_codec strings" and "ascii s1" and "s1 \<noteq> []" and "length s1 < 32"
    and "deserialize_value string_ops o1 = Inr (MergeValue m s1)"
    and "deserialize_value string_ops o2 = Inr (MergeValue m s2)"
  shows "string_append_handler strings string_ops k None [o1, o2] p = ok_value (serialize_value strings (s1 @ '','' @ s2))
    \<and> Option.bind (string_append_handler strings string_ops k None [o1] p)
        (\<lambda>v. string_append_handler strings string_ops k (Some v) [o2] p)
      = ok_value (serialize_value strings (replacement @ s1 @ '','' @ s2))"
proof -
  let ?v = "fixstr_header (length s1) # str_bytes s1"
  have "string_append_handler strings string_ops k None [o1] p = Some ?v"
    unfolding append_one [OF assms(5)] using fixstr_serialize [OF assms(1,4)] by simp
  with lossy_fixstr [OF assms(4,2)] obtain v where
    "string_append_handler strings string_ops k None [o1] p = Some v" "from_utf8_lossy v = replacement @ s1" by blast
  then show ?thesis
    unfolding append_two [OF assms(5,6)] using append_one [OF assms(6), of strings k "Some v" p] assms(3) by simp
qed

definition short_string_codec :: "string codec" where
  "short_string_codec = \<lparr>
     codec_ser = (\<lambda>s. if length s < 32 then Inr (fixstr_header (length s) # str_bytes s) else Inl ''long''),
     codec_de = (\<lambda>bs. Inr (bytes_str (tl bs)))\<rparr>"

definition add_codec :: "string merge_value codec" where
  "add_codec = \<lparr>codec_ser = (\<lambda>m. Inr (str_bytes (mv_patch m))), codec_de = (\<lambda>bs. Inr (MergeValue Add (bytes_str bs)))\<rparr>"

theorem list_append_header_leaks_witness:
  "string_append_handler short_string_codec add_codec [1] (Some (0xA1 # str_bytes ''a'')) [str_bytes ''b''] ()
     = Some (0xA6 # str_bytes (replacement @ ''a,b''))"
proof -
  have strs: "fixstr_codec short_string_codec" by (simp add: fixstr_codec_def short_string_codec_def)
  have de: "deserialize_value add_codec (str_bytes s) = Inr (MergeValue Add s)" for s
    by (simp add: deserialize_value_def add_codec_def)
  have a: "ascii ''a''" "''a'' \<noteq> []" "length ''a'' < 32" by (simp_all add: ascii_def str_bytes_def)
  have v: "string_append_handler short_string_codec add_codec [1] None [str_bytes ''a''] () = Some (0xA1 # str_bytes ''a'')"
    unfolding append_one [OF de] by (simp add: serialize_value_def short_string_codec_def fixstr_header_def)
  have "serialize_value short_string_codec (replacement @ ''a,b'') = Inr (0xA6 # str_bytes (replacement @ ''a,b''))"
    by (simp add: serialize_value_def short_string_codec_def replacement_def bytes_str_def fixstr_header_def)
  with list_append_header_leaks [OF strs a de de, of "[1]" "''b''" "()"] v show ?thesis by simp
qed

end
