(* ===== verification/Example_Compaction.thy ===== *)
theory Example_Compaction
  imports Example_Programs Example_Handlers
begin

text \<open>
  \<open>examples/compaction_filter_routing.rs\<close> as a whole, except for the opening of the store: the filters are
  built, rows are written, the two families are flushed and compacted, and the outcome is asserted. The
  calls \<open>flush_cf\<close> and \<open>compact_range_cf\<close> of RocksDB are parameters; the second is given the filter that
  its family was opened with.
\<close>

section \<open>The program\<close>

definition APP_DATA_CF :: string where "APP_DATA_CF = ''app_data_cf''"
definition EXPIRY_CACHE_CF :: string where "EXPIRY_CACHE_CF = ''cache_cf_with_expiry_filter''"

record ('s, 'h) maintenance =
  flush_cf :: "'h \<Rightarrow> 's \<Rightarrow> (rocks_error, unit) result \<times> 's"
  compact_range_cf :: "filter_handler \<Rightarrow> 'h \<Rightarrow> 's \<Rightarrow> 's"

definition routing_populate ::
    "('s, 'h) rocks_api \<Rightarrow> string codec \<Rightarrow> u64 \<Rightarrow> 's \<Rightarrow> ('s \<Rightarrow> 's main) \<Rightarrow> 's main" where
  "routing_populate A strings now s next_part =
     try_write (put A strings s APP_DATA_CF (KStr ''temporary:session_xyz'') ''some_session_data'') (\<lambda>s.
     try_write (put A strings s APP_DATA_CF (KStr ''permanent_user_data:user123'') ''user_profile'') (\<lambda>s.
     try_write (put A strings s APP_DATA_CF (KStr ''/config/old_setting'') ''value_to_be_changed'') (\<lambda>s.
     try_write (put A strings s APP_DATA_CF (KStr ''/config/new_setting'') ''stable_value'') (\<lambda>s.
     try_read s (vwe_from_value strings (now - 60) ''This was cached data'') (\<lambda>expired_item.
     try_read s (vwe_from_value strings (now + 3600) ''This is fresh cache'') (\<lambda>active_item.
     try_write (put_raw A s EXPIRY_CACHE_CF (KStr ''/cache_item/expired_1'') (serialize_for_storage expired_item)) (\<lambda>s.
     try_write (put_raw A s EXPIRY_CACHE_CF (KStr ''/cache_item/active_1'') (serialize_for_storage active_item))
       next_part)))))))"

definition flush_and_compact ::
    "('s, 'h) rocks_api \<Rightarrow> ('s, 'h) maintenance \<Rightarrow> filter_handler \<Rightarrow> string \<Rightarrow> 's \<Rightarrow> ('s \<Rightarrow> 's main) \<Rightarrow> 's main" where
  "flush_and_compact A W filter_fn cf s next_part =
     (case get_cf_handle A s cf of
        Inr handle \<Rightarrow>
          try_write (case flush_cf W handle s of (r, s) \<Rightarrow> (map_err RocksDb r, s)) (\<lambda>s.
            next_part (compact_range_cf W filter_fn handle s))
      | Inl _ \<Rightarrow> next_part s)"

definition routing_verify :: "('s, 'h) rocks_api \<Rightarrow> string codec \<Rightarrow> 's \<Rightarrow> 's main" where
  "routing_verify A strings s =
     try_read s (get A strings s APP_DATA_CF (KStr ''temporary:session_xyz'')) (\<lambda>temp_session.
     assert_that s (temp_session = None) (
     try_read s (get A strings s APP_DATA_CF (KStr ''permanent_user_data:user123'')) (\<lambda>permanent_data.
     assert_that s (permanent_data = Some ''user_profile'') (
     try_read s (get A strings s APP_DATA_CF (KStr ''/config/old_setting'')) (\<lambda>old_config_val.
     assert_that s (old_config_val = Some ''migrated_config_for_/config/old_setting'') (
     try_read s (get A strings s APP_DATA_CF (KStr ''/config/new_setting'')) (\<lambda>new_config_val.
     assert_that s (new_config_val = Some ''stable_value'') (
     try_read s (get_raw A s EXPIRY_CACHE_CF (KStr ''/cache_item/expired_1'')) (\<lambda>expired_cached_item_raw.
     assert_that s (expired_cached_item_raw = None) (
     try_read s (get_raw A s EXPIRY_CACHE_CF (KStr ''/cache_item/active_1'')) (\<lambda>active_cached_item_raw.
     assert_that s (active_cached_item_raw \<noteq> None) (
     case active_cached_item_raw of
       None \<Rightarrow> done_with s
     | Some bytes \<Rightarrow>
         try_read s (vwe_from_slice bytes) (\<lambda>vwe_retrieved.
         try_read s (vwe_get strings vwe_retrieved) (\<lambda>value.
         assert_that s (value = ''This is fresh cache'') (
         try_read s (vwe_get strings vwe_retrieved) (\<lambda>_. done_with s))))))))))))))))"

definition compaction_main ::
    "('r, 'p filter_route_handler, 'p) router_api \<Rightarrow> ('p \<Rightarrow> string \<Rightarrow> string option) \<Rightarrow> string codec \<Rightarrow> u64
     \<Rightarrow> ('s, 'h) rocks_api \<Rightarrow> ('s, 'h) maintenance \<Rightarrow> u64 \<Rightarrow> 's \<Rightarrow> 's main" where
  "compaction_main R get_param strings clock A W now s =
     (case build_filter_routers R get_param strings clock (router_new R) of
        (Inl e, _) \<Rightarrow> (Returned (Inl e), s)
      | (Inr (app_data_filter_config, cache_filter_config), router) \<Rightarrow>
          routing_populate A strings now s (\<lambda>s.
          flush_and_compact A W (frc_filter_fn_ptr app_data_filter_config router) APP_DATA_CF s (\<lambda>s.
          flush_and_compact A W (frc_filter_fn_ptr cache_filter_config router) EXPIRY_CACHE_CF s
            (routing_verify A strings))))"

section \<open>Lemmas\<close>

text \<open>
  A flush changes no record. A compaction may show a record of the family to its filter and carry the
  decision out, at whatever level; it may also move a file without looking into it.
\<close>

definition maintenance_contract :: "('s, 'h) rocks_meaning \<Rightarrow> ('s, 'h) maintenance \<Rightarrow> bool" where
  "maintenance_contract M W \<longleftrightarrow>
     (\<forall>h s. m_view M (snd (flush_cf W h s)) = m_view M s)
   \<and> (\<forall>f h s cf. cf \<noteq> m_name M h \<longrightarrow> m_view M (compact_range_cf W f h s) cf = m_view M s cf)
   \<and> (\<forall>f h s k. m_view M (compact_range_cf W f h s) (m_name M h) k = m_view M s (m_name M h) k
      \<or> (\<exists>level. m_view M (compact_range_cf W f h s) (m_name M h) k = compact_row f level k (m_view M s (m_name M h) k)))"

text \<open>A record whose key the filter keeps is the same after the maintenance.\<close>

lemma ends_flush_and_compact:
  assumes "maintenance_contract M W" and "\<And>level v. f level k v = FilterKeep"
    and "\<And>s1. m_view M s1 fam k = m_view M s fam k \<Longrightarrow> ends pan Q (next_part s1)"
  shows "ends pan Q (flush_and_compact A W f cf s next_part)"
proof (cases "get_cf_handle A s cf")
  case (Inr h)
  obtain r s1 where flush: "flush_cf W h s = (r, s1)" by fastforce
  then have s1: "m_view M s1 = m_view M s" using assms(1) unfolding maintenance_contract_def by (metis snd_conv)
  have "compact_row f level k x = x" for level x
    using assms(2) by (simp add: compact_row_def split: option.splits)
  moreover have "m_view M (compact_range_cf W f h s1) (m_name M h) k = m_view M s1 (m_name M h) k
      \<or> (\<exists>level. m_view M (compact_range_cf W f h s1) (m_name M h) k = compact_row f level k (m_view M s1 (m_name M h) k))"
    and "fam \<noteq> m_name M h \<Longrightarrow> m_view M (compact_range_cf W f h s1) fam = m_view M s1 fam"
    using assms(1) by (simp_all add: maintenance_contract_def)
  ultimately have "m_view M (compact_range_cf W f h s1) fam k = m_view M s fam k"
    using s1 by (cases "fam = m_name M h") auto
  then show ?thesis
    unfolding flush_and_compact_def Inr sum.case flush prod.case
    by (intro safe_try_write) (simp add: assms(3))
qed (simp add: flush_and_compact_def assms(3))

text \<open>The temporary record survives, which the first assertion of the example excludes.\<close>

lemma routing_verify_fails:
  assumes "rocks_contract A M" and "m_view M s APP_DATA_CF (str_bytes ''temporary:session_xyz'') = Some bs"
  shows "ends True (\<lambda>_. False) (routing_verify A strings s)"
  unfolding routing_verify_def
  by (rule safe_get [OF assms(1)], rule ends_panic) (use assms(2) in \<open>auto simp: opt_try_def split: sum.splits\<close>)

lemma safe_put_then:
  assumes "rocks_contract A M"
    and "\<And>s1 bs. m_view M s1 = upd (m_view M s) cf (as_bytes k) (Some bs) \<Longrightarrow> ends pan Q (kk s1)"
  shows "ends pan Q (try_write (put A c s cf k v) kk)"
proof (cases "serialize_value c v")
  case (Inl e)
  then show ?thesis by (simp add: put_def try_write_def ends_def)
next
  case (Inr bs)
  then show ?thesis using safe_put_raw [OF assms(1)] assms(2) by (simp add: put_eq_put_raw)
qed

lemma ends_routing_populate:
  assumes "rocks_contract A M"
    and "\<And>s1 bs. m_view M s1 APP_DATA_CF (str_bytes ''temporary:session_xyz'') = Some bs \<Longrightarrow> ends pan Q (next_part s1)"
  shows "ends pan Q (routing_populate A strings now s next_part)"
  unfolding routing_populate_def
  by (rule safe_put_then [OF assms(1)] safe_try_read safe_put_raw [OF assms(1)] assms(2)
      | (simp add: upd_def APP_DATA_CF_def EXPIRY_CACHE_CF_def; fail))+

section \<open>Properties\<close>

text \<open>
  C40: The compaction filter example cannot end with success. Its patterns match nothing but their own
  text, so both filters keep every record of every other key; on any database that keeps the
  contracts, whatever a compaction shows to them, the record that the example has put and expects to be
  removed is still there: the program ends with an error of the database or in a failed assertion.
\<close>

theorem compaction_example_fails:
  assumes "router_contract R"
    and "build_filter_routers R get_param strings clock (router_new R) = (Inr (app, cache), router)"
    and "rocks_contract A M" and "maintenance_contract M W"
  shows "(\<forall>level k v. (\<forall>s. from_utf8 k = Some s \<longrightarrow> s \<notin> {''/*any'', ''/config/:setting_name'', ''/cache_item/*id''}) \<longrightarrow>
      frc_filter_fn_ptr app router level k v = FilterKeep \<and> frc_filter_fn_ptr cache router level k v = FilterKeep)
    \<and> fst (compaction_main R get_param strings clock A W now s) \<noteq> Returned (Inr ())"
proof -
  note keep = example_filters_keep [OF assms(1,2)]
  have temp: "\<forall>s. from_utf8 (str_bytes ''temporary:session_xyz'') = Some s \<longrightarrow>
      s \<notin> {''/*any'', ''/config/:setting_name'', ''/cache_item/*id''}"
    by (simp add: from_utf8_def)
  have "ends True (\<lambda>_. False) (compaction_main R get_param strings clock A W now s)"
    unfolding compaction_main_def assms(2) prod.case sum.case
    by (rule ends_routing_populate [OF assms(3)], rule ends_flush_and_compact [where fam = APP_DATA_CF, OF assms(4)],
        rule keep [OF temp, THEN conjunct1], rule ends_flush_and_compact [where fam = APP_DATA_CF, OF assms(4)],
        rule keep [OF temp, THEN conjunct2], rule routing_verify_fails [OF assms(3)], simp)
  with keep show ?thesis by (auto simp: ends_def)
qed

text \<open>A database in memory whose compaction shows every record to the filter.\<close>

definition filtered :: "filter_handler \<Rightarrow> kv list \<Rightarrow> kv list" where
  "filtered f rows = List.map_filter (\<lambda>(k, v). map_option (Pair k) (compact_row f 0 k (Some v))) rows"

definition mem_maintenance :: "(mem, string) maintenance" where
  "mem_maintenance = \<lparr>flush_cf = (\<lambda>h s. (Inr (), s)),
     compact_range_cf = (\<lambda>f h s. s(h := map_option (\<lambda>_. filtered f (mem_rows s h)) (s h)))\<rparr>"

lemma map_of_filtered:
  "distinct (map fst rows) \<Longrightarrow> map_of (filtered f rows) k = compact_row f 0 k (map_of rows k)"
proof (induction rows)
  case (Cons r rows)
  obtain a b where r: "r = (a, b)" by fastforce
  with Cons.prems have "map_of rows a = None" by (simp add: map_of_eq_None_iff)
  with Cons r show ?case
    by (auto simp: filtered_def List.map_filter_simps compact_row_def split: option.splits filter_decision.splits)
qed (simp add: filtered_def List.map_filter_simps compact_row_def)

lemma mem_maintenance_ok: "maintenance_contract mem_meaning mem_maintenance"
proof -
  have "mem_view (compact_range_cf mem_maintenance f h s) h k = compact_row f 0 k (mem_view s h k)" for f h s k
  proof (cases "s h")
    case None
    then show ?thesis by (simp add: mem_maintenance_def mem_view_def mem_entries_def compact_row_def)
  next
    case (Some es)
    have "is_rows (mem_view s h) (mem_rows s h)" by (rule is_rows_mem)
    then have "distinct (map fst (mem_rows s h))" "map_of (mem_rows s h) = mem_view s h"
      by (simp_all add: is_rows_def strict_sorted_iff)
    then have "map_of (filtered f (mem_rows s h)) k = compact_row f 0 k (mem_view s h k)"
      using map_of_filtered by metis
    with Some show ?thesis by (simp add: mem_maintenance_def mem_view_def [abs_def] mem_entries_def)
  qed
  then show ?thesis
    by (auto simp: maintenance_contract_def)
       (auto simp: mem_maintenance_def mem_view_def mem_entries_def)
qed

theorem compaction_example_fails_witness:
  "\<exists>app cache router. build_filter_routers list_router (\<lambda>_ _. None) short_string_codec 5 (router_new list_router)
      = (Inr (app, cache), router)
    \<and> frc_filter_fn_ptr app router 0 (str_bytes ''temporary:session_xyz'') [1] = FilterKeep
    \<and> fst (compaction_main list_router (\<lambda>_ _. None) short_string_codec 5 mem_api mem_maintenance 70
        (opened [''default'', APP_DATA_CF, EXPIRY_CACHE_CF])) \<noteq> Returned (Inr ())"
proof -
  obtain app cache router where built: "build_filter_routers list_router (\<lambda>_ _. None) short_string_codec 5
      (router_new list_router) = (Inr (app, cache), router)"
    by (simp add: build_filter_routers_def filter_add_route_def list_router_def filter_build_def fb_set_operator_name_def)
  have "\<forall>s. from_utf8 (str_bytes ''temporary:session_xyz'') = Some s \<longrightarrow>
      s \<notin> {''/*any'', ''/config/:setting_name'', ''/cache_item/*id''}"
    by (simp add: from_utf8_def)
  with compaction_example_fails [OF router_contract_list built rocks_contract_mem mem_maintenance_ok] built
  show ?thesis by blast
qed

end
