(* ===== verification/Example_Opening.thy ===== *)
theory Example_Opening
  imports Example_Iteration Example_Transactions Example_Compaction
begin

text \<open>
  The configurations that the examples open their stores with, and what RocksDB is called with: the options of
  the database and the descriptors of the families. \<open>tuning_showcase.rs\<close>, which does nothing but open a store
  with profiles, hard settings and a callback, is modelled as a whole. The paths are parameters.
\<close>

section \<open>Configurations\<close>

definition base_cf_config_default :: "('r, 't) base_cf_config" where
  "base_cf_config_default = \<lparr>tuning_profile_of = None, merge_operator_of = None, comparator_of = None,
     compaction_filter_router_of = None\<rparr>"

definition transactional_config_default :: "'o \<Rightarrow> ('r, 't, 'o) transactional_store_config" where
  "transactional_config_default dflt = \<lparr>
     tc_path = [], tc_create_if_missing = False, tc_db_tuning_profile = None, tc_column_family_configs = [],
     tc_column_families_to_open = [], tc_custom_options_db_and_cf = None, tc_recovery_mode = None,
     tc_parallelism = None, tc_enable_statistics = None, tc_engine = Pessimistic dflt\<rparr>"

definition cf_optimistic_config_default :: "('r, 't) cf_optimistic_config" where
  "cf_optimistic_config_default = \<lparr>
     oc_path = [], oc_create_if_missing = False, oc_db_tuning_profile = None, oc_column_family_configs = [],
     oc_column_families_to_open = [], oc_custom_options_db_and_cf = None, oc_recovery_mode = None,
     oc_parallelism = None, oc_enable_statistics = None\<rparr>"

definition batching_config :: "string \<Rightarrow> ('r, 't) cf_store_config" where
  "batching_config db_path = cf_store_config_default\<lparr>
     cs_path := db_path, cs_create_if_missing := True,
     cs_column_families_to_open := [DEFAULT_COLUMN_FAMILY_NAME, PRODUCTS_CF, METADATA_CF],
     cs_column_family_configs := [(PRODUCTS_CF, base_cf_config_default), (METADATA_CF, base_cf_config_default),
       (DEFAULT_COLUMN_FAMILY_NAME, base_cf_config_default)]\<rparr>"

definition value_expiry_config :: "string \<Rightarrow> ('r, 't) cf_store_config" where
  "value_expiry_config db_path = cf_store_config_default\<lparr>
     cs_path := db_path, cs_create_if_missing := True,
     cs_column_families_to_open := [DEFAULT_COLUMN_FAMILY_NAME, CACHE_CF],
     cs_column_family_configs := [(CACHE_CF, base_cf_config_default),
       (DEFAULT_COLUMN_FAMILY_NAME, base_cf_config_default)]\<rparr>"

definition macros_cf_config :: "string \<Rightarrow> ('r, 't) cf_store_config" where
  "macros_cf_config db_path = cf_store_config_default\<lparr>
     cs_path := db_path, cs_create_if_missing := True,
     cs_column_families_to_open := [DEFAULT_COLUMN_FAMILY_NAME, APP_CONFIG_CF],
     cs_column_family_configs := [(APP_CONFIG_CF, base_cf_config_default),
       (DEFAULT_COLUMN_FAMILY_NAME, base_cf_config_default)]\<rparr>"

definition cf_iteration_config :: "string \<Rightarrow> ('r, 't) cf_store_config" where
  "cf_iteration_config db_path = cf_store_config_default\<lparr>
     cs_path := db_path, cs_create_if_missing := True,
     cs_column_families_to_open := [CF_STRING_KEYS, CF_CUSTOM_DATA],
     cs_column_family_configs := [(CF_STRING_KEYS, base_cf_config_default), (CF_CUSTOM_DATA, base_cf_config_default)]\<rparr>"

definition cf_store_ops_config :: "string \<Rightarrow> ('r, 't) cf_store_config" where
  "cf_store_ops_config db_path = cf_store_config_default\<lparr>
     cs_path := db_path, cs_create_if_missing := True,
     cs_column_families_to_open := [DEFAULT_COLUMN_FAMILY_NAME, DATA_CF_A, DATA_CF_B],
     cs_column_family_configs :=
       [(DATA_CF_A, base_cf_config_default\<lparr>tuning_profile_of := Some (LatestValue 16 True False None)\<rparr>),
        (DATA_CF_B, base_cf_config_default), (DEFAULT_COLUMN_FAMILY_NAME, base_cf_config_default)],
     cs_db_tuning_profile := Some (MemorySaver 128 (round64 (4 / 10)) (round64 (2 / 10)) 3 True None)\<rparr>"

definition compaction_config ::
    "'t filter_router_config \<Rightarrow> 't filter_router_config \<Rightarrow> string \<Rightarrow> ('r, 't) cf_store_config" where
  "compaction_config app_data_filter_config cache_filter_config db_path = cf_store_config_default\<lparr>
     cs_path := db_path, cs_create_if_missing := True,
     cs_column_families_to_open := [DEFAULT_COLUMN_FAMILY_NAME, APP_DATA_CF, EXPIRY_CACHE_CF],
     cs_column_family_configs :=
       [(APP_DATA_CF, base_cf_config_default\<lparr>compaction_filter_router_of := Some app_data_filter_config\<rparr>),
        (EXPIRY_CACHE_CF, base_cf_config_default\<lparr>compaction_filter_router_of := Some cache_filter_config\<rparr>),
        (DEFAULT_COLUMN_FAMILY_NAME, base_cf_config_default)]\<rparr>"

definition LISTS_CF :: string where "LISTS_CF = ''lists_cf_for_merge''"
definition SETS_CF :: string where "SETS_CF = ''sets_cf_for_merge''"

definition merge_routing_config :: "'r merge_operator_config \<Rightarrow> string \<Rightarrow> ('r, 't) cf_store_config" where
  "merge_routing_config router_merge_op_config db_path = cf_store_config_default\<lparr>
     cs_path := db_path, cs_create_if_missing := True,
     cs_column_families_to_open := [DEFAULT_COLUMN_FAMILY_NAME, LISTS_CF, SETS_CF],
     cs_column_family_configs :=
       [(LISTS_CF, base_cf_config_default\<lparr>merge_operator_of := Some (cmo_from router_merge_op_config)\<rparr>),
        (SETS_CF, base_cf_config_default\<lparr>merge_operator_of := Some (cmo_from router_merge_op_config)\<rparr>),
        (DEFAULT_COLUMN_FAMILY_NAME, base_cf_config_default)]\<rparr>"

definition basic_usage_config :: "string \<Rightarrow> ('r, 't) store_config" where
  "basic_usage_config db_path = store_config_default\<lparr>sc_path := db_path, sc_create_if_missing := True\<rparr>"

definition transactional_config :: "string \<Rightarrow> ('r, 't, 'o) txn_store_config" where
  "transactional_config db_path = txn_store_config_default\<lparr>xc_path := db_path, xc_create_if_missing := True\<rparr>"

definition optimistic_config :: "string \<Rightarrow> ('r, 't) optimistic_store_config" where
  "optimistic_config db_path = optimistic_store_config_default\<lparr>dc_path := db_path, dc_create_if_missing := True\<rparr>"

text \<open>\<open>dflt\<close> is \<open>TransactionDBOptions::default()\<close>.\<close>

definition cf_txn_config :: "'o \<Rightarrow> string \<Rightarrow> ('r, 't, 'o) transactional_store_config" where
  "cf_txn_config dflt db_path = (transactional_config_default dflt)\<lparr>
     tc_path := db_path, tc_create_if_missing := True,
     tc_column_families_to_open := [DEFAULT_COLUMN_FAMILY_NAME, CF_MAIN, CF_LOGS],
     tc_column_family_configs := [(CF_MAIN, base_cf_config_default), (CF_LOGS, base_cf_config_default),
       (DEFAULT_COLUMN_FAMILY_NAME, base_cf_config_default)],
     tc_engine := Pessimistic dflt\<rparr>"

definition optimistic_transaction_config :: "string \<Rightarrow> ('r, 't) cf_optimistic_config" where
  "optimistic_transaction_config db_path = cf_optimistic_config_default\<lparr>
     oc_path := db_path, oc_create_if_missing := True, oc_column_families_to_open := [ACCOUNTS_CF],
     oc_column_family_configs := [(ACCOUNTS_CF, base_cf_config_default)]\<rparr>"

section \<open>tuning_showcase.rs\<close>

definition CF_HIGH_WRITE :: string where "CF_HIGH_WRITE = ''high_write_cf''"
definition CF_READ_CACHE :: string where "CF_READ_CACHE = ''read_cache_cf''"

text \<open>The callback; the creation of the directory for the logs is left out.\<close>

definition showcase_options ::
    "string \<Rightarrow> ('r, 't) store_tunable \<Rightarrow> ('r, 't) cf_opts_map \<Rightarrow> ('r, 't) store_tunable \<times> ('r, 't) cf_opts_map" where
  "showcase_options log_dir_path db_opts_tunable cf_opts_map_tunable =
     (call (DbLogDir log_dir_path) db_opts_tunable,
      case cf_opts_map_tunable CF_HIGH_WRITE of
        Some high_write_cf_opts \<Rightarrow>
          cf_opts_map_tunable(CF_HIGH_WRITE \<mapsto> tune_opt (MaxWriteBufferNumber 6) high_write_cf_opts)
      | None \<Rightarrow> cf_opts_map_tunable)"

text \<open>\<open>threads\<close> is the available parallelism.\<close>

definition showcase_config :: "i32 \<Rightarrow> string \<Rightarrow> ('r, 't) cf_store_config" where
  "showcase_config threads db_path = \<lparr>
     cs_path = db_path, cs_create_if_missing = True,
     cs_db_tuning_profile = Some (MemorySaver 256 (Finite (1 / 2)) (Finite (1 / 4)) 3 True None),
     cs_column_family_configs =
       [(CF_HIGH_WRITE, base_cf_config_default\<lparr>tuning_profile_of :=
          Some (RealTime 0 (Finite 0) (Finite 0) 0 True False None)\<rparr>),
        (CF_READ_CACHE, base_cf_config_default\<lparr>tuning_profile_of := Some (LatestValue 64 True True None)\<rparr>),
        (DEFAULT_COLUMN_FAMILY_NAME, base_cf_config_default)],
     cs_column_families_to_open = [DEFAULT_COLUMN_FAMILY_NAME, CF_HIGH_WRITE, CF_READ_CACHE],
     cs_custom_options_db_and_cf = Some (showcase_options (db_path @ ''/logs'')),
     cs_recovery_mode = Some TolerateCorruptedTailRecords, cs_parallelism = Some threads,
     cs_enable_statistics = Some True\<rparr>"

definition tuning_showcase_main ::
    "usize \<Rightarrow> comparator_crates \<Rightarrow> ('w, 'd, 'r, 't, 'o) open_api \<Rightarrow> i32 \<Rightarrow> string \<Rightarrow> 'w \<Rightarrow> 'w main" where
  "tuning_showcase_main cpus X E threads db_path w =
     (case cf_store_open cpus X E (showcase_config threads db_path) w of
        (Inr store, w) \<Rightarrow> done_with w
      | (Inl e, w) \<Rightarrow> (ending_of_main.Returned (Inl e), w))"

section \<open>Lemmas\<close>

definition opened_with ::
    "('w, 'd, 'r, 't, 'o) open_api \<Rightarrow> ('r, 't) store_options \<Rightarrow> string \<Rightarrow> ('r, 't) descriptors \<Rightarrow> 'w
     \<Rightarrow> 'd cf_store store_result \<times> 'w" where
  "opened_with E opts path ds w =
     (case open_plain E opts path ds w of
        (Inl e, w1) \<Rightarrow> (Inl (RocksDb e), w1)
      | (Inr db, w1) \<Rightarrow> (Inr \<lparr>st_db = db, st_cf_names = fst ` set ds, st_path = path\<rparr>, w1))"

abbreviation created :: "('r, 't) store_options" where
  "created \<equiv> [Macro (CreateIfMissing True), Macro (CreateMissingColumnFamilies True)]"

lemmas example_family_names = PRODUCTS_CF_def METADATA_CF_def CACHE_CF_def APP_CONFIG_CF_def CF_STRING_KEYS_def
  CF_CUSTOM_DATA_def APP_DATA_CF_def EXPIRY_CACHE_CF_def LISTS_CF_def SETS_CF_def CF_MAIN_def CF_LOGS_def
  ACCOUNTS_CF_def CF_HIGH_WRITE_def CF_READ_CACHE_def DEFAULT_COLUMN_FAMILY_NAME_def

lemmas opening_defs = cf_store_open_def open_db_options_def hard_settings_def set_parallelism_def with_recovery_def
  with_statistics_def with_db_profile_def creating_def run_custom_def cf_options_map_eq effective_profile_def
  tune_entry_def unwrap_tunables_def apply_cf_config_def cf_store_config_default_def base_cf_config_default_def
  into_inner_def tunable_new_def opened_with_def

text \<open>
  Without profiles the families have no options of their own, except for the merge operators and filters of the
  routing examples; the default family, which one of the examples does not list, is then not named.
\<close>

lemma plain_examples_open:
  "cf_store_open cpus X E (batching_config p) w
     = opened_with E created p [(DEFAULT_COLUMN_FAMILY_NAME, []), (PRODUCTS_CF, []), (METADATA_CF, [])] w"
  "cf_store_open cpus X E (value_expiry_config p) w
     = opened_with E created p [(DEFAULT_COLUMN_FAMILY_NAME, []), (CACHE_CF, [])] w"
  "cf_store_open cpus X E (macros_cf_config p) w
     = opened_with E created p [(DEFAULT_COLUMN_FAMILY_NAME, []), (APP_CONFIG_CF, [])] w"
  "cf_store_open cpus X E (cf_iteration_config p) w
     = opened_with E created p [(CF_STRING_KEYS, []), (CF_CUSTOM_DATA, [])] w"
  by (simp_all add: opening_defs batching_config_def value_expiry_config_def macros_cf_config_def cf_iteration_config_def
      example_family_names split: prod.split sum.split)

lemma routing_examples_open:
  "cf_store_open cpus X E (compaction_config app cache p) w
     = opened_with E created p [(DEFAULT_COLUMN_FAMILY_NAME, []),
         (APP_DATA_CF, [CompactionFilterOpt (frc_name app) (frc_filter_fn_ptr app)]),
         (EXPIRY_CACHE_CF, [CompactionFilterOpt (frc_name cache) (frc_filter_fn_ptr cache)])] w"
  "cf_store_open cpus X E (merge_routing_config mo p) w
     = opened_with E created p ((DEFAULT_COLUMN_FAMILY_NAME, []) # map (\<lambda>n. (n, [MergeOperator (moc_name mo)
         (case moc_full_merge_fn mo of Some f \<Rightarrow> f | None \<Rightarrow> (\<lambda>_. default_full_merge))
         (case moc_partial_merge_fn mo of Some f \<Rightarrow> f | None \<Rightarrow> (\<lambda>_. default_partial_merge))])) [LISTS_CF, SETS_CF]) w"
  by (simp_all add: opening_defs compaction_config_def merge_routing_config_def cmo_from_def
      example_family_names split: prod.split sum.split)

lemma transactional_examples_open:
  "open_db_internal cpus X E (cf_txn_config dflt p) w
     = (case open_pessimistic E created dflt p [(DEFAULT_COLUMN_FAMILY_NAME, []), (CF_MAIN, []), (CF_LOGS, [])] w of
          (r, w1) \<Rightarrow> (map_ok OpenedPessimistic (map_err RocksDb r), w1))"
  "open_db_internal cpus X E (txn_config_from dflt (transactional_config p)) w
     = (case open_pessimistic E created dflt p [(DEFAULT_COLUMN_FAMILY_NAME, [])] w of
          (r, w1) \<Rightarrow> (map_ok OpenedPessimistic (map_err RocksDb r), w1))"
  "open_db_internal cpus X E (optimistic_config_from (optimistic_transaction_config p)) w
     = (case open_optimistic E created p [(ACCOUNTS_CF, [])] w of
          (r, w1) \<Rightarrow> (map_ok OpenedOptimistic (map_err RocksDb r), w1))"
  by (simp_all add: open_db_internal_def build_db_wide_options_def with_recovery_def with_statistics_def with_db_profile_def
      creating_def cf_options_map_eq effective_profile_def tune_entry_def unwrap_tunables_def apply_cf_config_def
      base_cf_config_default_def into_inner_def tunable_new_def cf_txn_config_def transactional_config_default_def
      txn_config_from_def transactional_config_def txn_store_config_default_def optimistic_config_from_def
      optimistic_transaction_config_def cf_optimistic_config_default_def example_family_names Let_def split: prod.split)

text \<open>The store of the showcase is opened with the database options and descriptors that follow.\<close>

definition showcase_db :: "usize \<Rightarrow> i32 \<Rightarrow> string \<Rightarrow> ('r, 't) store_options" where
  "showcase_db cpus threads p =
     inner (open_db_options cpus (showcase_config threads p :: ('r, 't) cf_store_config)) @ [DbLogDir (p @ ''/logs'')]"

definition showcase_families :: "('r, 't) descriptors" where
  "showcase_families =
     [(DEFAULT_COLUMN_FAMILY_NAME, inner (tune_memory_saver True (tunable_new []))),
      (CF_HIGH_WRITE, inner (tune_opt (MaxWriteBufferNumber 6) (tune_real_time True False (tunable_new [])))),
      (CF_READ_CACHE, inner (tune_latest_value 64 True True (tunable_new [])))]"

lemma showcase_opens:
  "cf_store_open cpus X E (showcase_config threads p) w = opened_with E (showcase_db cpus threads p) p showcase_families w"
  by (simp add: showcase_config_def showcase_db_def showcase_families_def showcase_options_def opened_with_def
      cf_store_open_def run_custom_def cf_options_map_eq effective_profile_def tune_entry_def unwrap_tunables_def
      apply_cf_config_def base_cf_config_default_def into_inner_def example_family_names split: prod.split sum.split)

lemma last_max_files_memory:
  "last_call ''db_max_open_files'' (inner (tune_memory mb c w t)) = last_call ''db_max_open_files'' (inner t)"
  by (simp add: tune_memory_def Let_def only_if_def tunable_method_defs last_call_def)

lemma showcase_db_effect:
  "last_call ''db_increase_parallelism'' (showcase_db cpus threads p :: ('a, 'b) store_options)
     = Some (Macro (IncreaseParallelism threads))"
  "last_call ''db_max_open_files'' (showcase_db cpus threads p) = Some (Macro (MaxOpenFiles 512))"
  "last (showcase_db cpus threads p) = DbLogDir (p @ ''/logs'')"
proof -
  show "last_call ''db_increase_parallelism'' (showcase_db cpus threads p :: ('a, 'b) store_options)
     = Some (Macro (IncreaseParallelism threads))"
  proof -
    have "cs_parallelism (showcase_config threads p :: ('a, 'b) cf_store_config) = Some threads"
      by (simp add: showcase_config_def)
    from explicit_parallelism [OF this, THEN conjunct1] show ?thesis by (simp add: showcase_db_def)
  qed
  show "last_call ''db_max_open_files'' (showcase_db cpus threads p) = Some (Macro (MaxOpenFiles 512))"
    by (simp add: showcase_db_def open_db_options_def with_db_profile_def showcase_config_def hard_settings_def
        set_parallelism_def with_recovery_def with_statistics_def creating_def tune_db_opts_def only_if_def
        enable_auto_io_cap_def io_opts_def io_cap_default_def Let_def last_call_tune last_max_files_memory)
qed (simp add: showcase_db_def)

definition in_effect :: "string \<times> ('r, 't) store_options \<Rightarrow> string \<times> ('r merge_fn, 't \<Rightarrow> filter_handler) opt_call option list" where
  "in_effect d = (case d of (n, opts) \<Rightarrow> (n, map (\<lambda>k. last_call k opts)
     [''cf_write_buffer_size'', ''cf_max_write_buffer_number'', ''cf_compression_type'']))"

lemma showcase_family_effect:
  "map in_effect (showcase_families :: ('r, 't) descriptors) = [
      (DEFAULT_COLUMN_FAMILY_NAME, [Some (Macro (WriteBufferSize (4 * MIB))), Some (Macro (MaxWriteBufferNumber 2)),
        Some (CompressionTypeOpt Lz4Compression)]),
      (CF_HIGH_WRITE, [Some (Macro (WriteBufferSize (64 * MIB))), Some (Macro (MaxWriteBufferNumber 6)),
        Some (CompressionTypeOpt SnappyCompression)]),
      (CF_READ_CACHE, [Some (Macro (WriteBufferSize (64 * MIB))), Some (Macro (MaxWriteBufferNumber 4)),
        Some (CompressionTypeOpt ZstdCompression)])]"
proof -
  have "uint (usize_saturating_mul 64 MIB) = 64 * 2 ^ 20"
    unfolding uint_megabytes by (simp add: megabytes_def usize_max_def)
  then have "usize_saturating_mul 64 MIB = 64 * MIB"
    by (simp add: word_uint_eq_iff MIB_def)
  then show ?thesis
    by (simp add: in_effect_def showcase_families_def tune_memory_saver_def tune_real_time_def tune_latest_value_def Let_def
        tunable_method_defs is_locked_def last_call_def MIB_def)
qed

section \<open>Properties\<close>


end
