(* ===== verification/Spec2Isabelle.thy ===== *)
theory Spec2Isabelle
  imports Base62 Typed_Store Example_Opening
begin

text \<open>
  A verification development of the Rust crate \<open>rocksolid\<close>, a typed layer over RocksDB: stores with
  column families, batches, merge and compaction filter routers, and pessimistic and optimistic
  transactions. File names below are those under \<open>src/\<close> of the crate.

  \<^bold>\<open>The program.\<close> Keys become bytes (\<open>bytes.rs\<close>), values go through MessagePack and optionally a
  header with an expiry time (\<open>serialization.rs\<close>, \<open>types.rs\<close>). \<open>RocksDbCFStore\<close> (\<open>cf_store.rs\<close>) offers
  typed reads, writes and searches on a named column family; its searches are run by the helper of
  \<open>iter/\<close>. \<open>BatchWriter\<close> (\<open>batch.rs\<close>) collects writes and commits them as one. \<open>RocksDbCFTxnStore\<close> and
  \<open>RocksDbCFOptimisticTxnStore\<close> (\<open>tx/\<close>) repeat the store's operations through a macro and add
  transactions: a closure that is committed or rolled back, the two context objects
  (\<open>tx/context.rs\<close>, \<open>tx/optimistic_context.rs\<close>), and the retry loop (\<open>tx/optimistic.rs\<close>) with its policies
  (\<open>tx/policies.rs\<close>). Three further stores (\<open>store.rs\<close>, \<open>tx/tx_store.rs\<close>, \<open>tx/optimistic_tx_store.rs\<close>) offer the
  same for the default column family only, and macros (\<open>macros.rs\<close>) generate data access functions over
  the stores. A store is opened from a configuration (\<open>config.rs\<close> and the modules of the stores): the
  options of RocksDB are tuned by profiles (\<open>tuner/\<close>), which respect the settings that were made
  explicitly, then a callback of the user sees them, then merge operators, comparators and compaction
  filters are added. \<open>utils/mod.rs\<close> copies databases and makes backups. RocksDB calls back into the crate
  for merges (\<open>merge.rs\<close>) and during compactions (\<open>compaction_filter/\<close>), when it likes. \<open>utils/base62.rs\<close>
  makes time keys that sort. Programs that use the crate are under \<open>examples/\<close>.

  \<^bold>\<open>The theories\<close>, in the order in which they build on each other.
  \<^item> \<open>Prelude\<close>: results as sums and their combinators (\<open>?\<close>, \<open>map_err\<close>, \<open>ok_or\<close>, collecting into
    \<open>Result<Vec>\<close>), decimal output, big-endian numbers, UTF-8, the collection \<open>guard_simps\<close>.
  \<^item> \<open>Store_Error\<close> (\<open>error.rs\<close>) and \<open>Codec\<close> (\<open>bytes.rs\<close>, \<open>serialization.rs\<close>, \<open>types.rs\<close>): the data.
  \<^item> \<open>Base62\<close> (\<open>utils/base62.rs\<close>): locale \<open>ordered_encoding\<close>, an order embedding of numbers into keys,
    interpreted as \<open>time_key\<close>.
  \<^item> \<open>Rocks_API\<close>: the interface of RocksDB that the crate calls, see below.
  \<^item> \<open>Iteration\<close> (\<open>iter/mod.rs\<close>, \<open>iter/helpers.rs\<close>): the two iterators and \<open>IterationHelper::execute\<close>. The
    locale \<open>pull_iterator\<close> gives the termination of drawing an iterator to its end and what that
    yields; \<open>controlled\<close> and \<open>raw\<close> are its interpretations on the two iterators.
  \<^item> \<open>CF_Store\<close> (\<open>cf_store.rs\<close>): the trait \<open>CFOperations\<close> on \<open>RocksDbCFStore\<close>. The locale
    \<open>cf_operations\<close> is what a client of the trait may rely on, over the view of the database as a map;
    \<open>store\<close> is its interpretation.
  \<^item> \<open>Batch_Writer\<close> (\<open>batch.rs\<close>).
  \<^item> \<open>Merge_Router\<close> (\<open>merge.rs\<close>, the default merge functions of \<open>config.rs\<close>) and \<open>Compaction_Filter\<close>
    (\<open>compaction_filter/mod.rs\<close>, \<open>compaction_filter/binary.rs\<close>).
  \<^item> \<open>Retry\<close> (\<open>tx/optimistic.rs\<close>, \<open>tx/policies.rs\<close>): the loop without a bound of its own, as a partial
    function; the locale \<open>bounded_retry\<close> is what a policy must promise for it to return, and \<open>fixed\<close> and
    \<open>never\<close> are its interpretations on the two policies.
  \<^item> \<open>Txn_Store\<close> (\<open>tx/macros.rs\<close>, \<open>tx/cf_tx_store.rs\<close>, \<open>tx/mod.rs\<close>, the handle lookup of
    \<open>tx/cf_optimistic_tx_store.rs\<close>): the operations of the two transactional stores, the operations within
    a transaction, \<open>execute_transaction\<close>; \<open>cf_operations\<close> is interpreted on the macro's operations as \<open>txn\<close>.
  \<^item> \<open>Txn_Context\<close> (\<open>tx/context.rs\<close>) and \<open>Opt_Context\<close> (\<open>tx/optimistic_context.rs\<close>): the two context
    objects with the whole life of the native transaction inside them, which is the relation \<open>life\<close>.
  \<^item> \<open>Default_Stores\<close>: the three stores for the default column family, \<open>ds_\<close>, \<open>dt_\<close> and \<open>dp_\<close>. The locale
    \<open>default_operations\<close> is the contract of their trait; \<open>cf_operations\<close> gives it (a \<open>sublocale\<close>), and the
    three stores are interpreted in it.
  \<^item> \<open>Dao\<close> (\<open>macros.rs\<close>): the macros as functions of the method that they call; the locale \<open>multi_reads\<close>
    is what they rely on in a multi-key read.
  \<^item> \<open>Float64\<close>: the arithmetic of \<open>f64\<close> that the profiles use, with rounding to even, infinities, NaN and
    the saturating casts. \<open>Tunable\<close> (\<open>tuner/tunable.rs\<close>): options with locks; the options of RocksDB are the
    list of the setters called on them, of which the last one of a kind is in effect. \<open>Profiles\<close>
    (\<open>tuner/profiles.rs\<close>, \<open>tuner/pattern_tuner.rs\<close>): the five profiles; the trait \<open>PatternTuner\<close> is the
    locale \<open>pattern_tuner\<close>, with \<open>profile\<close> its interpretation.
  \<^item> \<open>Config\<close> (\<open>config.rs\<close> and the configuration types of \<open>tx/\<close>): records, defaults, conversions between
    them, parsers, comparators. \<open>Open_Store\<close> (\<open>cf_store.rs\<close>, \<open>tx/internal.rs\<close>): \<open>open\<close> and \<open>destroy\<close> of all
    six stores, down to the call of RocksDB.
  \<^item> \<open>Migration\<close> (\<open>utils/mod.rs\<close>): \<open>migrate_db\<close>, \<open>backup_db\<close>, the limit of open files.
  \<^item> \<open>Conflict_Detection\<close>: a closure of a transaction as a tree of its calls, and the retry loop as a
    machine \<open>thread_step\<close> that can be interrupted between any two calls; run alone it is the loop of
    \<open>Retry\<close>. \<open>Interleaving\<close>: any number of such threads and plain writers on one database, as an
    inductive relation with the history of the commits; the locale \<open>thread_invariant\<close> carries an invariant
    of a thread through all interleavings, \<open>replayed\<close> (what a thread has read is still there when it
    commits) and \<open>paid\<close> (its refused commits are covered by writes of others) are its interpretations.
    \<open>Isolation\<close>: what follows for programs, among them the transfer of
    \<open>examples/optimistic_transaction.rs\<close>, and what does not hold.
  \<^item> \<open>Background\<close>: merges and compactions that RocksDB makes at times of its own choice, while routes are
    registered. The locale \<open>merge_handlers\<close> is what a pair of merge handlers must promise, with
    \<open>default_merge\<close> its interpretation on the default handlers of \<open>config.rs\<close>; the locale \<open>routing_table\<close> is
    a table that only grows, \<open>pattern_table\<close> and \<open>prefix_table\<close> are the two routers.
  \<^item> \<open>Typed_Store\<close>: a schema that gives each family the type of its values, and the locale
    \<open>typed_component\<close> (writes keep it, reads rely on it) with \<open>typed_store\<close> and \<open>typed_txn_store\<close> its
    interpretations on the plain store with its batches and on the stores with transactions.
  \<^item> \<open>Example_Handlers\<close> (\<open>examples/merge_routing.rs\<close>, \<open>examples/compaction_filter_routing.rs\<close>): the handlers
    and the registrations. \<open>Program_Logic\<close>: programs over a store that end with \<open>?\<close>, with a failed assertion
    or well, and rules for them: \<open>ends pan Q\<close> allows a panic only if \<open>pan\<close>, and success only in \<open>Q\<close>.
    \<open>Example_Programs\<close> (\<open>batching.rs\<close>, \<open>basic_usage.rs\<close>, \<open>value_expiry_example.rs\<close>,
    \<open>macros_cf_usage.rs\<close>, \<open>cf_store_operations.rs\<close>), \<open>Example_Iteration\<close> (\<open>cf_store_iteration.rs\<close>),
    \<open>Example_Transactions\<close> (\<open>transactional.rs\<close>, \<open>cf_txn_store_operations.rs\<close>,
    \<open>cf_optimistic_txn_store_operations.rs\<close>, \<open>optimistic_transaction.rs\<close>) and \<open>Example_Compaction\<close>
    (\<open>compaction_filter_routing.rs\<close>) are the \<open>main\<close> functions of \<open>examples/\<close> on an open store.
    \<open>Example_Opening\<close>: the configurations with which they open it, and \<open>tuning_showcase.rs\<close> as a whole.

  \<^bold>\<open>Conventions.\<close> A \<open>Result\<close> is a sum with the error on the left; a panic is \<open>None\<close> where the code can
  panic. A method on \<open>&mut self\<close> takes the state and returns it. Machine integers are words (\<open>u64\<close>,
  \<open>usize\<close> and \<open>u128\<close>), so that their arithmetic wraps. Strings are character lists whose characters stand for the
  bytes of the UTF-8 encoding. A user closure is a function on an explicit state \<open>'c\<close> of its own, so
  a control function may count, collect or change its mind.

  \<^bold>\<open>Third-party code is a parameter.\<close> The model of a component takes the calls that it makes to RocksDB
  as a record of functions over an arbitrary state: \<open>rocks_api\<close> for a database or a transaction,
  \<open>txn_life\<close> for begin, commit and rollback, \<open>txn_db\<close> for the loop. What the crate relies on is stated
  over the view of that state as a map from column families and keys to values: \<open>rocks_contract\<close> (a read
  gives what the view has, a write that succeeds changes the view as it says, one that fails changes
  nothing), \<open>iter_contract\<close> (an iterator gives the rows in order, from the start that was asked, until
  an error), \<open>txn_contract\<close> (a transaction starts from the database, its writes stay inside it, a commit
  transfers them). In the same way: \<open>base62_contract\<close>, \<open>router_contract\<close> (the crate \<open>matchit\<close>, on
  literal patterns), \<open>radix_contract\<close> (the crate \<open>fast_radix_trie\<close>) and \<open>codec_ok\<close> (serde and
  MessagePack decode what they encoded). Opening and destroying a database is \<open>open_api\<close>, over a world that
  all databases share; the crates behind the comparators are \<open>comparator_crates\<close>; \<open>num_cpus::get()\<close> is an
  argument. For migrations \<open>two_databases\<close> says that the two databases are two, and \<open>scan_contract\<close> that a
  scan shows each row once, in any order; for backups \<open>refuses_existing\<close> says that RocksDB makes no
  checkpoint in a directory that exists. For interleavings
  \<open>detects_conflicts\<close> says that a transaction with a snapshot commits only if no key that it writes was
  written since it began, \<open>only_conflicts\<close> that nothing else refuses a commit. The merge laws of
  \<open>Background\<close> speak of the handlers of the user. About MessagePack the examples need a little more than
  \<open>codec_ok\<close>: \<open>fixstr_codec\<close> (the header of a short string), \<open>kinds_apart\<close> and \<open>not_bytes\<close> (what encodes one
  type does not decode as the other); \<open>keys_decode\<close> and \<open>rows_only\<close> speak of the key decoder and of the
  database that a program finds, \<open>sane_clock\<close> of the clock, \<open>maintenance_contract\<close> of \<open>flush_cf\<close> and
  \<open>compact_range_cf\<close>. Every contract has an instance in the development
  (\<open>occ_db_calls\<close> and \<open>occ_api\<close>, a database with a version for each key, \<open>mem_api\<close>, \<open>mem_txn_api\<close>, \<open>left_db\<close> and \<open>right_db\<close>, \<open>ref_base62\<close>, \<open>list_router\<close>, \<open>list_radix\<close>, \<open>raw_codec\<close>), on which the witnesses
  evaluate the model.

  \<^bold>\<open>What the lemmas show.\<close>
  \<^item> Data: round trips of encodings and containers, order of time keys, exact width.
  \<^item> Iteration: with a prefix nothing outside of it is seen by the caller's functions; what the iterators
    yield is a fold over the rows; a typed drawing of the iterator always ends.
  \<^item> Stores: every write refines one update of the view and an error leaves the view alone; reads return
    what was written; multi-key reads, prefix and range searches return exactly the rows of the view.
    The macro's stores agree with the plain store on every operation but \<open>delete_range\<close>.
  \<^item> Batches and transactions: all or nothing, with the operations in order; a transaction reads its own
    writes; which native calls the ends of a context make, and the two that misuse the transaction.
  \<^item> Routers: which handler decides on a key, what a registration changes and leaves.
  \<^item> The retry loop returns, after at most as many attempts as allowed, with the result it should have; and
    it commits when its rivals are fewer than its attempts.
  \<^item> Default stores: the three agree on what they share, and their writes refine those of the named
    stores; where one of them reaches beyond the default family.
  \<^item> Options: explicit settings win over profiles whatever the order of the calls, with the exceptions
    that the code has; sizes saturate; an opened database has exactly the options that its configuration
    asks for, in whatever order the map of configurations is traversed.
  \<^item> Concurrency: with conflict detection and closures that write what they read, every interleaving is
    equivalent to the commits one after the other; each refused commit is paid by a write of another
    thread. Without a snapshot, or for keys that are only read, this fails, and lemmas show how.
  \<^item> Background: merges that RocksDB makes on the way are not seen when the handlers obey the laws; rows
    without a route are never touched.
  \<^item> Types: programs of well-typed writes never meet a deserialization error.
  \<^item> Examples: the programs do what their comments expect on every database that keeps the contracts,
    whatever errors it reports; for three of them it is shown that they cannot, or need not, succeed.
    The transfer of \<open>transactional.rs\<close> is all or nothing. The options in effect in the tuning showcase.
  \<^item> Migration: a success lays the source over the destination, a failure in the middle has invented
    nothing. A backup cannot succeed.

  \<^bold>\<open>Bounds.\<close> No fuel is used anywhere. The loops over an iterator are functions with a measure (the rows
  that are left), and drawing an iterator to its end and the retry loop are partial functions, whose
  returning is proved.

  \<^bold>\<open>Not modelled.\<close> The \<open>Debug\<close> implementations and logging; accessors that hand out a field; the three macros of \<open>macros.rs\<close> that expand
  to functions the crate does not have. The locks around the routers are left out: each call sees one
  state of the tables. Options of RocksDB are not interpreted beyond which call is in effect. Of the
  examples, what they print; of \<open>merge_routing.rs\<close>, the calls of \<open>main\<close>, whose outcome depends on when the
  database merges (the lemmas on its handlers say how). The tests of the crate. Closures and programs run to
  their end: a crash of the process in the middle is not modelled.
\<close>

end
